theory Spec2Isabelle
  imports Complex_Main "HOL-Library.Multiset" "HOL-Library.Char_ord" "HOL-Library.List_Lexorder"
begin

section \<open>JavaScript values used by the console\<close>

text \<open>
  The console is a React application; its logic is arithmetic, filtering and sorting over
  documents read from a hosted document store. The documents are duck-typed, so the
  model starts with the JavaScript values the code manipulates.

  A JavaScript Number is modelled as an exact real number, the two infinities, or NaN.
  Rounding of IEEE-754 doubles and the sign of zero are not modelled: arithmetic on finite
  numbers is exact. The sums of the specification are taken in the order in which the
  code adds, so the statements about totals use no law of addition other than
  \<open>x + 0 = x\<close> and \<open>0 + x = x\<close>.
\<close>

datatype number = NaN | PosInf | NegInf | Fin real

text \<open>The operator \<^verbatim>\<open>+\<close> on two Numbers.\<close>

fun nadd :: "number \<Rightarrow> number \<Rightarrow> number" where
  "nadd NaN y = NaN"
| "nadd x NaN = NaN"
| "nadd (Fin a) (Fin b) = Fin (a + b)"
| "nadd PosInf NegInf = NaN"
| "nadd NegInf PosInf = NaN"
| "nadd PosInf y = PosInf"
| "nadd x PosInf = PosInf"
| "nadd NegInf y = NegInf"
| "nadd x NegInf = NegInf"

fun nneg :: "number \<Rightarrow> number" where
  "nneg NaN = NaN"
| "nneg PosInf = NegInf"
| "nneg NegInf = PosInf"
| "nneg (Fin a) = Fin (- a)"

text \<open>The operator \<^verbatim>\<open>-\<close> on two Numbers.\<close>

definition nsub :: "number \<Rightarrow> number \<Rightarrow> number" where
  "nsub x y = nadd x (nneg y)"

text \<open>The relational operator \<^verbatim>\<open><\<close> on two Numbers: false as soon as one is NaN.\<close>

fun num_lt :: "number \<Rightarrow> number \<Rightarrow> bool" where
  "num_lt NaN y = False"
| "num_lt x NaN = False"
| "num_lt (Fin a) (Fin b) = (a < b)"
| "num_lt x NegInf = False"
| "num_lt PosInf y = False"
| "num_lt NegInf y = True"
| "num_lt x PosInf = True"

text \<open>Truthiness of a Number: NaN and 0 are falsy.\<close>

fun num_truthy :: "number \<Rightarrow> bool" where
  "num_truthy NaN = False"
| "num_truthy (Fin a) = (a \<noteq> 0)"
| "num_truthy PosInf = True"
| "num_truthy NegInf = True"

text \<open>The idiom \<^verbatim>\<open>n || 0\<close>.\<close>

definition or_zero :: "number \<Rightarrow> number" where
  "or_zero n = (if num_truthy n then n else Fin 0)"

text \<open>
  A field of a stored document, as far as the numeric code paths can see it: absent,
  null, a boolean, a Number or a string.
\<close>

datatype jsval = JUndefined | JNull | JBool bool | JNum number | JStr string

subsection \<open>The global function parseFloat\<close>

text \<open>
  \<^verbatim>\<open>parseFloat\<close> converts its argument to a string, skips leading white space and
  reads the longest prefix that is a decimal literal (optional sign, \<^verbatim>\<open>Infinity\<close> or
  digits with an optional fraction and exponent); without such a prefix the result is NaN.
  Strings are lists of 8-bit characters here, so only the ASCII white space is skipped.
\<close>

definition is_digit :: "char \<Rightarrow> bool" where
  "is_digit c = (48 \<le> (of_char c :: nat) \<and> (of_char c :: nat) \<le> 57)"

definition is_ws :: "char \<Rightarrow> bool" where
  "is_ws c = ((of_char c :: nat) = 32 \<or> (9 \<le> (of_char c :: nat) \<and> (of_char c :: nat) \<le> 13))"

definition digits_val :: "string \<Rightarrow> nat" where
  "digits_val ds = foldl (\<lambda>a c. 10 * a + ((of_char c :: nat) - 48)) 0 ds"

definition scale10 :: "real \<Rightarrow> int \<Rightarrow> real" where
  "scale10 m e = (if 0 \<le> e then m * 10 ^ nat e else m / 10 ^ nat (- e))"

text \<open>The exponent part of a literal: its value and the rest of the input; an incomplete
  exponent is not part of the literal.\<close>

definition exponent_part :: "string \<Rightarrow> int \<times> string" where
  "exponent_part r =
     (case r of
        [] \<Rightarrow> (0, r)
      | c # r1 \<Rightarrow>
          if c = CHR ''e'' \<or> c = CHR ''E'' then
            (let neg = (r1 \<noteq> [] \<and> hd r1 = CHR ''-'');
                 r2 = (if r1 \<noteq> [] \<and> (hd r1 = CHR ''+'' \<or> hd r1 = CHR ''-'') then tl r1 else r1);
                 ds = takeWhile is_digit r2
             in if ds = [] then (0, r)
                else ((if neg then - int (digits_val ds) else int (digits_val ds)),
                      dropWhile is_digit r2))
          else (0, r))"

definition str_unsigned :: "string \<Rightarrow> (number \<times> string) option" where
  "str_unsigned s =
     (if take 8 s = ''Infinity'' then Some (PosInf, drop 8 s)
      else
        (let ip = takeWhile is_digit s;
             r1 = dropWhile is_digit s;
             hasdot = (r1 \<noteq> [] \<and> hd r1 = CHR ''.'');
             fp = (if hasdot then takeWhile is_digit (tl r1) else []);
             r2 = (if hasdot then dropWhile is_digit (tl r1) else r1)
         in if ip = [] \<and> fp = [] then None
            else
              (let m = real (digits_val ip) + real (digits_val fp) / 10 ^ length fp;
                   er = exponent_part r2
               in Some (Fin (scale10 m (fst er)), snd er))))"

definition str_decimal :: "string \<Rightarrow> (number \<times> string) option" where
  "str_decimal s =
     (case s of
        [] \<Rightarrow> None
      | c # r \<Rightarrow>
          if c = CHR ''+'' then str_unsigned r
          else if c = CHR ''-'' then map_option (\<lambda>(n, t). (nneg n, t)) (str_unsigned r)
          else str_unsigned s)"

definition parseFloat_str :: "string \<Rightarrow> number" where
  "parseFloat_str s =
     (case str_decimal (dropWhile is_ws s) of None \<Rightarrow> NaN | Some (n, r) \<Rightarrow> n)"

fun parseFloat :: "jsval \<Rightarrow> number" where
  "parseFloat (JNum n) = n"
| "parseFloat (JStr s) = parseFloat_str s"
| "parseFloat v = NaN"

subsection \<open>Dates\<close>

text \<open>
  A \<^verbatim>\<open>Date\<close> is its time value in milliseconds since the epoch, or the invalid date.
  The clock and the local time zone belong to the browser and are parameters of the
  model. The zone is a fixed offset from UTC (no daylight-saving transitions).

  \<^verbatim>\<open>new Date(text)\<close> parses the text. The language fixes the result for the date-only form
  \<^verbatim>\<open>YYYY-MM-DD\<close>, which is what a date input delivers: it is midnight UTC of that calendar
  day. What any other text parses to is left to the browser and is a parameter, and so is
  what \<^verbatim>\<open>new Date\<close> makes of a store timestamp object. The empty string never parses.
\<close>

type_synonym jsdate = "int option"

record js_env =
  now :: int
  tz_offset :: int
  date_parse :: "string \<Rightarrow> int option"
  date_of_timestamp :: "int \<Rightarrow> int option"

definition ms_per_day :: int where
  "ms_per_day = 86400000"

text \<open>The number of days from 1970-01-01 to a day of the proleptic Gregorian calendar.\<close>

definition days_from_civil :: "int \<Rightarrow> int \<Rightarrow> int \<Rightarrow> int" where
  "days_from_civil y m d =
     (let y1 = (if m \<le> 2 then y - 1 else y);
          era = y1 div 400;
          yoe = y1 - era * 400;
          mp = (m + 9) mod 12;
          doy = (153 * mp + 2) div 5 + d - 1;
          doe = yoe * 365 + yoe div 4 - yoe div 100 + doy
      in era * 146097 + doe - 719468)"

definition days_in_month :: "int \<Rightarrow> int \<Rightarrow> int" where
  "days_in_month y m =
     (if m = 2 then (if y mod 4 = 0 \<and> (y mod 100 \<noteq> 0 \<or> y mod 400 = 0) then 29 else 28)
      else if m = 4 \<or> m = 6 \<or> m = 9 \<or> m = 11 then 30 else 31)"

text \<open>The calendar day written by a date-only text, as a day number; no value for any
  other text.\<close>

definition iso_day :: "string \<Rightarrow> int option" where
  "iso_day s =
     (if length s = 10 \<and> s ! 4 = CHR ''-'' \<and> s ! 7 = CHR ''-''
         \<and> list_all is_digit (take 4 s) \<and> list_all is_digit (take 2 (drop 5 s))
         \<and> list_all is_digit (drop 8 s)
      then
        (let y = int (digits_val (take 4 s));
             m = int (digits_val (take 2 (drop 5 s)));
             d = int (digits_val (drop 8 s))
         in if 1 \<le> m \<and> m \<le> 12 \<and> 1 \<le> d \<and> d \<le> days_in_month y m
            then Some (days_from_civil y m d) else None)
      else None)"

definition new_Date :: "js_env \<Rightarrow> string \<Rightarrow> jsdate" where
  "new_Date env s =
     (if s = [] then None
      else case iso_day s of
             Some d \<Rightarrow> Some (d * ms_per_day)
           | None \<Rightarrow> date_parse env s)"

text \<open>\<^verbatim>\<open>d.setHours(0, 0, 0, 0)\<close> and \<^verbatim>\<open>d.setHours(23, 59, 59, 999)\<close>.\<close>

definition setHours_start :: "js_env \<Rightarrow> jsdate \<Rightarrow> jsdate" where
  "setHours_start env d = map_option (\<lambda>t. t - ((t + tz_offset env) mod ms_per_day)) d"

definition setHours_end :: "js_env \<Rightarrow> jsdate \<Rightarrow> jsdate" where
  "setHours_end env d =
     map_option (\<lambda>t. t - ((t + tz_offset env) mod ms_per_day) + (ms_per_day - 1)) d"

text \<open>Comparison of two dates by time value; false as soon as one is invalid.\<close>

fun date_lt :: "jsdate \<Rightarrow> jsdate \<Rightarrow> bool" where
  "date_lt (Some a) (Some b) = (a < b)"
| "date_lt x y = False"

fun date_le :: "jsdate \<Rightarrow> jsdate \<Rightarrow> bool" where
  "date_le (Some a) (Some b) = (a \<le> b)"
| "date_le x y = False"

text \<open>Truthiness of an optional string field: absent and empty are falsy.\<close>

fun str_truthy :: "string option \<Rightarrow> bool" where
  "str_truthy None = False"
| "str_truthy (Some s) = (s \<noteq> [])"

section \<open>Documents\<close>

text \<open>
  A policy document as the views read it. The fields the code reads through optional
  chaining or a truthiness test are optional. The two fields it dereferences without a
  guard (\<^verbatim>\<open>policyType\<close> and \<^verbatim>\<open>policyNumber\<close>) are strings, as both writers of the
  application store them, and the two flags are booleans. The monetary fields are read
  through \<^verbatim>\<open>parseFloat\<close> and may hold any value. \<^verbatim>\<open>policy_id\<close> is the identifier of
  the document (\<^verbatim>\<open>id\<close>), and \<^verbatim>\<open>createdAt\<close> is a store timestamp, in milliseconds, or
  absent.
\<close>

record customer =
  firstName :: "string option"
  lastName :: "string option"
  phoneNumber :: "string option"
  idNumber :: "string option"
  address :: "string option"
  city :: "string option"
  postalCode :: "string option"

record policy =
  policy_id :: string
  policyType :: string
  policyDate :: "string option"
  validUntil :: "string option"
  totalAmount :: jsval
  commission :: jsval
  policyNumber :: string
  vehicleNumber :: string
  insuranceType :: string
  paidByCustomer :: bool
  paidToInsurer :: bool
  customer :: "customer option"
  createdAt :: "int option"

section \<open>Dashboard\<close>

record dashboard_summary =
  totalPolicies :: nat
  totalPolicyValue :: number
  totalCommission :: number
  policiesPaidByCustomer :: nat
  policiesPaidToInsurer :: nat
  overduePolicies :: nat

definition is_overdue :: "js_env \<Rightarrow> policy \<Rightarrow> bool" where
  "is_overdue env policy =
     (let today = setHours_start env (Some (now env));
          validUntilDate =
            (if str_truthy (validUntil policy) then Some (new_Date env (the (validUntil policy)))
             else None)
      in case validUntilDate of None \<Rightarrow> False | Some d \<Rightarrow> date_lt d today)"

definition Dashboard :: "js_env \<Rightarrow> policy list \<Rightarrow> dashboard_summary" where
  "Dashboard env policies =
     \<lparr> totalPolicies = length policies,
       totalPolicyValue =
         foldl (\<lambda>acc policy. nadd acc (or_zero (parseFloat (totalAmount policy)))) (Fin 0) policies,
       totalCommission =
         foldl (\<lambda>acc policy. nadd acc (or_zero (parseFloat (commission policy)))) (Fin 0) policies,
       policiesPaidByCustomer = length (filter paidByCustomer policies),
       policiesPaidToInsurer = length (filter paidToInsurer policies),
       overduePolicies = length (filter (is_overdue env) policies) \<rparr>"

subsection \<open>What the specification says about the summary\<close>

text \<open>The sum of a list of Numbers, added from 0 in the order of the list.\<close>

definition nsum :: "number list \<Rightarrow> number" where
  "nsum xs = foldl nadd (Fin 0) xs"

text \<open>A value parsed as a number, with a non-numeric or missing value counted as 0.\<close>

definition numeric_or_zero :: "jsval \<Rightarrow> number" where
  "numeric_or_zero v = (case parseFloat v of NaN \<Rightarrow> Fin 0 | n \<Rightarrow> n)"

text \<open>The start of the local calendar day a time value falls in.\<close>

definition dateOnly :: "js_env \<Rightarrow> jsdate \<Rightarrow> jsdate" where
  "dateOnly env d =
     map_option (\<lambda>t. ms_per_day * ((t + tz_offset env) div ms_per_day) - tz_offset env) d"

text \<open>The number of the local calendar day a time value falls in.\<close>

definition local_day :: "js_env \<Rightarrow> int \<Rightarrow> int" where
  "local_day env t = (t + tz_offset env) div ms_per_day"

text \<open>
  The calendar day a date text stands for. A date-only text names its day, whatever the
  zone; any other text is a point in time, which falls in a local day.
\<close>

definition text_day :: "js_env \<Rightarrow> string \<Rightarrow> int option" where
  "text_day env s =
     (case iso_day s of
        Some d \<Rightarrow> Some d
      | None \<Rightarrow> map_option (local_day env) (new_Date env s))"

text \<open>A policy is overdue when its valid-until day is present and strictly before the
  current calendar day.\<close>

definition spec_overdue :: "js_env \<Rightarrow> policy \<Rightarrow> bool" where
  "spec_overdue env p =
     (case validUntil p of
        None \<Rightarrow> False
      | Some s \<Rightarrow>
          (case text_day env s of
             None \<Rightarrow> False
           | Some d \<Rightarrow> d < local_day env (now env)))"

section \<open>Filtering the policy list\<close>

subsection \<open>String helpers\<close>

text \<open>
  \<^verbatim>\<open>toLowerCase\<close> on the ASCII letters (other characters are left unchanged), and
  \<^verbatim>\<open>s.includes(t)\<close>: \<open>t\<close> occurs in \<open>s\<close> as a contiguous substring.
\<close>

definition lower_char :: "char \<Rightarrow> char" where
  "lower_char c =
     (case map_of (zip ''ABCDEFGHIJKLMNOPQRSTUVWXYZ'' ''abcdefghijklmnopqrstuvwxyz'') c of
        None \<Rightarrow> c
      | Some l \<Rightarrow> l)"

definition toLowerCase :: "string \<Rightarrow> string" where
  "toLowerCase s = map lower_char s"

fun str_includes :: "string \<Rightarrow> string \<Rightarrow> bool" where
  "str_includes [] t = (t = [])"
| "str_includes (c # s) t = (take (length t) (c # s) = t \<or> str_includes s t)"

text \<open>
  The result of an optional chain such as
  \<^verbatim>\<open>policy.customer?.firstName?.toLowerCase().includes(f)\<close>: undefined when a link is
  missing, a boolean otherwise.
\<close>

definition chain_includes :: "string option \<Rightarrow> string \<Rightarrow> bool option" where
  "chain_includes field f = map_option (\<lambda>s. str_includes (toLowerCase s) (toLowerCase f)) field"

fun bool_truthy :: "bool option \<Rightarrow> bool" where
  "bool_truthy None = False"
| "bool_truthy (Some b) = b"

subsection \<open>The filter of the policy view\<close>

record policy_filters =
  filterPolicyType :: string
  filterCustomerName :: string
  filterPolicyNumber :: string
  filterPaidByCustomer :: string
  filterPaidToInsurer :: string
  filterValidUntilStartDate :: string
  filterValidUntilEndDate :: string

text \<open>The three stages of the mutable flag \<^verbatim>\<open>matchesValidUntilDate\<close>.\<close>

definition matchesValidUntilDate :: "js_env \<Rightarrow> policy_filters \<Rightarrow> policy \<Rightarrow> bool" where
  "matchesValidUntilDate env f policy =
     (let m0 = True;
          m1 = (if filterValidUntilStartDate f \<noteq> [] \<and> str_truthy (validUntil policy) then
                  (let start = setHours_start env (new_Date env (filterValidUntilStartDate f));
                       policyValidUntil = new_Date env (the (validUntil policy))
                   in m0 \<and> date_le start policyValidUntil)
                else m0);
          m2 = (if filterValidUntilEndDate f \<noteq> [] \<and> str_truthy (validUntil policy) then
                  (let end = setHours_end env (new_Date env (filterValidUntilEndDate f));
                       policyValidUntil = new_Date env (the (validUntil policy))
                   in m1 \<and> date_le policyValidUntil end)
                else m1)
      in m2)"

definition policy_matches :: "js_env \<Rightarrow> policy_filters \<Rightarrow> policy \<Rightarrow> bool" where
  "policy_matches env f policy =
     (let matchesPolicyType =
            (filterPolicyType f = [] \<or>
             str_includes (toLowerCase (policyType policy)) (toLowerCase (filterPolicyType f)));
          matchesCustomerName =
            (filterCustomerName f = [] \<or>
             (bool_truthy (chain_includes (Option.bind (customer policy) firstName)
                             (filterCustomerName f)) \<or>
              bool_truthy (chain_includes (Option.bind (customer policy) lastName)
                             (filterCustomerName f))));
          matchesPolicyNumber =
            (filterPolicyNumber f = [] \<or>
             str_includes (toLowerCase (policyNumber policy)) (toLowerCase (filterPolicyNumber f)));
          matchesPaidByCustomer =
            (filterPaidByCustomer f = ''all'' \<or>
             paidByCustomer policy = (filterPaidByCustomer f = ''yes''));
          matchesPaidToInsurer =
            (filterPaidToInsurer f = ''all'' \<or>
             paidToInsurer policy = (filterPaidToInsurer f = ''yes''))
      in matchesPolicyType \<and> matchesCustomerName \<and> matchesPolicyNumber \<and>
         matchesPaidByCustomer \<and> matchesPaidToInsurer \<and> matchesValidUntilDate env f policy)"

definition filteredPolicies :: "js_env \<Rightarrow> policy_filters \<Rightarrow> policy list \<Rightarrow> policy list" where
  "filteredPolicies env f policies = filter (policy_matches env f) policies"

subsection \<open>The six conditions of the specification\<close>

text \<open>A text contains a filter text, ignoring case.\<close>

definition contains_ci :: "string \<Rightarrow> string \<Rightarrow> bool" where
  "contains_ci text pat = str_includes (toLowerCase text) (toLowerCase pat)"

definition spec_policyType_ok :: "policy_filters \<Rightarrow> policy \<Rightarrow> bool" where
  "spec_policyType_ok f p =
     (filterPolicyType f = [] \<or> contains_ci (policyType p) (filterPolicyType f))"

text \<open>A name of the embedded customer contains the filter text; a policy without a
  customer, or without that name, has no such name.\<close>

definition customer_name_contains :: "policy \<Rightarrow> (customer \<Rightarrow> string option) \<Rightarrow> string \<Rightarrow> bool" where
  "customer_name_contains p field pat =
     (case customer p of
        None \<Rightarrow> False
      | Some c \<Rightarrow> (case field c of None \<Rightarrow> False | Some n \<Rightarrow> contains_ci n pat))"

definition spec_customerName_ok :: "policy_filters \<Rightarrow> policy \<Rightarrow> bool" where
  "spec_customerName_ok f p =
     (filterCustomerName f = [] \<or> customer_name_contains p firstName (filterCustomerName f)
      \<or> customer_name_contains p lastName (filterCustomerName f))"

definition spec_policyNumber_ok :: "policy_filters \<Rightarrow> policy \<Rightarrow> bool" where
  "spec_policyNumber_ok f p =
     (filterPolicyNumber f = [] \<or> contains_ci (policyNumber p) (filterPolicyNumber f))"

definition spec_paidByCustomer_ok :: "policy_filters \<Rightarrow> policy \<Rightarrow> bool" where
  "spec_paidByCustomer_ok f p =
     (filterPaidByCustomer f = ''all'' \<or> paidByCustomer p = (filterPaidByCustomer f = ''yes''))"

definition spec_paidToInsurer_ok :: "policy_filters \<Rightarrow> policy \<Rightarrow> bool" where
  "spec_paidToInsurer_ok f p =
     (filterPaidToInsurer f = ''all'' \<or> paidToInsurer p = (filterPaidToInsurer f = ''yes''))"

text \<open>The end of the local calendar day a time value falls in.\<close>

definition endOfDay :: "js_env \<Rightarrow> jsdate \<Rightarrow> jsdate" where
  "endOfDay env d = map_option (\<lambda>t. t + (ms_per_day - 1)) (dateOnly env d)"

text \<open>
  The range condition: a bound that is supplied (a non-empty filter text) is checked
  against the valid-until date, and the check is skipped for a policy whose valid-until
  date is absent (undefined or empty).
\<close>

definition validUntil_absent :: "policy \<Rightarrow> bool" where
  "validUntil_absent p = (validUntil p = None \<or> validUntil p = Some [])"

definition spec_start_bound_ok :: "js_env \<Rightarrow> policy_filters \<Rightarrow> policy \<Rightarrow> bool" where
  "spec_start_bound_ok env f p =
     (if filterValidUntilStartDate f = [] then True
      else if validUntil_absent p then True
      else date_le (dateOnly env (new_Date env (filterValidUntilStartDate f)))
             (new_Date env (the (validUntil p))))"

definition spec_end_bound_ok :: "js_env \<Rightarrow> policy_filters \<Rightarrow> policy \<Rightarrow> bool" where
  "spec_end_bound_ok env f p =
     (if filterValidUntilEndDate f = [] then True
      else if validUntil_absent p then True
      else date_le (new_Date env (the (validUntil p)))
             (endOfDay env (new_Date env (filterValidUntilEndDate f))))"

definition spec_policy_passes :: "js_env \<Rightarrow> policy_filters \<Rightarrow> policy \<Rightarrow> bool" where
  "spec_policy_passes env f p =
     (spec_policyType_ok f p \<and> spec_customerName_ok f p \<and> spec_policyNumber_ok f p \<and>
      spec_paidByCustomer_ok f p \<and> spec_paidToInsurer_ok f p \<and>
      (spec_start_bound_ok env f p \<and> spec_end_bound_ok env f p))"

section \<open>Sorting the policy list\<close>

subsection \<open>Conversions and the relational operator\<close>

text \<open>
  \<^verbatim>\<open>ToNumber\<close>, as the relational operators apply it to operands that are not both
  strings. A string converts to the number its whole trimmed text denotes, the empty
  text to 0; hexadecimal, octal and binary literals are not modelled.
\<close>

definition trim :: "string \<Rightarrow> string" where
  "trim s = rev (dropWhile is_ws (rev (dropWhile is_ws s)))"

definition StringToNumber :: "string \<Rightarrow> number" where
  "StringToNumber s =
     (let t = trim s
      in if t = [] then Fin 0
         else (case str_decimal t of
                 None \<Rightarrow> NaN
               | Some (n, r) \<Rightarrow> if r = [] then n else NaN))"

fun ToNumber :: "jsval \<Rightarrow> number" where
  "ToNumber JUndefined = NaN"
| "ToNumber JNull = Fin 0"
| "ToNumber (JBool b) = (if b then Fin 1 else Fin 0)"
| "ToNumber (JNum n) = n"
| "ToNumber (JStr s) = StringToNumber s"

text \<open>
  The operator \<^verbatim>\<open><\<close>: two strings compare by their code units, anything else
  numerically. \<^verbatim>\<open>a > b\<close> is \<^verbatim>\<open>b < a\<close>.
\<close>

fun js_lt :: "jsval \<Rightarrow> jsval \<Rightarrow> bool" where
  "js_lt (JStr a) (JStr b) = (a < b)"
| "js_lt x y = num_lt (ToNumber x) (ToNumber y)"

text \<open>\<^verbatim>\<open>d.getTime()\<close>.\<close>

fun time_value :: "jsdate \<Rightarrow> number" where
  "time_value None = NaN"
| "time_value (Some t) = Fin (real_of_int t)"

text \<open>\<^verbatim>\<open>s || ''\<close> for an optional string.\<close>

fun str_or_empty :: "string option \<Rightarrow> string" where
  "str_or_empty None = []"
| "str_or_empty (Some s) = s"

fun opt_str_val :: "string option \<Rightarrow> jsval" where
  "opt_str_val None = JUndefined"
| "opt_str_val (Some s) = JStr s"

text \<open>
  The property access \<^verbatim>\<open>a[sortColumn]\<close> in the last branch of the comparator. The two
  object-valued properties, \<^verbatim>\<open>customer\<close> and \<^verbatim>\<open>createdAt\<close>, are taken by the
  earlier branches and never reach it.
\<close>

definition policy_field :: "policy \<Rightarrow> string \<Rightarrow> jsval" where
  "policy_field a col =
     (if col = ''id'' then JStr (policy_id a)
      else if col = ''policyType'' then JStr (policyType a)
      else if col = ''policyDate'' then opt_str_val (policyDate a)
      else if col = ''validUntil'' then opt_str_val (validUntil a)
      else if col = ''totalAmount'' then totalAmount a
      else if col = ''commission'' then commission a
      else if col = ''policyNumber'' then JStr (policyNumber a)
      else if col = ''vehicleNumber'' then JStr (vehicleNumber a)
      else if col = ''insuranceType'' then JStr (insuranceType a)
      else if col = ''paidByCustomer'' then JBool (paidByCustomer a)
      else if col = ''paidToInsurer'' then JBool (paidToInsurer a)
      else JUndefined)"

subsection \<open>The comparator\<close>

text \<open>
  \<^verbatim>\<open>a[sortColumn] ? new Date(a[sortColumn]).getTime() : 0\<close> for the three date columns.
  What \<^verbatim>\<open>new Date\<close> makes of a store timestamp object is left to the environment.
\<close>

definition date_sort_value :: "js_env \<Rightarrow> string \<Rightarrow> policy \<Rightarrow> number" where
  "date_sort_value env col a =
     (if col = ''createdAt'' then
        (case createdAt a of None \<Rightarrow> Fin 0 | Some ts \<Rightarrow> time_value (date_of_timestamp env ts))
      else
        (let v = (if col = ''policyDate'' then policyDate a else validUntil a)
         in if str_truthy v then time_value (new_Date env (the v)) else Fin 0))"

definition sort_value :: "js_env \<Rightarrow> string \<Rightarrow> policy \<Rightarrow> jsval" where
  "sort_value env sortColumn a =
     (if sortColumn = ''customer'' then
        JStr (toLowerCase (str_or_empty (Option.bind (customer a) firstName) @ '' '' @
                           str_or_empty (Option.bind (customer a) lastName)))
      else if sortColumn = ''createdAt'' \<or> sortColumn = ''policyDate'' \<or> sortColumn = ''validUntil''
      then JNum (date_sort_value env sortColumn a)
      else (case policy_field a sortColumn of JStr s \<Rightarrow> JStr (toLowerCase s) | v \<Rightarrow> v))"

definition compare_policies :: "js_env \<Rightarrow> string \<Rightarrow> string \<Rightarrow> policy \<Rightarrow> policy \<Rightarrow> int" where
  "compare_policies env sortColumn sortDirection a b =
     (let valA = sort_value env sortColumn a;
          valB = sort_value env sortColumn b
      in if js_lt valA valB then (if sortDirection = ''asc'' then - 1 else 1)
         else if js_lt valB valA then (if sortDirection = ''asc'' then 1 else - 1)
         else 0)"

subsection \<open>Array.prototype.sort\<close>

text \<open>
  The language fixes the result of \<^verbatim>\<open>xs.sort(cmp)\<close> when \<^verbatim>\<open>cmp\<close> is a consistent comparison
  function for the elements of the array: the sort is stable, so the result is the sorted
  arrangement in which elements that compare equal keep their order. There is only one
  such arrangement, and the insertion sort that places an element before the first
  element it does not compare greater than computes it (lemma
  \<open>stable_sort_is_insertion_sort\<close> below).

  A comparison function is consistent for the elements of an array when, on these
  elements, every element compares equal to itself, comparing equal is symmetric and
  transitive, and comparing less and comparing greater are transitive.

  When the comparison function is not consistent (it calls a NaN key equal to every
  other key, say) the language leaves the order to the engine. The engine is a parameter
  of the model. All that is known of its result is that it is an arrangement of the
  elements of the array: a parameter that returns anything else stands for the engine
  that leaves the array as it is.
\<close>

fun insert_by :: "('a \<Rightarrow> 'a \<Rightarrow> int) \<Rightarrow> 'a \<Rightarrow> 'a list \<Rightarrow> 'a list" where
  "insert_by cmp x [] = [x]"
| "insert_by cmp x (y # ys) = (if cmp x y \<le> 0 then x # y # ys else y # insert_by cmp x ys)"

definition insertion_sort :: "('a \<Rightarrow> 'a \<Rightarrow> int) \<Rightarrow> 'a list \<Rightarrow> 'a list" where
  "insertion_sort cmp xs = foldr (insert_by cmp) xs []"

definition consistent_comparator :: "('a \<Rightarrow> 'a \<Rightarrow> int) \<Rightarrow> 'a list \<Rightarrow> bool" where
  "consistent_comparator cmp xs =
     (list_all (\<lambda>a. cmp a a = 0) xs
      \<and> list_all (\<lambda>a. list_all (\<lambda>b. cmp a b = 0 \<longrightarrow> cmp b a = 0) xs) xs
      \<and> list_all (\<lambda>a. list_all (\<lambda>b. list_all (\<lambda>c.
            (cmp a b = 0 \<and> cmp b c = 0 \<longrightarrow> cmp a c = 0)
          \<and> (cmp a b < 0 \<and> cmp b c < 0 \<longrightarrow> cmp a c < 0)
          \<and> (0 < cmp a b \<and> 0 < cmp b c \<longrightarrow> 0 < cmp a c)) xs) xs) xs)"

type_synonym 'a sort_engine = "('a \<Rightarrow> 'a \<Rightarrow> int) \<Rightarrow> 'a list \<Rightarrow> 'a list"

definition js_sort :: "'a sort_engine \<Rightarrow> ('a \<Rightarrow> 'a \<Rightarrow> int) \<Rightarrow> 'a list \<Rightarrow> 'a list" where
  "js_sort engine cmp xs =
     (if consistent_comparator cmp xs then insertion_sort cmp xs
      else (let ys = engine cmp xs in if mset ys = mset xs then ys else xs))"

definition filteredAndSortedPolicies ::
  "policy sort_engine \<Rightarrow> js_env \<Rightarrow> policy_filters \<Rightarrow> string \<Rightarrow> string \<Rightarrow> policy list
     \<Rightarrow> policy list" where
  "filteredAndSortedPolicies engine env f sortColumn sortDirection policies =
     js_sort engine (compare_policies env sortColumn sortDirection)
       (filter (policy_matches env f) policies)"

subsection \<open>Selecting a sort column\<close>

record sort_state =
  sortColumn :: string
  sortDirection :: string

definition handleSort :: "sort_state \<Rightarrow> string \<Rightarrow> sort_state" where
  "handleSort st column =
     (if sortColumn st = column
      then st\<lparr>sortDirection := (if sortDirection st = ''asc'' then ''desc'' else ''asc'')\<rparr>
      else st\<lparr>sortColumn := column, sortDirection := ''asc''\<rparr>)"

subsection \<open>Notions used to state the sorting properties\<close>

text \<open>The direction after a toggle.\<close>

definition toggled :: "string \<Rightarrow> string" where
  "toggled dir = (if dir = ''asc'' then ''desc'' else ''asc'')"

text \<open>
  Sort values that the relational operator orders totally: all of them strings, or all
  of them numbers other than NaN, and no two of them equal.
\<close>

fun is_string_val :: "jsval \<Rightarrow> bool" where
  "is_string_val (JStr s) = True"
| "is_string_val v = False"

fun is_proper_number :: "jsval \<Rightarrow> bool" where
  "is_proper_number (JNum n) = (n \<noteq> NaN)"
| "is_proper_number v = False"

definition keys_totally_ordered :: "jsval list \<Rightarrow> bool" where
  "keys_totally_ordered vs =
     ((list_all is_string_val vs \<or> list_all is_proper_number vs) \<and> distinct vs)"

text \<open>
  For a date column: the policy lacks the key (the truthiness test of the comparator
  fails); the time the key holds, which is the time of the store timestamp for
  \<^verbatim>\<open>createdAt\<close> and the time the date text stands for otherwise; and the key holds a
  positive time.
\<close>

definition is_date_column :: "string \<Rightarrow> bool" where
  "is_date_column col = (col = ''createdAt'' \<or> col = ''policyDate'' \<or> col = ''validUntil'')"

definition date_field_absent :: "string \<Rightarrow> policy \<Rightarrow> bool" where
  "date_field_absent col a =
     (if col = ''createdAt'' then createdAt a = None
      else \<not> str_truthy (if col = ''policyDate'' then policyDate a else validUntil a))"

definition key_time :: "js_env \<Rightarrow> string \<Rightarrow> policy \<Rightarrow> jsdate" where
  "key_time env col a =
     (if col = ''createdAt'' then createdAt a
      else
        (case (if col = ''policyDate'' then policyDate a else validUntil a) of
           None \<Rightarrow> None
         | Some s \<Rightarrow> new_Date env s))"

definition has_positive_time :: "js_env \<Rightarrow> string \<Rightarrow> policy \<Rightarrow> bool" where
  "has_positive_time env col a =
     (if date_field_absent col a then False
      else (case key_time env col a of None \<Rightarrow> False | Some t \<Rightarrow> 0 < t))"

text \<open>The two date columns that hold a date text, and a list in which every such text
  that is present is a date.\<close>

definition is_text_date_column :: "string \<Rightarrow> bool" where
  "is_text_date_column col = (col = ''policyDate'' \<or> col = ''validUntil'')"

definition all_dates_valid :: "js_env \<Rightarrow> string \<Rightarrow> policy list \<Rightarrow> bool" where
  "all_dates_valid env col ps =
     list_all (\<lambda>a. if date_field_absent col a then True else key_time env col a \<noteq> None) ps"

text \<open>The columns whose headers call \<^verbatim>\<open>handleSort\<close>.\<close>

definition sortable_columns :: "string list" where
  "sortable_columns =
     [''policyNumber'', ''customer'', ''policyType'', ''totalAmount'', ''policyDate'',
      ''validUntil'']"

section \<open>Financial report\<close>

text \<open>A ledger entry (a payment or an expense), optionally linked to a policy.\<close>

record ledger_entry =
  entry_id :: string
  entry_type :: string
  entry_date :: "string option"
  amount :: jsval
  reason :: string
  policyId :: "string option"
  entry_createdAt :: "int option"

text \<open>\<^verbatim>\<open>new Date(item.date)\<close> for a field that may be undefined.\<close>

definition new_Date_opt :: "js_env \<Rightarrow> string option \<Rightarrow> jsdate" where
  "new_Date_opt env v = (case v of None \<Rightarrow> None | Some s \<Rightarrow> new_Date env s)"

text \<open>
  The effect that recomputes the two filtered lists whenever the dates or the
  collections change. \<^verbatim>\<open>createdAt?.toDate()\<close> is the date of the store timestamp, or
  undefined when the document has none.
\<close>

definition filteredPoliciesReport :: "js_env \<Rightarrow> string \<Rightarrow> string \<Rightarrow> policy list \<Rightarrow> policy list" where
  "filteredPoliciesReport env startDate endDate policies =
     (if startDate \<noteq> [] \<and> endDate \<noteq> [] then
        (let start = setHours_start env (new_Date env startDate);
             end = setHours_end env (new_Date env endDate)
         in filter (\<lambda>policy.
                      let policyCreatedAt = createdAt policy
                      in case policyCreatedAt of
                           None \<Rightarrow> False
                         | Some t \<Rightarrow> date_le start (Some t) \<and> date_le (Some t) end)
              policies)
      else policies)"

definition filteredPaymentsExpenses ::
  "js_env \<Rightarrow> string \<Rightarrow> string \<Rightarrow> ledger_entry list \<Rightarrow> ledger_entry list" where
  "filteredPaymentsExpenses env startDate endDate paymentsExpenses =
     (if startDate \<noteq> [] \<and> endDate \<noteq> [] then
        (let start = setHours_start env (new_Date env startDate);
             end = setHours_end env (new_Date env endDate)
         in filter (\<lambda>item.
                      let itemDate = (case entry_createdAt item of
                                        Some t \<Rightarrow> Some t
                                      | None \<Rightarrow> new_Date_opt env (entry_date item))
                      in date_le start itemDate \<and> date_le itemDate end)
              paymentsExpenses)
      else paymentsExpenses)"

record financial_report =
  totalIncome :: number
  reportTotalCommission :: number
  totalExpenses :: number
  commissionNotPaidToInsurer :: number
  totalUnpaidToInsurer :: number
  amountDueToInsurer :: number

text \<open>The totals, computed from the filtered lists once the effect has run.\<close>

definition FinancialReports ::
  "js_env \<Rightarrow> string \<Rightarrow> string \<Rightarrow> policy list \<Rightarrow> ledger_entry list \<Rightarrow> financial_report" where
  "FinancialReports env startDate endDate policies paymentsExpenses =
     (let fp = filteredPoliciesReport env startDate endDate policies;
          fe = filteredPaymentsExpenses env startDate endDate paymentsExpenses;
          income = foldl (\<lambda>acc policy. nadd acc (or_zero (parseFloat (totalAmount policy)))) (Fin 0) fp;
          commissions = foldl (\<lambda>acc policy. nadd acc (or_zero (parseFloat (commission policy)))) (Fin 0) fp;
          expenses = foldl (\<lambda>acc item. nadd acc (or_zero (parseFloat (amount item)))) (Fin 0)
                       (filter (\<lambda>item. entry_type item = ''Expense'') fe);
          notPaid = foldl (\<lambda>acc policy.
                             nadd acc (if paidToInsurer policy then Fin 0
                                       else or_zero (parseFloat (commission policy)))) (Fin 0) fp;
          unpaid = foldl (\<lambda>acc policy.
                            nadd acc (if paidToInsurer policy then Fin 0
                                      else or_zero (parseFloat (totalAmount policy)))) (Fin 0) fp
      in \<lparr> totalIncome = income, reportTotalCommission = commissions, totalExpenses = expenses,
           commissionNotPaidToInsurer = notPaid, totalUnpaidToInsurer = unpaid,
           amountDueToInsurer = nsub unpaid notPaid \<rparr>)"

subsection \<open>What the specification says about the report\<close>

text \<open>A range is supplied when both dates are given.\<close>

definition range_supplied :: "string \<Rightarrow> string \<Rightarrow> bool" where
  "range_supplied startDate endDate = (startDate \<noteq> [] \<and> endDate \<noteq> [])"

text \<open>
  The local calendar day of the timestamp the window test looks at: the creation time of
  a policy; the creation time of a ledger entry, or the day of its own date when it has
  no creation time.
\<close>

definition policy_day :: "js_env \<Rightarrow> policy \<Rightarrow> int option" where
  "policy_day env p = map_option (local_day env) (createdAt p)"

definition entry_day :: "js_env \<Rightarrow> ledger_entry \<Rightarrow> int option" where
  "entry_day env e =
     (case entry_createdAt e of
        Some t \<Rightarrow> Some (local_day env t)
      | None \<Rightarrow> (case entry_date e of None \<Rightarrow> None | Some s \<Rightarrow> text_day env s))"

text \<open>
  The window runs from the first moment (00:00:00.000) of the day the start date stands
  for to the last moment (23:59:59.999) of the day the end date stands for, in local
  time. A timestamp lies in it exactly when its local day is neither before the first
  day nor after the last (lemma \<open>window_moments\<close> below).
\<close>

definition in_window :: "js_env \<Rightarrow> string \<Rightarrow> string \<Rightarrow> int option \<Rightarrow> bool" where
  "in_window env startDate endDate day =
     (case day of
        None \<Rightarrow> False
      | Some d \<Rightarrow>
          (case text_day env startDate of
             None \<Rightarrow> False
           | Some a \<Rightarrow>
               (case text_day env endDate of
                  None \<Rightarrow> False
                | Some b \<Rightarrow> a \<le> d \<and> d \<le> b)))"

definition spec_report_policies :: "js_env \<Rightarrow> string \<Rightarrow> string \<Rightarrow> policy list \<Rightarrow> policy list" where
  "spec_report_policies env startDate endDate ps =
     (if range_supplied startDate endDate
      then filter (\<lambda>p. in_window env startDate endDate (policy_day env p)) ps
      else ps)"

definition spec_report_entries ::
  "js_env \<Rightarrow> string \<Rightarrow> string \<Rightarrow> ledger_entry list \<Rightarrow> ledger_entry list" where
  "spec_report_entries env startDate endDate es =
     (if range_supplied startDate endDate
      then filter (\<lambda>e. in_window env startDate endDate (entry_day env e)) es
      else es)"

section \<open>Customer deriver\<close>

text \<open>
  The customer view folds the policies into a plain object keyed by the customer's ID
  number. A plain object is its own properties, in insertion order, on top of the
  properties it inherits from \<^verbatim>\<open>Object.prototype\<close>: reading \<^verbatim>\<open>acc[k]\<close> finds an own
  property, else an inherited one (a function or the prototype object itself, all
  truthy and none of them a customer row), else undefined.
\<close>

record policy_ref =
  ref_id :: string
  ref_policyNumber :: string
  ref_policyType :: string
  ref_totalAmount :: jsval
  ref_policyDate :: "string option"

record customer_row = customer +
  policiesCount :: nat
  rowTotalPolicyValue :: number
  associatedPolicies :: "policy_ref list"

datatype js_error = TypeError

datatype 'a property = OwnProperty 'a | InheritedProperty | NoProperty

definition object_prototype_keys :: "string list" where
  "object_prototype_keys =
     [''constructor'', ''__defineGetter__'', ''__defineSetter__'', ''hasOwnProperty'',
      ''__lookupGetter__'', ''__lookupSetter__'', ''isPrototypeOf'', ''propertyIsEnumerable'',
      ''toString'', ''valueOf'', ''__proto__'', ''toLocaleString'']"

type_synonym customer_object = "(string \<times> customer_row) list"

definition get_property :: "customer_object \<Rightarrow> string \<Rightarrow> customer_row property" where
  "get_property acc k =
     (case map_of acc k of
        Some r \<Rightarrow> OwnProperty r
      | None \<Rightarrow> if k \<in> set object_prototype_keys then InheritedProperty else NoProperty)"

text \<open>Assignment to an own property: in place when the key exists, appended otherwise.\<close>

definition set_property :: "customer_object \<Rightarrow> string \<Rightarrow> customer_row \<Rightarrow> customer_object" where
  "set_property acc k r =
     (if k \<in> set (map fst acc) then map (\<lambda>kv. if fst kv = k then (k, r) else kv) acc
      else acc @ [(k, r)])"

definition new_customer_row :: "customer \<Rightarrow> customer_row" where
  "new_customer_row c =
     \<lparr> firstName = firstName c, lastName = lastName c, phoneNumber = phoneNumber c,
       idNumber = idNumber c, address = address c, city = city c, postalCode = postalCode c,
       policiesCount = 0, rowTotalPolicyValue = Fin 0, associatedPolicies = [] \<rparr>"

definition policy_ref_of :: "policy \<Rightarrow> policy_ref" where
  "policy_ref_of policy =
     \<lparr> ref_id = policy_id policy, ref_policyNumber = policyNumber policy,
       ref_policyType = policyType policy, ref_totalAmount = totalAmount policy,
       ref_policyDate = policyDate policy \<rparr>"

text \<open>The three statements that count a policy into the row of its customer.\<close>

definition add_policy_to_row :: "policy \<Rightarrow> customer_row \<Rightarrow> customer_row" where
  "add_policy_to_row policy r =
     r\<lparr> policiesCount := policiesCount r + 1,
        rowTotalPolicyValue := nadd (rowTotalPolicyValue r) (or_zero (parseFloat (totalAmount policy))),
        associatedPolicies := associatedPolicies r @ [policy_ref_of policy] \<rparr>"

text \<open>
  The callback of the reduce. When \<^verbatim>\<open>acc[k]\<close> is an inherited property the
  initialisation is skipped, the two arithmetic updates write properties of the
  inherited object, and \<^verbatim>\<open>.associatedPolicies.push\<close> raises a TypeError, which nothing
  catches.
\<close>

definition customer_reducer :: "customer_object \<Rightarrow> policy \<Rightarrow> js_error + customer_object" where
  "customer_reducer acc policy =
     (case customer policy of
        None \<Rightarrow> Inr acc
      | Some c \<Rightarrow>
          if str_truthy (idNumber c) then
            (let k = the (idNumber c);
                 acc1 = (case get_property acc k of
                           NoProperty \<Rightarrow> set_property acc k (new_customer_row c)
                         | OwnProperty r \<Rightarrow> acc
                         | InheritedProperty \<Rightarrow> acc)
             in case get_property acc1 k of
                  OwnProperty r \<Rightarrow> Inr (set_property acc1 k (add_policy_to_row policy r))
                | InheritedProperty \<Rightarrow> Inl TypeError
                | NoProperty \<Rightarrow> Inl TypeError)
          else Inr acc)"

fun reduce_policies :: "customer_object \<Rightarrow> policy list \<Rightarrow> js_error + customer_object" where
  "reduce_policies acc [] = Inr acc"
| "reduce_policies acc (policy # rest) =
     (case customer_reducer acc policy of
        Inl e \<Rightarrow> Inl e
      | Inr acc' \<Rightarrow> reduce_policies acc' rest)"

definition uniqueCustomers :: "policy list \<Rightarrow> js_error + customer_object" where
  "uniqueCustomers policies = reduce_policies [] policies"

text \<open>
  \<^verbatim>\<open>Object.values\<close>: the values of the keys that are array indices (canonical decimal
  numerals below \<open>2^32 - 1\<close>) in ascending numeric order, then the values of the other
  keys in insertion order.
\<close>

definition is_array_index :: "string \<Rightarrow> bool" where
  "is_array_index k =
     (k \<noteq> [] \<and> list_all is_digit k \<and> (k = ''0'' \<or> hd k \<noteq> CHR ''0'')
      \<and> digits_val k < 4294967295)"

definition Object_values :: "(string \<times> 'a) list \<Rightarrow> 'a list" where
  "Object_values acc =
     map snd (sort_key (\<lambda>kv. digits_val (fst kv)) (filter (\<lambda>kv. is_array_index (fst kv)) acc))
     @ map snd (filter (\<lambda>kv. \<not> is_array_index (fst kv)) acc)"

definition customersList :: "policy list \<Rightarrow> js_error + customer_row list" where
  "customersList policies =
     (case uniqueCustomers policies of Inl e \<Rightarrow> Inl e | Inr acc \<Rightarrow> Inr (Object_values acc))"

subsection \<open>What the specification says about the derived rows\<close>

text \<open>The non-empty ID number a policy carries, if any.\<close>

definition customer_id :: "policy \<Rightarrow> string option" where
  "customer_id p =
     (case customer p of
        None \<Rightarrow> None
      | Some c \<Rightarrow> if str_truthy (idNumber c) then idNumber c else None)"

definition policies_of :: "string \<Rightarrow> policy list \<Rightarrow> policy list" where
  "policies_of k P = filter (\<lambda>p. customer_id p = Some k) P"

text \<open>The distinct elements of a list, in the order of their first occurrence.\<close>

definition first_occurrences :: "'a list \<Rightarrow> 'a list" where
  "first_occurrences xs = rev (remdups (rev xs))"

definition customer_ids :: "policy list \<Rightarrow> string list" where
  "customer_ids P = first_occurrences (List.map_filter customer_id P)"

text \<open>
  The row the specification describes for an ID number: the identity of the first
  policy with that number, the number of such policies, the sum of their amounts, and a
  reference to each of them.
\<close>

definition spec_row :: "string \<Rightarrow> policy list \<Rightarrow> customer_row" where
  "spec_row k P =
     (let qs = policies_of k P; c = the (customer (hd qs))
      in \<lparr> firstName = firstName c, lastName = lastName c, phoneNumber = phoneNumber c,
           idNumber = idNumber c, address = address c, city = city c,
           postalCode = postalCode c,
           policiesCount = length qs,
           rowTotalPolicyValue = nsum (map (\<lambda>p. numeric_or_zero (totalAmount p)) qs),
           associatedPolicies = map policy_ref_of qs \<rparr>)"

definition no_prototype_ids :: "policy list \<Rightarrow> bool" where
  "no_prototype_ids P =
     list_all (\<lambda>p. case customer_id p of
                      None \<Rightarrow> True
                    | Some k \<Rightarrow> k \<notin> set object_prototype_keys) P"

text \<open>The accumulator the specification describes: one row per ID number, in the order in
  which the numbers first occur.\<close>

definition spec_object :: "policy list \<Rightarrow> customer_object" where
  "spec_object P = map (\<lambda>k. (k, spec_row k P)) (customer_ids P)"


section \<open>Mutation gateway\<close>

text \<open>
  The handlers talk to the document store through requests. The store is outside the
  repository: a request either succeeds or is rejected with an error message, which the
  handlers catch. A store is modelled by the function that tells, for each request,
  whether it is rejected.
\<close>

record session =
  db :: bool
  userId :: "string option"

text \<open>
  The document written by \<^verbatim>\<open>addDoc\<close> and \<^verbatim>\<open>updateDoc\<close>. The last field tells whether
  the document asks the store for a creation timestamp (\<^verbatim>\<open>serverTimestamp()\<close>).
\<close>

record policy_payload =
  pl_policyType :: string
  pl_policyDate :: "string option"
  pl_validUntil :: "string option"
  pl_totalAmount :: number
  pl_commission :: number
  pl_policyNumber :: string
  pl_vehicleNumber :: string
  pl_insuranceType :: string
  pl_paidByCustomer :: bool
  pl_paidToInsurer :: bool
  pl_customer :: customer
  pl_createdAt :: bool

datatype store_request =
    AddPolicyDoc policy_payload
  | UpdatePolicyDoc string policy_payload
  | DeletePolicyDoc string
  | DeleteEntryDoc string

type_synonym store = "store_request \<Rightarrow> string option"

record outcome =
  requests :: "store_request list"
  modalMessage :: "string option"

subsection \<open>Adding a policy\<close>

text \<open>The state of the Add Policy form: the text of every input, and the two check boxes.\<close>

record policy_form =
  form_policyType :: string
  form_policyDate :: string
  form_validUntil :: string
  form_totalAmount :: string
  form_commission :: string
  form_policyNumber :: string
  form_vehicleNumber :: string
  form_insuranceType :: string
  form_paidByCustomer :: bool
  form_paidToInsurer :: bool
  form_firstName :: string
  form_lastName :: string
  form_phoneNumber :: string
  form_idNumber :: string
  form_address :: string
  form_city :: string
  form_postalCode :: string

definition msg_not_authenticated :: string where
  "msg_not_authenticated = ''Error: Database not ready or user not authenticated. Please log in.''"

definition msg_required_fields :: string where
  "msg_required_fields =
     ''Please fill in all required fields: Policy Number, Total Amount, Policy Date, Valid Until, Customer First Name, Customer Last Name.''"

definition add_payload :: "policy_form \<Rightarrow> policy_payload" where
  "add_payload f =
     \<lparr> pl_policyType = form_policyType f,
       pl_policyDate = Some (form_policyDate f),
       pl_validUntil = Some (form_validUntil f),
       pl_totalAmount = parseFloat (JStr (form_totalAmount f)),
       pl_commission = or_zero (parseFloat (JStr (form_commission f))),
       pl_policyNumber = form_policyNumber f,
       pl_vehicleNumber = form_vehicleNumber f,
       pl_insuranceType = form_insuranceType f,
       pl_paidByCustomer = form_paidByCustomer f,
       pl_paidToInsurer = form_paidToInsurer f,
       pl_customer =
         \<lparr> firstName = Some (form_firstName f), lastName = Some (form_lastName f),
           phoneNumber = Some (form_phoneNumber f), idNumber = Some (form_idNumber f),
           address = Some (form_address f), city = Some (form_city f),
           postalCode = Some (form_postalCode f) \<rparr>,
       pl_createdAt = True \<rparr>"

definition handleAddPolicy :: "session \<Rightarrow> store \<Rightarrow> policy_form \<Rightarrow> outcome" where
  "handleAddPolicy s store f =
     (if \<not> db s \<or> \<not> str_truthy (userId s) then
        \<lparr> requests = [], modalMessage = Some msg_not_authenticated \<rparr>
      else if form_policyNumber f = [] \<or> form_totalAmount f = [] \<or> form_policyDate f = []
              \<or> form_validUntil f = [] \<or> form_firstName f = [] \<or> form_lastName f = [] then
        \<lparr> requests = [], modalMessage = Some msg_required_fields \<rparr>
      else
        (case store (AddPolicyDoc (add_payload f)) of
           None \<Rightarrow>
             \<lparr> requests = [AddPolicyDoc (add_payload f)],
               modalMessage = Some ''Policy added successfully!'' \<rparr>
         | Some err \<Rightarrow>
             \<lparr> requests = [AddPolicyDoc (add_payload f)],
               modalMessage = Some (''Error adding policy: '' @ err) \<rparr>))"

subsection \<open>Updating a policy\<close>

text \<open>
  The edited policy is a policy document whose fields hold what the edit form left in
  them. Reading a name of a missing customer object raises a TypeError, which the
  handler catches like a store error.
\<close>

definition msg_no_policy_id :: string where
  "msg_no_policy_id = ''Error: Database not ready or policy ID missing.''"

definition msg_type_error :: string where
  "msg_type_error = ''Cannot read properties of undefined''"

definition update_payload :: "policy \<Rightarrow> customer \<Rightarrow> policy_payload" where
  "update_payload updatedPolicy c =
     \<lparr> pl_policyType = policyType updatedPolicy,
       pl_policyDate = policyDate updatedPolicy,
       pl_validUntil = validUntil updatedPolicy,
       pl_totalAmount = parseFloat (totalAmount updatedPolicy),
       pl_commission = or_zero (parseFloat (commission updatedPolicy)),
       pl_policyNumber = policyNumber updatedPolicy,
       pl_vehicleNumber = vehicleNumber updatedPolicy,
       pl_insuranceType = insuranceType updatedPolicy,
       pl_paidByCustomer = paidByCustomer updatedPolicy,
       pl_paidToInsurer = paidToInsurer updatedPolicy,
       pl_customer =
         \<lparr> firstName = firstName c, lastName = lastName c, phoneNumber = phoneNumber c,
           idNumber = idNumber c, address = address c, city = city c,
           postalCode = postalCode c \<rparr>,
       pl_createdAt = False \<rparr>"

definition handleUpdatePolicy :: "session \<Rightarrow> store \<Rightarrow> policy \<Rightarrow> outcome" where
  "handleUpdatePolicy s store updatedPolicy =
     (if \<not> db s \<or> \<not> str_truthy (userId s) \<or> policy_id updatedPolicy = [] then
        \<lparr> requests = [], modalMessage = Some msg_no_policy_id \<rparr>
      else
        (case customer updatedPolicy of
           None \<Rightarrow>
             \<lparr> requests = [], modalMessage = Some (''Error updating policy: '' @ msg_type_error) \<rparr>
         | Some c \<Rightarrow>
             (case store (UpdatePolicyDoc (policy_id updatedPolicy) (update_payload updatedPolicy c)) of
                None \<Rightarrow>
                  \<lparr> requests = [UpdatePolicyDoc (policy_id updatedPolicy)
                                  (update_payload updatedPolicy c)],
                    modalMessage = Some ''Policy updated successfully!'' \<rparr>
              | Some err \<Rightarrow>
                  \<lparr> requests = [UpdatePolicyDoc (policy_id updatedPolicy)
                                  (update_payload updatedPolicy c)],
                    modalMessage = Some (''Error updating policy: '' @ err) \<rparr>)))"

subsection \<open>Deleting a policy\<close>

text \<open>
  The two collections as the store holds them. Deleting a document removes the document
  with that identifier.
\<close>

record store_data =
  stored_policies :: "policy list"
  stored_entries :: "ledger_entry list"

definition delete_policy_doc :: "string \<Rightarrow> store_data \<Rightarrow> store_data" where
  "delete_policy_doc i d = d\<lparr>stored_policies := filter (\<lambda>p. policy_id p \<noteq> i) (stored_policies d)\<rparr>"

definition delete_entry_doc :: "string \<Rightarrow> store_data \<Rightarrow> store_data" where
  "delete_entry_doc i d =
     d\<lparr>stored_entries := filter (\<lambda>e. entry_id e \<noteq> i) (stored_entries d)\<rparr>"

text \<open>One \<^verbatim>\<open>deleteDoc\<close> of a ledger entry: carried out unless the store rejects it.\<close>

definition try_delete_entry :: "store \<Rightarrow> store_data \<Rightarrow> string \<Rightarrow> store_data" where
  "try_delete_entry store d i =
     (case store (DeleteEntryDoc i) of None \<Rightarrow> delete_entry_doc i d | Some err \<Rightarrow> d)"

record delete_outcome =
  d_requests :: "store_request list"
  d_message :: "string option"
  d_data :: store_data

definition msg_delete_not_authenticated :: string where
  "msg_delete_not_authenticated = ''Error: Database not ready or user not authenticated.''"

text \<open>
  \<open>confirmed\<close> is the answer to the confirmation dialog. \<open>paymentsExpenses\<close> is the state of
  the application of that name: the ledger entries of the snapshot that the listener
  delivered last, which need not be the entries the store holds at this moment. The
  handler takes the entries to delete from it. \<open>d\<close> is the content of the store, on which
  the deletes act. The deletes of the related entries are all issued before any of them
  is awaited; \<^verbatim>\<open>Promise.all\<close> reports the first rejection.
\<close>

definition handleDeletePolicy ::
  "session \<Rightarrow> store \<Rightarrow> bool \<Rightarrow> ledger_entry list \<Rightarrow> store_data \<Rightarrow> string \<Rightarrow> delete_outcome" where
  "handleDeletePolicy s store confirmed paymentsExpenses d pid =
     (if \<not> db s \<or> \<not> str_truthy (userId s) then
        \<lparr> d_requests = [], d_message = Some msg_delete_not_authenticated, d_data = d \<rparr>
      else if confirmed then
        (case store (DeletePolicyDoc pid) of
           Some err \<Rightarrow>
             \<lparr> d_requests = [DeletePolicyDoc pid],
               d_message = Some (''Error deleting policy: '' @ err), d_data = d \<rparr>
         | None \<Rightarrow>
             (let relatedPaymentsExpenses =
                    filter (\<lambda>item. policyId item = Some pid) paymentsExpenses;
                  ids = map entry_id relatedPaymentsExpenses;
                  rejections = List.map_filter (\<lambda>i. store (DeleteEntryDoc i)) ids
              in \<lparr> d_requests = DeletePolicyDoc pid # map DeleteEntryDoc ids,
                   d_message =
                     (case rejections of
                        [] \<Rightarrow> Some ''Policy and associated items deleted successfully!''
                      | err # others \<Rightarrow> Some (''Error deleting policy: '' @ err)),
                   d_data = foldl (try_delete_entry store) (delete_policy_doc pid d) ids \<rparr>))
      else \<lparr> d_requests = [], d_message = None, d_data = d \<rparr>)"

subsection \<open>Notions used to state the gateway properties\<close>

text \<open>
  The handlers are reached through the forms and the policy table, which the page draws
  only for a signed-in user; the listener that records the user records the user
  identifier with it. In such a session the guard at the head of each handler passes.
\<close>

definition session_ready :: "session \<Rightarrow> bool" where
  "session_ready s = (db s \<and> str_truthy (userId s))"

definition required_field_empty :: "policy_form \<Rightarrow> bool" where
  "required_field_empty f =
     (form_policyNumber f = [] \<or> form_totalAmount f = [] \<or> form_policyDate f = []
      \<or> form_validUntil f = [] \<or> form_firstName f = [] \<or> form_lastName f = [])"

text \<open>A text starts (after white space) with a decimal literal.\<close>

definition has_numeric_prefix :: "string \<Rightarrow> bool" where
  "has_numeric_prefix t = (str_decimal (dropWhile is_ws t) \<noteq> None)"

text \<open>
  The total amount is typed into an input of type number, in both forms. The value of
  such an input, as the application reads it, is the empty text or a valid
  floating-point number: an optional minus sign, then digits, or digits followed by a
  fraction, or a fraction alone, and then an optional exponent. Whatever else is typed
  the browser turns into the empty text.
\<close>

definition float_mantissa_ok :: "string \<Rightarrow> bool" where
  "float_mantissa_ok body =
     (if dropWhile is_digit body \<noteq> [] \<and> hd (dropWhile is_digit body) = CHR ''.''
      then takeWhile is_digit (tl (dropWhile is_digit body)) \<noteq> []
      else takeWhile is_digit body \<noteq> [])"

definition after_mantissa :: "string \<Rightarrow> string" where
  "after_mantissa body =
     (let r1 = dropWhile is_digit body
      in if r1 \<noteq> [] \<and> hd r1 = CHR ''.'' then dropWhile is_digit (tl r1) else r1)"

definition float_exponent_ok :: "string \<Rightarrow> bool" where
  "float_exponent_ok r =
     (r = [] \<or>
      ((hd r = CHR ''e'' \<or> hd r = CHR ''E'') \<and>
       (let r3 = tl r;
            r4 = (if r3 \<noteq> [] \<and> (hd r3 = CHR ''-'' \<or> hd r3 = CHR ''+'') then tl r3 else r3)
        in r4 \<noteq> [] \<and> list_all is_digit r4)))"

definition valid_float_text :: "string \<Rightarrow> bool" where
  "valid_float_text s =
     (let body = (if s \<noteq> [] \<and> hd s = CHR ''-'' then tl s else s)
      in float_mantissa_ok body \<and> float_exponent_ok (after_mantissa body))"

definition number_input_value :: "string \<Rightarrow> bool" where
  "number_input_value s = (s = [] \<or> valid_float_text s)"

text \<open>
  The total amount that the edit form hands over: the Number of the stored policy while
  the field is untouched, the text of the number input once it has been edited. The
  input is required, so the browser does not submit the form while it is empty.
\<close>

fun edit_form_amount :: "jsval \<Rightarrow> bool" where
  "edit_form_amount (JNum n) = (n \<noteq> NaN)"
| "edit_form_amount (JStr s) = valid_float_text s"
| "edit_form_amount v = False"

definition all_accepted :: "store \<Rightarrow> store_request list \<Rightarrow> bool" where
  "all_accepted store rs = list_all (\<lambda>r. store r = None) rs"

text \<open>
  The snapshot and the store. Ledger entries are never edited and their identifiers are
  given by the store, so an entry of the snapshot that is still in the store is the same
  entry there: it has the same link. The snapshot covers a policy when every stored
  entry linked to the policy is in the snapshot.
\<close>

definition snapshot_agrees :: "ledger_entry list \<Rightarrow> store_data \<Rightarrow> bool" where
  "snapshot_agrees paymentsExpenses d =
     list_all (\<lambda>e'. list_all (\<lambda>e. entry_id e = entry_id e' \<longrightarrow> policyId e = policyId e')
                       paymentsExpenses)
       (stored_entries d)"

definition snapshot_covers :: "ledger_entry list \<Rightarrow> store_data \<Rightarrow> string \<Rightarrow> bool" where
  "snapshot_covers paymentsExpenses d pid =
     list_all (\<lambda>e'. policyId e' = Some pid \<longrightarrow> entry_id e' \<in> set (map entry_id paymentsExpenses))
       (stored_entries d)"

section \<open>Example data\<close>

text \<open>
  Two concrete environments for the examples. In both, only the date-only form that a
  date input delivers parses, and a store timestamp object does not convert to a date.
  In the first the clock is at 2024-06-15 12:00 UTC and the zone is three hours east of
  UTC; in the second the clock is at 2024-06-15 17:00 UTC and the zone is five hours west
  of UTC, where it is noon of the same day.
\<close>

definition no_other_date :: "string \<Rightarrow> int option" where
  "no_other_date s = None"

definition no_date_of_timestamp :: "int \<Rightarrow> int option" where
  "no_date_of_timestamp t = None"

definition example_env :: js_env where
  "example_env =
     \<lparr> now = 1718452800000, tz_offset = 10800000, date_parse = no_other_date,
       date_of_timestamp = no_date_of_timestamp \<rparr>"

definition west_env :: js_env where
  "west_env =
     \<lparr> now = 1718470800000, tz_offset = - 18000000, date_parse = no_other_date,
       date_of_timestamp = no_date_of_timestamp \<rparr>"

text \<open>In the examples the comparators are consistent, so the engine is never asked; it
  is taken to leave the array as it is.\<close>

definition example_engine :: "policy sort_engine" where
  "example_engine cmp xs = xs"

definition example_policy :: "string \<Rightarrow> string \<Rightarrow> string option \<Rightarrow> policy" where
  "example_policy i ty until =
     \<lparr> policy_id = i, policyType = ty, policyDate = Some ''2024-01-01'', validUntil = until,
       totalAmount = JNum (Fin 100), commission = JNum (Fin 10), policyNumber = ''PN-'' @ i,
       vehicleNumber = [], insuranceType = [], paidByCustomer = False, paidToInsurer = False,
       customer = None, createdAt = None \<rparr>"

definition no_filters :: policy_filters where
  "no_filters =
     \<lparr> filterPolicyType = [], filterCustomerName = [], filterPolicyNumber = [],
       filterPaidByCustomer = ''all'', filterPaidToInsurer = ''all'',
       filterValidUntilStartDate = [], filterValidUntilEndDate = [] \<rparr>"


definition signed_in :: session where
  "signed_in = \<lparr> db = True, userId = Some ''u1'' \<rparr>"

definition signed_out :: session where
  "signed_out = \<lparr> db = True, userId = None \<rparr>"

definition reliable_store :: store where
  "reliable_store r = None"

definition failing_store :: store where
  "failing_store r = Some ''unavailable''"

definition example_form :: "string \<Rightarrow> string \<Rightarrow> string \<Rightarrow> policy_form" where
  "example_form number amt comm =
     \<lparr> form_policyType = ''New Policy'', form_policyDate = ''2024-01-01'',
       form_validUntil = ''2025-01-01'', form_totalAmount = amt, form_commission = comm,
       form_policyNumber = number, form_vehicleNumber = [], form_insuranceType = [],
       form_paidByCustomer = False, form_paidToInsurer = False,
       form_firstName = ''Ana'', form_lastName = ''Ivanova'', form_phoneNumber = [],
       form_idNumber = ''A1'', form_address = [], form_city = [], form_postalCode = [] \<rparr>"

definition example_entry :: "string \<Rightarrow> string \<Rightarrow> real \<Rightarrow> string \<Rightarrow> string option \<Rightarrow> ledger_entry" where
  "example_entry i ty amt day linked =
     \<lparr> entry_id = i, entry_type = ty, entry_date = Some day, amount = JNum (Fin amt),
       reason = [], policyId = linked, entry_createdAt = None \<rparr>"

definition example_data :: store_data where
  "example_data =
     \<lparr> stored_policies = [example_policy ''1'' ''Toll'' None, example_policy ''2'' ''Sticker'' None],
       stored_entries =
         [example_entry ''e1'' ''Payment'' 60 ''2024-03-10'' (Some ''1''),
          example_entry ''e2'' ''Expense'' 40 ''2024-03-11'' None,
          example_entry ''e3'' ''Payment'' 25 ''2024-03-12'' (Some ''2'')] \<rparr>"

definition example_customer :: "string \<Rightarrow> customer" where
  "example_customer idn =
     \<lparr> firstName = Some ''Ana'', lastName = Some ''Ivanova'', phoneNumber = Some [],
       idNumber = Some idn, address = Some [], city = Some [], postalCode = Some [] \<rparr>"

definition edited_policy :: policy where
  "edited_policy =
     (example_policy ''1'' ''Toll'' None)
       \<lparr> customer := Some (example_customer ''A1''), totalAmount := JStr ''99'',
         commission := JUndefined \<rparr>"

definition entry_rejecting_store :: store where
  "entry_rejecting_store r =
     (case r of DeleteEntryDoc i \<Rightarrow> Some ''unavailable'' | other \<Rightarrow> None)"

definition customer_policy :: "string \<Rightarrow> string \<Rightarrow> real \<Rightarrow> policy" where
  "customer_policy i idn amt =
     (example_policy i ''Toll'' None)
       \<lparr> customer := Some (example_customer idn), totalAmount := JNum (Fin amt) \<rparr>"

section \<open>Properties of the numeric helpers\<close>

lemma nadd_commute: "nadd x y = nadd y x"
  by (cases x; cases y) simp_all

lemma nadd_assoc: "nadd (nadd x y) z = nadd x (nadd y z)"
  by (cases x; cases y; cases z) simp_all

lemma nadd_zero_left: "nadd (Fin 0) x = x"
  by (cases x) simp_all

lemma nadd_zero_right: "nadd x (Fin 0) = x"
  by (cases x) simp_all

lemma reduce_is_nsum: "foldl (\<lambda>acc x. nadd acc (f x)) (Fin 0) xs = nsum (map f xs)"
  by (simp add: nsum_def foldl_map)

lemma nsum_Nil: "nsum [] = Fin 0"
  by (simp add: nsum_def)

lemma nsum_snoc: "nsum (xs @ [x]) = nadd (nsum xs) x"
  by (simp add: nsum_def)

text \<open>With exact addition the order of summation does not matter.\<close>

lemma foldl_nadd_foldr: "foldl nadd a xs = nadd a (foldr nadd xs (Fin 0))"
proof (induction xs arbitrary: a)
  case Nil
  show ?case by (simp add: nadd_zero_right)
next
  case (Cons x xs)
  show ?case by (simp add: Cons.IH nadd_assoc)
qed

lemma nsum_foldr: "nsum xs = foldr nadd xs (Fin 0)"
  by (simp add: nsum_def foldl_nadd_foldr nadd_zero_left)

lemma or_zero_numeric: "or_zero (parseFloat v) = numeric_or_zero v"
  by (cases "parseFloat v") (simp_all add: or_zero_def numeric_or_zero_def)

lemma start_of_day_div:
  "t - ((t + z) mod ms_per_day) = ms_per_day * ((t + z) div ms_per_day) - z"
proof -
  have "(t + z) = ms_per_day * ((t + z) div ms_per_day) + (t + z) mod ms_per_day"
    by simp
  then show ?thesis by linarith
qed

lemma setHours_start_dateOnly: "setHours_start env d = dateOnly env d"
  by (cases d) (simp_all add: setHours_start_def dateOnly_def start_of_day_div)

lemma less_mult_iff_div_less:
  fixes a k q :: int
  assumes pos: "0 < k"
  shows "(a < k * q) = (a div k < q)"
proof
  have split: "k * (a div k) + a mod k = a" by simp
  have lo: "0 \<le> a mod k" using pos by simp
  assume lt: "a < k * q"
  show "a div k < q"
  proof (rule ccontr)
    assume "\<not> a div k < q"
    then have "q \<le> a div k" by simp
    then have "k * q \<le> k * (a div k)" using pos by (simp add: mult_left_mono)
    with split lo lt show False by linarith
  qed
next
  have split: "k * (a div k) + a mod k = a" by simp
  have hi: "a mod k < k" using pos by simp
  assume "a div k < q"
  then have "a div k + 1 \<le> q" by simp
  then have "k * (a div k + 1) \<le> k * q" using pos by (simp only: mult_left_mono less_imp_le)
  then have "k * (a div k) + k \<le> k * q" by (simp add: algebra_simps)
  with split hi show "a < k * q" by linarith
qed

lemma before_day_start:
  "(t < ms_per_day * ((n + z) div ms_per_day) - z)
     = (ms_per_day * ((t + z) div ms_per_day) - z < ms_per_day * ((n + z) div ms_per_day) - z)"
proof -
  have pos: "0 < ms_per_day" by (simp add: ms_per_day_def)
  let ?k = "(n + z) div ms_per_day"
  have "(t + z < ms_per_day * ?k) = ((t + z) div ms_per_day < ?k)"
    using pos by (rule less_mult_iff_div_less)
  also have "\<dots> = (ms_per_day * ((t + z) div ms_per_day) < ms_per_day * ?k)"
    using pos by simp
  finally show ?thesis by linarith
qed

text \<open>A time value lies before the start of a local day exactly when its own local day
  is an earlier one.\<close>

lemma before_start_local_day:
  "date_lt d (setHours_start env (Some n))
     = (case d of None \<Rightarrow> False | Some t \<Rightarrow> local_day env t < local_day env n)"
proof (cases d)
  case None
  then show ?thesis by (simp add: setHours_start_def)
next
  case (Some t)
  have pos: "0 < ms_per_day" by (simp add: ms_per_day_def)
  have "(t < ms_per_day * ((n + tz_offset env) div ms_per_day) - tz_offset env)
          = (t + tz_offset env < ms_per_day * ((n + tz_offset env) div ms_per_day))"
    by linarith
  also have "\<dots> = ((t + tz_offset env) div ms_per_day < (n + tz_offset env) div ms_per_day)"
    using pos by (rule less_mult_iff_div_less)
  finally show ?thesis
    using Some by (simp add: setHours_start_dateOnly dateOnly_def local_day_def)
qed

text \<open>At or east of UTC, midnight UTC of a calendar day falls in that same local day, so
  the day the code derives from a date text is the day the text stands for.\<close>

lemma utc_midnight_local_day:
  assumes "0 \<le> tz_offset env" and "tz_offset env < ms_per_day"
  shows "local_day env (d * ms_per_day) = d"
proof -
  have "(tz_offset env + d * ms_per_day) div ms_per_day = tz_offset env div ms_per_day + d"
    by (simp add: ms_per_day_def)
  moreover have "tz_offset env div ms_per_day = 0"
    using assms by (simp add: div_pos_pos_trivial)
  ultimately show ?thesis by (simp add: local_day_def add.commute)
qed

lemma new_Date_local_day:
  assumes "0 \<le> tz_offset env" and "tz_offset env < ms_per_day"
  shows "map_option (local_day env) (new_Date env s) = text_day env s"
proof (cases "iso_day s")
  case None
  then show ?thesis by (simp add: text_day_def)
next
  case (Some d)
  then have "s \<noteq> []" by (auto simp: iso_day_def)
  with Some show ?thesis
    using utc_midnight_local_day [OF assms, of d] by (simp add: text_day_def new_Date_def)
qed

lemma is_overdue_spec:
  assumes "0 \<le> tz_offset env" and "tz_offset env < ms_per_day"
  shows "is_overdue env p = spec_overdue env p"
proof (cases "validUntil p")
  case None
  then show ?thesis by (simp add: is_overdue_def spec_overdue_def)
next
  case (Some s)
  show ?thesis
  proof (cases "s = []")
    case True
    with Some show ?thesis
      by (simp add: is_overdue_def spec_overdue_def text_day_def new_Date_def iso_day_def)
  next
    case False
    have day: "map_option (local_day env) (new_Date env s) = text_day env s"
      using assms by (rule new_Date_local_day)
    show ?thesis
    proof (cases "new_Date env s")
      case None
      with day [symmetric] Some False show ?thesis
        by (simp add: is_overdue_def spec_overdue_def before_start_local_day)
    next
      case (Some t)
      with day [symmetric] \<open>validUntil p = Some s\<close> False show ?thesis
        by (simp add: is_overdue_def spec_overdue_def before_start_local_day)
    qed
  qed
qed

section \<open>Dashboard summary\<close>

text \<open>
  The counts and the two sums, for every list of policies, every clock and every zone: the
  dashboard reports the number of policies, the sum of their total amounts and the sum of
  their commissions (a value that does not parse as a number, or is missing, counts as
  0), and the numbers of policies flagged as paid by the customer and as paid to the
  insurer. The summary of the empty list is zero in every field. The summary is a total
  function of the list: no input makes it fail.
\<close>

theorem dashboard_counts_and_sums:
  "totalPolicies (Dashboard env P) = length P
   \<and> totalPolicyValue (Dashboard env P) = nsum (map (\<lambda>p. numeric_or_zero (totalAmount p)) P)
   \<and> totalCommission (Dashboard env P) = nsum (map (\<lambda>p. numeric_or_zero (commission p)) P)
   \<and> policiesPaidByCustomer (Dashboard env P) = length (filter (\<lambda>p. paidByCustomer p = True) P)
   \<and> policiesPaidToInsurer (Dashboard env P) = length (filter (\<lambda>p. paidToInsurer p = True) P)
   \<and> Dashboard env [] =
       \<lparr> totalPolicies = 0, totalPolicyValue = Fin 0, totalCommission = Fin 0,
         policiesPaidByCustomer = 0, policiesPaidToInsurer = 0, overduePolicies = 0 \<rparr>"
proof -
  have value_sum:
    "foldl (\<lambda>acc policy. nadd acc (or_zero (parseFloat (totalAmount policy)))) (Fin 0) P
       = nsum (map (\<lambda>p. numeric_or_zero (totalAmount p)) P)"
    by (simp add: reduce_is_nsum or_zero_numeric)
  have commission_sum:
    "foldl (\<lambda>acc policy. nadd acc (or_zero (parseFloat (commission policy)))) (Fin 0) P
       = nsum (map (\<lambda>p. numeric_or_zero (commission p)) P)"
    by (simp add: reduce_is_nsum or_zero_numeric)
  show ?thesis
    unfolding Dashboard_def
    by (simp add: value_sum commission_sum)
qed

text \<open>
  The overdue count in a zone at or east of UTC (and less than a day from it): it is the
  number of policies whose valid-until day is present and lies strictly before the
  current calendar day.
\<close>

theorem dashboard_overdue_east_of_utc:
  assumes "0 \<le> tz_offset env" and "tz_offset env < ms_per_day"
  shows "overduePolicies (Dashboard env P) = length (filter (spec_overdue env) P)"
proof -
  have "filter (is_overdue env) P = filter (spec_overdue env) P"
    by (rule filter_cong) (simp_all add: is_overdue_spec [OF assms])
  then show ?thesis by (simp add: Dashboard_def)
qed

text \<open>
  Claim C1. The dashboard is to count as overdue the policies whose valid-until date is
  present and, with the time of day stripped from both the policy date and the current
  day, lies strictly before the current calendar day. The code strips the time of day
  from the current day only, in local time, and compares it with the valid-until text
  parsed as midnight UTC. West of UTC that moment belongs to the evening before: at
  noon of 15 June 2024, five hours west of UTC, a policy valid until 15 June 2024 is not
  overdue (both days are day 19889), and the dashboard counts it as overdue.
\<close>

theorem dashboard_overdue_west_of_utc:
  "overduePolicies (Dashboard west_env [example_policy ''1'' ''Toll'' (Some ''2024-06-15'')]) = 1
   \<and> text_day west_env ''2024-06-15'' = Some 19889
   \<and> local_day west_env (now west_env) = 19889
   \<and> length (filter (spec_overdue west_env) [example_policy ''1'' ''Toll'' (Some ''2024-06-15'')]) = 0"
  by (simp add: Dashboard_def is_overdue_def spec_overdue_def text_day_def local_day_def
      new_Date_def setHours_start_def example_policy_def west_env_def iso_day_def
      days_in_month_def days_from_civil_def is_digit_def digits_val_def ms_per_day_def
      Let_def)

section \<open>Policy filter\<close>

text \<open>\<open>str_includes\<close> is the substring test.\<close>

lemma str_includes_iff: "str_includes s t = (\<exists>p q. s = p @ t @ q)"
proof (induction s)
  case Nil
  show ?case by auto
next
  case (Cons c s)
  show ?case
  proof
    assume "str_includes (c # s) t"
    then have "take (length t) (c # s) = t \<or> str_includes s t" by simp
    then show "\<exists>p q. c # s = p @ t @ q"
    proof
      assume "take (length t) (c # s) = t"
      then have "c # s = [] @ t @ drop (length t) (c # s)"
        by (metis append_Nil append_take_drop_id)
      then show ?thesis by blast
    next
      assume "str_includes s t"
      then obtain p q where "s = p @ t @ q" using Cons.IH by blast
      then have "c # s = (c # p) @ t @ q" by simp
      then show ?thesis by blast
    qed
  next
    assume "\<exists>p q. c # s = p @ t @ q"
    then obtain p q where pq: "c # s = p @ t @ q" by blast
    show "str_includes (c # s) t"
    proof (cases p)
      case Nil
      then have "take (length t) (c # s) = t" using pq by simp
      then show ?thesis by simp
    next
      case (Cons c' p')
      then have "s = p' @ t @ q" using pq by simp
      then have "str_includes s t" using Cons.IH by blast
      then show ?thesis by simp
    qed
  qed
qed

lemma setHours_end_endOfDay: "setHours_end env d = endOfDay env d"
  by (cases d) (simp_all add: setHours_end_def endOfDay_def dateOnly_def start_of_day_div)

lemma customer_chain_first:
  "bool_truthy (chain_includes (Option.bind (customer p) field) pat)
     = customer_name_contains p field pat"
  by (simp add: chain_includes_def customer_name_contains_def contains_ci_def
      split: option.splits)

lemma matchesValidUntilDate_spec:
  "matchesValidUntilDate env f p = (spec_start_bound_ok env f p \<and> spec_end_bound_ok env f p)"
proof (cases "validUntil p")
  case None
  then show ?thesis
    by (simp add: matchesValidUntilDate_def spec_start_bound_ok_def spec_end_bound_ok_def
        validUntil_absent_def)
next
  case (Some s)
  then show ?thesis
    by (cases "s = []")
      (simp_all add: matchesValidUntilDate_def spec_start_bound_ok_def spec_end_bound_ok_def
        validUntil_absent_def setHours_start_dateOnly setHours_end_endOfDay)
qed

lemma policy_matches_spec: "policy_matches env f p = spec_policy_passes env f p"
  by (simp add: policy_matches_def spec_policy_passes_def spec_policyType_ok_def
      spec_customerName_ok_def spec_policyNumber_ok_def spec_paidByCustomer_ok_def
      spec_paidToInsurer_ok_def customer_chain_first matchesValidUntilDate_spec
      contains_ci_def)

text \<open>
  Claim C4. For every policy and every setting of the filters, the policy is kept by the
  filter of the policy view exactly when the six conditions hold: policy type, customer
  name (first or last), policy number, paid by customer, paid to insurer, and the
  valid-until range, whose bound checks are skipped for a policy without a valid-until
  date. The filtered list is the input list restricted to these policies, in the same
  order.
\<close>

theorem policy_filter_six_conditions:
  "policy_matches env f p =
     (spec_policyType_ok f p \<and> spec_customerName_ok f p \<and> spec_policyNumber_ok f p \<and>
      spec_paidByCustomer_ok f p \<and> spec_paidToInsurer_ok f p \<and>
      (spec_start_bound_ok env f p \<and> spec_end_bound_ok env f p))
   \<and> filteredPolicies env f ps = filter (spec_policy_passes env f) ps
   \<and> (p \<in> set (filteredPolicies env f ps)) = (p \<in> set ps \<and> spec_policy_passes env f p)"
proof -
  have same: "filter (policy_matches env f) ps = filter (spec_policy_passes env f) ps"
    by (rule filter_cong) (simp_all add: policy_matches_spec)
  show ?thesis
    using policy_matches_spec [of env f p]
    by (auto simp: filteredPolicies_def same spec_policy_passes_def)
qed

section \<open>Properties of the sort\<close>

lemma mset_insert_by: "mset (insert_by cmp x ys) = add_mset x (mset ys)"
  by (induction ys) simp_all

lemma mset_insertion_sort: "mset (insertion_sort cmp xs) = mset xs"
  by (induction xs) (simp_all add: insertion_sort_def mset_insert_by)

lemma set_insert_by: "set (insert_by cmp x ys) = insert x (set ys)"
  by (induction ys) auto

lemma set_insertion_sort: "set (insertion_sort cmp xs) = set xs"
  by (induction xs) (simp_all add: insertion_sort_def set_insert_by)

lemma filter_insert_by_in:
  assumes tie: "\<And>y. y \<in> set ys \<Longrightarrow> P y \<Longrightarrow> cmp x y \<le> 0" and px: "P x"
  shows "filter P (insert_by cmp x ys) = x # filter P ys"
  using tie
proof (induction ys)
  case Nil
  show ?case using px by simp
next
  case (Cons y ys)
  show ?case
  proof (cases "cmp x y \<le> 0")
    case True
    then show ?thesis using px by simp
  next
    case False
    have npy: "\<not> P y"
    proof
      assume "P y"
      then have "cmp x y \<le> 0" using Cons.prems [of y] by simp
      then show False using False by simp
    qed
    have "filter P (insert_by cmp x ys) = x # filter P ys"
    proof (rule Cons.IH)
      fix z assume "z \<in> set ys" and "P z"
      then show "cmp x z \<le> 0" using Cons.prems [of z] by simp
    qed
    then show ?thesis using False npy by simp
  qed
qed

lemma filter_insert_by_out: "\<not> P x \<Longrightarrow> filter P (insert_by cmp x ys) = filter P ys"
  by (induction ys) simp_all

lemma insertion_sort_Cons: "insertion_sort cmp (x # xs) = insert_by cmp x (insertion_sort cmp xs)"
  by (simp add: insertion_sort_def)

lemma insertion_sort_stable:
  assumes tie: "\<And>x y. x \<in> set xs \<Longrightarrow> y \<in> set xs \<Longrightarrow> P x \<Longrightarrow> P y \<Longrightarrow> cmp x y \<le> 0"
  shows "filter P (insertion_sort cmp xs) = filter P xs"
  using tie
proof (induction xs)
  case Nil
  show ?case by (simp add: insertion_sort_def)
next
  case (Cons x xs)
  have IH: "filter P (insertion_sort cmp xs) = filter P xs"
  proof (rule Cons.IH)
    fix a b assume "a \<in> set xs" "b \<in> set xs" "P a" "P b"
    then show "cmp a b \<le> 0" using Cons.prems [of a b] by simp
  qed
  show ?case
  proof (cases "P x")
    case True
    have "filter P (insert_by cmp x (insertion_sort cmp xs)) = x # filter P (insertion_sort cmp xs)"
    proof (rule filter_insert_by_in)
      fix y assume "y \<in> set (insertion_sort cmp xs)" and "P y"
      then show "cmp x y \<le> 0" using Cons.prems [of x y] True by (simp add: set_insertion_sort)
    next
      show "P x" by (rule True)
    qed
    then show ?thesis using True IH by (simp add: insertion_sort_Cons)
  next
    case False
    then show ?thesis using IH by (simp add: insertion_sort_Cons filter_insert_by_out)
  qed
qed

lemma sorted_insert_by:
  assumes total: "\<And>y. y \<in> set ys \<Longrightarrow> cmp x y \<le> 0 \<or> cmp y x \<le> 0"
    and trans: "\<And>y z. y \<in> set ys \<Longrightarrow> z \<in> set ys \<Longrightarrow> cmp x y \<le> 0 \<Longrightarrow> cmp y z \<le> 0 \<Longrightarrow> cmp x z \<le> 0"
    and sorted: "sorted_wrt (\<lambda>a b. cmp a b \<le> 0) ys"
  shows "sorted_wrt (\<lambda>a b. cmp a b \<le> 0) (insert_by cmp x ys)"
  using total trans sorted
proof (induction ys)
  case Nil
  show ?case by simp
next
  case (Cons y ys)
  have tail: "sorted_wrt (\<lambda>a b. cmp a b \<le> 0) ys" using Cons.prems(3) by simp
  have head: "\<forall>z\<in>set ys. cmp y z \<le> 0" using Cons.prems(3) by simp
  show ?case
  proof (cases "cmp x y \<le> 0")
    case True
    have "\<forall>z\<in>set ys. cmp x z \<le> 0"
    proof
      fix z assume z: "z \<in> set ys"
      then have "cmp y z \<le> 0" using head by simp
      then show "cmp x z \<le> 0" using Cons.prems(2) [of y z] True z by simp
    qed
    then show ?thesis using True Cons.prems(3) by simp
  next
    case False
    then have yx: "cmp y x \<le> 0" using Cons.prems(1) [of y] by simp
    have "sorted_wrt (\<lambda>a b. cmp a b \<le> 0) (insert_by cmp x ys)"
    proof (rule Cons.IH)
      fix z assume "z \<in> set ys"
      then show "cmp x z \<le> 0 \<or> cmp z x \<le> 0" using Cons.prems(1) [of z] by simp
    next
      fix u v assume "u \<in> set ys" "v \<in> set ys" "cmp x u \<le> 0" "cmp u v \<le> 0"
      then show "cmp x v \<le> 0" using Cons.prems(2) [of u v] by simp
    next
      show "sorted_wrt (\<lambda>a b. cmp a b \<le> 0) ys" by (rule tail)
    qed
    moreover have "\<forall>z\<in>set (insert_by cmp x ys). cmp y z \<le> 0"
      using yx head by (simp add: set_insert_by)
    ultimately show ?thesis using False by simp
  qed
qed

lemma sorted_insertion_sort:
  assumes total: "\<And>x y. x \<in> set xs \<Longrightarrow> y \<in> set xs \<Longrightarrow> cmp x y \<le> 0 \<or> cmp y x \<le> 0"
    and trans: "\<And>x y z. x \<in> set xs \<Longrightarrow> y \<in> set xs \<Longrightarrow> z \<in> set xs \<Longrightarrow>
                  cmp x y \<le> 0 \<Longrightarrow> cmp y z \<le> 0 \<Longrightarrow> cmp x z \<le> 0"
  shows "sorted_wrt (\<lambda>a b. cmp a b \<le> 0) (insertion_sort cmp xs)"
  using total trans
proof (induction xs)
  case Nil
  show ?case by (simp add: insertion_sort_def)
next
  case (Cons x xs)
  have IH: "sorted_wrt (\<lambda>a b. cmp a b \<le> 0) (insertion_sort cmp xs)"
  proof (rule Cons.IH)
    fix a b assume "a \<in> set xs" "b \<in> set xs"
    then show "cmp a b \<le> 0 \<or> cmp b a \<le> 0" using Cons.prems(1) [of a b] by simp
  next
    fix a b c assume "a \<in> set xs" "b \<in> set xs" "c \<in> set xs" "cmp a b \<le> 0" "cmp b c \<le> 0"
    then show "cmp a c \<le> 0" using Cons.prems(2) [of a b c] by simp
  qed
  have "sorted_wrt (\<lambda>a b. cmp a b \<le> 0) (insert_by cmp x (insertion_sort cmp xs))"
  proof (rule sorted_insert_by)
    fix y assume "y \<in> set (insertion_sort cmp xs)"
    then show "cmp x y \<le> 0 \<or> cmp y x \<le> 0"
      using Cons.prems(1) [of x y] by (simp add: set_insertion_sort)
  next
    fix y z assume "y \<in> set (insertion_sort cmp xs)" "z \<in> set (insertion_sort cmp xs)"
      "cmp x y \<le> 0" "cmp y z \<le> 0"
    then show "cmp x z \<le> 0" using Cons.prems(2) [of x y z] by (simp add: set_insertion_sort)
  next
    show "sorted_wrt (\<lambda>a b. cmp a b \<le> 0) (insertion_sort cmp xs)" by (rule IH)
  qed
  then show ?case by (simp add: insertion_sort_Cons)
qed

lemma sorted_wrt_unique:
  assumes "sorted_wrt R xs" and "sorted_wrt R ys" and "mset xs = mset ys"
    and antisym: "\<And>x y. x \<in> set xs \<Longrightarrow> y \<in> set xs \<Longrightarrow> R x y \<Longrightarrow> R y x \<Longrightarrow> x = y"
  shows "xs = ys"
  using assms
proof (induction xs arbitrary: ys)
  case Nil
  then show ?case by simp
next
  case (Cons x xs)
  have "ys \<noteq> []" using Cons.prems(3) by auto
  then obtain y ys' where ys: "ys = y # ys'" by (cases ys) auto
  have "set_mset (mset (x # xs)) = set_mset (mset (y # ys'))"
    using Cons.prems(3) ys by simp
  then have sets: "insert x (set xs) = insert y (set ys')" by simp
  have xy: "x = y"
  proof (rule ccontr)
    assume ne: "x \<noteq> y"
    have "x \<in> insert y (set ys')" using sets by blast
    then have "x \<in> set ys'" using ne by simp
    then have yx: "R y x" using Cons.prems(2) ys by simp
    have "y \<in> insert x (set xs)" by (simp add: sets)
    then have yin: "y \<in> set xs" using ne by simp
    then have "R x y" using Cons.prems(1) by simp
    then have "x = y" using Cons.prems(4) [of x y] yx yin by simp
    then show False using ne by simp
  qed
  have m: "mset xs = mset ys'" using Cons.prems(3) ys xy by simp
  have s1: "sorted_wrt R xs" using Cons.prems(1) by simp
  have s2: "sorted_wrt R ys'" using Cons.prems(2) ys by simp
  have "xs = ys'"
  proof (rule Cons.IH [OF s1 s2 m])
    fix a b assume "a \<in> set xs" "b \<in> set xs" "R a b" "R b a"
    then show "a = b" using Cons.prems(4) [of a b] by simp
  qed
  then show ?case using ys xy by simp
qed

lemma num_lt_irrefl: "\<not> num_lt x x"
  by (cases x) simp_all

lemma num_lt_asym: "num_lt x y \<Longrightarrow> \<not> num_lt y x"
  by (cases x; cases y) simp_all

lemma num_le_trans:
  "x \<noteq> NaN \<Longrightarrow> y \<noteq> NaN \<Longrightarrow> z \<noteq> NaN \<Longrightarrow> \<not> num_lt y x \<Longrightarrow> \<not> num_lt z y \<Longrightarrow> \<not> num_lt z x"
  by (cases x; cases y; cases z) simp_all

lemma num_le_antisym:
  "x \<noteq> NaN \<Longrightarrow> y \<noteq> NaN \<Longrightarrow> \<not> num_lt y x \<Longrightarrow> \<not> num_lt x y \<Longrightarrow> x = y"
  by (cases x; cases y) simp_all

lemma js_lt_irrefl: "\<not> js_lt v v"
  by (cases v) (simp_all add: num_lt_irrefl)

lemma js_lt_asym: "js_lt x y \<Longrightarrow> \<not> js_lt y x"
  by (cases x; cases y) (auto dest: num_lt_asym)

lemma compare_le0:
  "(compare_policies env col dir a b \<le> 0) =
     (if dir = ''asc'' then \<not> js_lt (sort_value env col b) (sort_value env col a)
      else \<not> js_lt (sort_value env col a) (sort_value env col b))"
  using js_lt_asym [of "sort_value env col a" "sort_value env col b"]
  by (auto simp: compare_policies_def Let_def)

lemma compare_eq0:
  "(compare_policies env col dir a b = 0) =
     (\<not> js_lt (sort_value env col a) (sort_value env col b)
      \<and> \<not> js_lt (sort_value env col b) (sort_value env col a))"
  by (auto simp: compare_policies_def Let_def)

lemma js_le_trans_str:
  "is_string_val x \<Longrightarrow> is_string_val y \<Longrightarrow> is_string_val z \<Longrightarrow>
   \<not> js_lt y x \<Longrightarrow> \<not> js_lt z y \<Longrightarrow> \<not> js_lt z x"
  by (cases x; cases y; cases z) auto

lemma js_le_trans_num:
  "is_proper_number x \<Longrightarrow> is_proper_number y \<Longrightarrow> is_proper_number z \<Longrightarrow>
   \<not> js_lt y x \<Longrightarrow> \<not> js_lt z y \<Longrightarrow> \<not> js_lt z x"
  by (cases x; cases y; cases z) (auto dest: num_le_trans)

lemma js_le_antisym_str:
  "is_string_val x \<Longrightarrow> is_string_val y \<Longrightarrow> \<not> js_lt y x \<Longrightarrow> \<not> js_lt x y \<Longrightarrow> x = y"
  by (cases x; cases y) auto

lemma js_le_antisym_num:
  "is_proper_number x \<Longrightarrow> is_proper_number y \<Longrightarrow> \<not> js_lt y x \<Longrightarrow> \<not> js_lt x y \<Longrightarrow> x = y"
  by (cases x; cases y) (auto dest: num_le_antisym)

lemma homogeneous_trans:
  assumes "list_all is_string_val vs \<or> list_all is_proper_number vs"
    and "x \<in> set vs" "y \<in> set vs" "z \<in> set vs"
    and "\<not> js_lt y x" "\<not> js_lt z y"
  shows "\<not> js_lt z x"
proof -
  from assms(1) show ?thesis
  proof
    assume "list_all is_string_val vs"
    then have "is_string_val x" "is_string_val y" "is_string_val z"
      using assms(2-4) by (simp_all add: list_all_iff)
    then show ?thesis using assms(5,6) by (rule js_le_trans_str)
  next
    assume "list_all is_proper_number vs"
    then have "is_proper_number x" "is_proper_number y" "is_proper_number z"
      using assms(2-4) by (simp_all add: list_all_iff)
    then show ?thesis using assms(5,6) by (rule js_le_trans_num)
  qed
qed

lemma homogeneous_antisym:
  assumes "list_all is_string_val vs \<or> list_all is_proper_number vs"
    and "x \<in> set vs" "y \<in> set vs"
    and "\<not> js_lt y x" "\<not> js_lt x y"
  shows "x = y"
proof -
  from assms(1) show ?thesis
  proof
    assume "list_all is_string_val vs"
    then have "is_string_val x" "is_string_val y"
      using assms(2,3) by (simp_all add: list_all_iff)
    then show ?thesis using assms(4,5) by (rule js_le_antisym_str)
  next
    assume "list_all is_proper_number vs"
    then have "is_proper_number x" "is_proper_number y"
      using assms(2,3) by (simp_all add: list_all_iff)
    then show ?thesis using assms(4,5) by (rule js_le_antisym_num)
  qed
qed

text \<open>Ascending sort of a list with homogeneous keys is sorted by the keys.\<close>

lemma sorted_ascending:
  assumes hom: "list_all is_string_val (map (sort_value env col) xs)
                \<or> list_all is_proper_number (map (sort_value env col) xs)"
  shows "sorted_wrt (\<lambda>a b. \<not> js_lt (sort_value env col b) (sort_value env col a))
           (insertion_sort (compare_policies env col ''asc'') xs)"
proof -
  let ?cmp = "compare_policies env col ''asc''"
  have "sorted_wrt (\<lambda>a b. ?cmp a b \<le> 0) (insertion_sort ?cmp xs)"
  proof (rule sorted_insertion_sort)
    fix x y
    show "?cmp x y \<le> 0 \<or> ?cmp y x \<le> 0"
      using js_lt_asym [of "sort_value env col x" "sort_value env col y"]
      by (auto simp: compare_le0)
  next
    fix x y z assume "x \<in> set xs" "y \<in> set xs" "z \<in> set xs" "?cmp x y \<le> 0" "?cmp y z \<le> 0"
    then show "?cmp x z \<le> 0"
      using homogeneous_trans [OF hom, of "sort_value env col x" "sort_value env col y"
          "sort_value env col z"]
      by (simp add: compare_le0)
  qed
  then show ?thesis by (simp add: compare_le0)
qed

lemma sorted_descending:
  assumes hom: "list_all is_string_val (map (sort_value env col) xs)
                \<or> list_all is_proper_number (map (sort_value env col) xs)"
    and dir: "dir \<noteq> ''asc''"
  shows "sorted_wrt (\<lambda>a b. \<not> js_lt (sort_value env col a) (sort_value env col b))
           (insertion_sort (compare_policies env col dir) xs)"
proof -
  let ?cmp = "compare_policies env col dir"
  have "sorted_wrt (\<lambda>a b. ?cmp a b \<le> 0) (insertion_sort ?cmp xs)"
  proof (rule sorted_insertion_sort)
    fix x y
    show "?cmp x y \<le> 0 \<or> ?cmp y x \<le> 0"
      using js_lt_asym [of "sort_value env col x" "sort_value env col y"] dir
      by (auto simp: compare_le0)
  next
    fix x y z assume "x \<in> set xs" "y \<in> set xs" "z \<in> set xs" "?cmp x y \<le> 0" "?cmp y z \<le> 0"
    then show "?cmp x z \<le> 0"
      using homogeneous_trans [OF hom, of "sort_value env col z" "sort_value env col y"
          "sort_value env col x"] dir
      by (simp add: compare_le0)
  qed
  then show ?thesis using dir by (simp add: compare_le0)
qed

lemma descending_is_reverse:
  assumes ord: "keys_totally_ordered (map (sort_value env col) xs)"
    and dir: "dir \<noteq> ''asc''"
  shows "insertion_sort (compare_policies env col dir) xs
           = rev (insertion_sort (compare_policies env col ''asc'') xs)"
proof -
  let ?le = "\<lambda>a b. \<not> js_lt (sort_value env col b) (sort_value env col a)"
  let ?asc = "insertion_sort (compare_policies env col ''asc'') xs"
  let ?desc = "insertion_sort (compare_policies env col dir) xs"
  have hom: "list_all is_string_val (map (sort_value env col) xs)
             \<or> list_all is_proper_number (map (sort_value env col) xs)"
    and dist: "distinct (map (sort_value env col) xs)"
    using ord by (simp_all add: keys_totally_ordered_def)
  have inj: "inj_on (sort_value env col) (set xs)"
    using dist by (simp add: distinct_map)
  have s1: "sorted_wrt ?le ?asc" using hom by (rule sorted_ascending)
  have "sorted_wrt (\<lambda>a b. ?le b a) ?desc" using hom dir by (rule sorted_descending)
  then have s2: "sorted_wrt ?le (rev ?desc)" by (simp add: sorted_wrt_rev)
  have m: "mset ?asc = mset (rev ?desc)" by (simp add: mset_insertion_sort)
  have "?asc = rev ?desc"
  proof (rule sorted_wrt_unique [OF s1 s2 m])
    fix x y assume x: "x \<in> set ?asc" and y: "y \<in> set ?asc" and "?le x y" and "?le y x"
    from x y have xin: "x \<in> set xs" and yin: "y \<in> set xs" by (simp_all add: set_insertion_sort)
    have "sort_value env col x = sort_value env col y"
      using homogeneous_antisym [OF hom, of "sort_value env col x" "sort_value env col y"]
        xin yin \<open>?le x y\<close> \<open>?le y x\<close> by simp
    then show "x = y" using inj xin yin by (simp add: inj_on_def)
  qed
  then have "rev ?asc = rev (rev ?desc)" by simp
  then show ?thesis by simp
qed

lemma compare_not_asc:
  "dir \<noteq> ''asc'' \<Longrightarrow> compare_policies env col dir = compare_policies env col ''desc''"
  by (intro ext) (simp add: compare_policies_def)

section \<open>Financial report\<close>

lemma foldl_unpaid:
  "foldl nadd a (map (\<lambda>p. if paid p then Fin 0 else g p) xs)
     = foldl nadd a (map g (filter (\<lambda>p. \<not> paid p) xs))"
  by (induction xs arbitrary: a) (simp_all add: nadd_zero_right)

lemma nsum_unpaid:
  "nsum (map (\<lambda>p. if paid p then Fin 0 else g p) xs) = nsum (map g (filter (\<lambda>p. \<not> paid p) xs))"
  by (simp add: nsum_def foldl_unpaid)

subsection \<open>The window, in days\<close>

lemma mult_le_iff_le_div:
  fixes a k q :: int
  assumes pos: "0 < k"
  shows "(k * q \<le> a) = (q \<le> a div k)"
  using less_mult_iff_div_less [OF pos, of a q] by linarith

text \<open>The window of moments and the window of days are the same.\<close>

lemma day_start_le:
  "(a * ms_per_day - tz_offset env \<le> t) = (a \<le> local_day env t)"
proof -
  have pos: "0 < ms_per_day" by (simp add: ms_per_day_def)
  have "(a * ms_per_day - tz_offset env \<le> t) = (ms_per_day * a \<le> t + tz_offset env)"
    by (simp add: mult.commute) linarith
  also have "\<dots> = (a \<le> (t + tz_offset env) div ms_per_day)"
    using pos by (rule mult_le_iff_le_div)
  finally show ?thesis by (simp add: local_day_def)
qed

lemma le_day_end:
  "(t \<le> b * ms_per_day - tz_offset env + (ms_per_day - 1)) = (local_day env t \<le> b)"
proof -
  have pos: "0 < ms_per_day" by (simp add: ms_per_day_def)
  have "(t \<le> b * ms_per_day - tz_offset env + (ms_per_day - 1))
          = (t + tz_offset env < ms_per_day * (b + 1))"
    by (simp add: algebra_simps) linarith
  also have "\<dots> = ((t + tz_offset env) div ms_per_day < b + 1)"
    using pos by (rule less_mult_iff_div_less)
  finally show ?thesis by (simp add: local_day_def)
qed

lemma window_moments:
  "(a * ms_per_day - tz_offset env \<le> t \<and> t \<le> b * ms_per_day - tz_offset env + (ms_per_day - 1))
     = (a \<le> local_day env t \<and> local_day env t \<le> b)"
  by (simp add: day_start_le le_day_end)

text \<open>What the two comparisons of the code test, in every zone.\<close>

lemma from_start_local_day:
  "date_le (setHours_start env x) (Some t)
     = (case x of None \<Rightarrow> False | Some u \<Rightarrow> local_day env u \<le> local_day env t)"
proof (cases x)
  case None
  then show ?thesis by (simp add: setHours_start_def)
next
  case (Some u)
  have "setHours_start env (Some u) = Some (local_day env u * ms_per_day - tz_offset env)"
    by (simp add: setHours_start_dateOnly dateOnly_def local_day_def mult.commute)
  then show ?thesis
    using Some day_start_le [of "local_day env u" env t] by simp
qed

lemma until_end_local_day:
  "date_le (Some t) (setHours_end env x)
     = (case x of None \<Rightarrow> False | Some u \<Rightarrow> local_day env t \<le> local_day env u)"
proof (cases x)
  case None
  then show ?thesis by (simp add: setHours_end_def)
next
  case (Some u)
  have "setHours_end env (Some u)
          = Some (local_day env u * ms_per_day - tz_offset env + (ms_per_day - 1))"
    by (simp add: setHours_end_endOfDay endOfDay_def dateOnly_def local_day_def mult.commute)
  then show ?thesis
    using Some le_day_end [of t "local_day env u" env] by simp
qed

lemma code_window:
  assumes "0 \<le> tz_offset env" and "tz_offset env < ms_per_day"
  shows "(date_le (setHours_start env (new_Date env s)) (Some t)
            \<and> date_le (Some t) (setHours_end env (new_Date env e)))
         = in_window env s e (Some (local_day env t))"
proof -
  have s: "text_day env s = map_option (local_day env) (new_Date env s)"
    using new_Date_local_day [OF assms, of s] by simp
  have e: "text_day env e = map_option (local_day env) (new_Date env e)"
    using new_Date_local_day [OF assms, of e] by simp
  show ?thesis
    by (cases "new_Date env s"; cases "new_Date env e")
      (simp_all add: from_start_local_day until_end_local_day in_window_def s e)
qed

lemma code_window_invalid:
  "(date_le (setHours_start env x) None \<and> date_le None (setHours_end env y)) = False"
  by (cases "setHours_start env x") simp_all

lemma report_policies_spec:
  assumes "0 \<le> tz_offset env" and "tz_offset env < ms_per_day"
  shows "filteredPoliciesReport env s e ps = spec_report_policies env s e ps"
proof -
  have "\<And>p. (case createdAt p of None \<Rightarrow> False
              | Some t \<Rightarrow> date_le (setHours_start env (new_Date env s)) (Some t)
                          \<and> date_le (Some t) (setHours_end env (new_Date env e)))
            = in_window env s e (policy_day env p)"
    by (simp add: code_window [OF assms] policy_day_def in_window_def split: option.splits)
  then show ?thesis
    by (simp add: filteredPoliciesReport_def spec_report_policies_def range_supplied_def)
qed

lemma report_entries_spec:
  assumes "0 \<le> tz_offset env" and "tz_offset env < ms_per_day"
  shows "filteredPaymentsExpenses env s e es = spec_report_entries env s e es"
proof -
  have keep: "(date_le (setHours_start env (new_Date env s)) d
                 \<and> date_le d (setHours_end env (new_Date env e)))
              = in_window env s e (map_option (local_day env) d)" for d
  proof (cases d)
    case None
    then show ?thesis using code_window_invalid [of env] by (simp add: in_window_def)
  next
    case (Some t)
    then show ?thesis by (simp add: code_window [OF assms])
  qed
  have day: "map_option (local_day env)
               (case entry_createdAt i of Some t \<Rightarrow> Some t
                | None \<Rightarrow> new_Date_opt env (entry_date i)) = entry_day env i" for i
    using new_Date_local_day [OF assms]
    by (simp add: entry_day_def new_Date_opt_def split: option.splits)
  show ?thesis
    by (simp add: filteredPaymentsExpenses_def spec_report_entries_def range_supplied_def
        keep day Let_def)
qed

text \<open>
  The report in a zone at or east of UTC (and less than a day from it), for all policies,
  ledger entries and report dates. When both dates are given, the report keeps the
  policies whose creation time, and the ledger entries whose creation time (or own date,
  when the entry has no creation time), lie between the start of the first day and the
  end of the last day; otherwise it keeps everything. On the kept documents, total income
  is the sum of the total amounts, total commission the sum of the commissions, total
  expenses the sum of the amounts of the entries of type Expense, the commission and the
  total not paid to the insurer are the sums over the policies not paid to the insurer,
  and the amount due to the insurer is their difference.
\<close>

theorem financial_report_east_of_utc:
  assumes "0 \<le> tz_offset env" and "tz_offset env < ms_per_day"
  shows
  "filteredPoliciesReport env s e ps = spec_report_policies env s e ps
   \<and> filteredPaymentsExpenses env s e es = spec_report_entries env s e es
   \<and> totalIncome (FinancialReports env s e ps es)
     = nsum (map (\<lambda>p. numeric_or_zero (totalAmount p)) (spec_report_policies env s e ps))
   \<and> reportTotalCommission (FinancialReports env s e ps es)
     = nsum (map (\<lambda>p. numeric_or_zero (commission p)) (spec_report_policies env s e ps))
   \<and> totalExpenses (FinancialReports env s e ps es)
     = nsum (map (\<lambda>i. numeric_or_zero (amount i))
         (filter (\<lambda>i. entry_type i = ''Expense'') (spec_report_entries env s e es)))
   \<and> commissionNotPaidToInsurer (FinancialReports env s e ps es)
     = nsum (map (\<lambda>p. numeric_or_zero (commission p))
         (filter (\<lambda>p. \<not> paidToInsurer p) (spec_report_policies env s e ps)))
   \<and> totalUnpaidToInsurer (FinancialReports env s e ps es)
     = nsum (map (\<lambda>p. numeric_or_zero (totalAmount p))
         (filter (\<lambda>p. \<not> paidToInsurer p) (spec_report_policies env s e ps)))
   \<and> amountDueToInsurer (FinancialReports env s e ps es)
     = nsub (totalUnpaidToInsurer (FinancialReports env s e ps es))
         (commissionNotPaidToInsurer (FinancialReports env s e ps es))"
proof -
  show ?thesis
    unfolding FinancialReports_def Let_def
      report_policies_spec [OF assms] report_entries_spec [OF assms]
    by (simp add: reduce_is_nsum or_zero_numeric nsum_unpaid)
qed

text \<open>The scenario of the specification: an expense of 40 inside the window and a payment of
  60 outside it give one kept entry and total expenses of 40.\<close>

lemma report_scenario:
  "filteredPaymentsExpenses example_env ''2024-03-01'' ''2024-03-31''
     [example_entry ''e1'' ''Expense'' 40 ''2024-03-10'' None,
      example_entry ''e2'' ''Payment'' 60 ''2024-05-01'' None]
     = [example_entry ''e1'' ''Expense'' 40 ''2024-03-10'' None]
   \<and> totalExpenses (FinancialReports example_env ''2024-03-01'' ''2024-03-31'' []
        [example_entry ''e1'' ''Expense'' 40 ''2024-03-10'' None,
         example_entry ''e2'' ''Payment'' 60 ''2024-05-01'' None]) = Fin 40"
  by (simp add: FinancialReports_def filteredPaymentsExpenses_def filteredPoliciesReport_def
      new_Date_opt_def new_Date_def setHours_start_def setHours_end_def example_env_def
      iso_day_def days_in_month_def no_other_date_def days_from_civil_def
      is_digit_def digits_val_def ms_per_day_def
      example_entry_def or_zero_def Let_def)

text \<open>
  Claim C3. With a range supplied, the report is to keep the documents whose timestamp
  lies between the start of the first day and the end of the last day of the range. The
  code takes both days from the date texts parsed as midnight UTC and then moves to the
  start and the end of the local day of that moment. West of UTC this is the day before:
  five hours west of UTC, the report for 1 to 31 March 2024 (days 19783 to 19813) keeps
  an expense of 40 created at noon of 29 February (day 19782) and drops an expense of 25
  created at noon of 31 March (day 19813), so it shows total expenses of 40 where the
  expenses of the range sum to 25.
\<close>

theorem report_window_west_of_utc:
  "filteredPaymentsExpenses west_env ''2024-03-01'' ''2024-03-31''
     [(example_entry ''e1'' ''Expense'' 40 ''2024-02-29'' None)\<lparr> entry_createdAt := Some 1709226000000 \<rparr>,
      (example_entry ''e2'' ''Expense'' 25 ''2024-03-31'' None)\<lparr> entry_createdAt := Some 1711904400000 \<rparr>]
     = [(example_entry ''e1'' ''Expense'' 40 ''2024-02-29'' None)\<lparr> entry_createdAt := Some 1709226000000 \<rparr>]
   \<and> totalExpenses (FinancialReports west_env ''2024-03-01'' ''2024-03-31'' []
       [(example_entry ''e1'' ''Expense'' 40 ''2024-02-29'' None)\<lparr> entry_createdAt := Some 1709226000000 \<rparr>,
        (example_entry ''e2'' ''Expense'' 25 ''2024-03-31'' None)\<lparr> entry_createdAt := Some 1711904400000 \<rparr>])
     = Fin 40
   \<and> text_day west_env ''2024-03-01'' = Some 19783
   \<and> text_day west_env ''2024-03-31'' = Some 19813
   \<and> local_day west_env 1709226000000 = 19782
   \<and> local_day west_env 1711904400000 = 19813
   \<and> spec_report_entries west_env ''2024-03-01'' ''2024-03-31''
       [(example_entry ''e1'' ''Expense'' 40 ''2024-02-29'' None)\<lparr> entry_createdAt := Some 1709226000000 \<rparr>,
        (example_entry ''e2'' ''Expense'' 25 ''2024-03-31'' None)\<lparr> entry_createdAt := Some 1711904400000 \<rparr>]
     = [(example_entry ''e2'' ''Expense'' 25 ''2024-03-31'' None)\<lparr> entry_createdAt := Some 1711904400000 \<rparr>]"
  by (simp add: FinancialReports_def filteredPaymentsExpenses_def filteredPoliciesReport_def
      spec_report_entries_def range_supplied_def in_window_def entry_day_def text_day_def
      local_day_def new_Date_opt_def new_Date_def setHours_start_def setHours_end_def
      west_env_def iso_day_def days_in_month_def no_other_date_def days_from_civil_def
      is_digit_def digits_val_def ms_per_day_def example_entry_def or_zero_def Let_def)

section \<open>Properties of the built-in sort\<close>

subsection \<open>Consistent comparison functions\<close>

lemma consistent_comparatorI:
  assumes refl: "\<And>a. a \<in> set xs \<Longrightarrow> cmp a a = 0"
    and sym: "\<And>a b. a \<in> set xs \<Longrightarrow> b \<in> set xs \<Longrightarrow> cmp a b = 0 \<Longrightarrow> cmp b a = 0"
    and eq: "\<And>a b c. a \<in> set xs \<Longrightarrow> b \<in> set xs \<Longrightarrow> c \<in> set xs \<Longrightarrow>
               cmp a b = 0 \<Longrightarrow> cmp b c = 0 \<Longrightarrow> cmp a c = 0"
    and lt: "\<And>a b c. a \<in> set xs \<Longrightarrow> b \<in> set xs \<Longrightarrow> c \<in> set xs \<Longrightarrow>
               cmp a b < 0 \<Longrightarrow> cmp b c < 0 \<Longrightarrow> cmp a c < 0"
    and gt: "\<And>a b c. a \<in> set xs \<Longrightarrow> b \<in> set xs \<Longrightarrow> c \<in> set xs \<Longrightarrow>
               0 < cmp a b \<Longrightarrow> 0 < cmp b c \<Longrightarrow> 0 < cmp a c"
  shows "consistent_comparator cmp xs"
proof -
  have 1: "\<forall>a\<in>set xs. cmp a a = 0" using refl by blast
  have 2: "\<forall>a\<in>set xs. \<forall>b\<in>set xs. cmp a b = 0 \<longrightarrow> cmp b a = 0" using sym by blast
  have 3: "\<forall>a\<in>set xs. \<forall>b\<in>set xs. \<forall>c\<in>set xs. cmp a b = 0 \<and> cmp b c = 0 \<longrightarrow> cmp a c = 0"
    using eq by blast
  have 4: "\<forall>a\<in>set xs. \<forall>b\<in>set xs. \<forall>c\<in>set xs. cmp a b < 0 \<and> cmp b c < 0 \<longrightarrow> cmp a c < 0"
    using lt by blast
  have 5: "\<forall>a\<in>set xs. \<forall>b\<in>set xs. \<forall>c\<in>set xs. 0 < cmp a b \<and> 0 < cmp b c \<longrightarrow> 0 < cmp a c"
    using gt by blast
  show ?thesis
    unfolding consistent_comparator_def list_all_iff
    using 1 2 3 4 5 by blast
qed

lemma consistent_comparatorD:
  assumes "consistent_comparator cmp xs"
  shows "\<forall>a\<in>set xs. cmp a a = 0"
    and "\<forall>a\<in>set xs. \<forall>b\<in>set xs. cmp a b = 0 \<longrightarrow> cmp b a = 0"
    and "\<forall>a\<in>set xs. \<forall>b\<in>set xs. \<forall>c\<in>set xs. cmp a b = 0 \<and> cmp b c = 0 \<longrightarrow> cmp a c = 0"
    and "\<forall>a\<in>set xs. \<forall>b\<in>set xs. \<forall>c\<in>set xs. cmp a b < 0 \<and> cmp b c < 0 \<longrightarrow> cmp a c < 0"
    and "\<forall>a\<in>set xs. \<forall>b\<in>set xs. \<forall>c\<in>set xs. 0 < cmp a b \<and> 0 < cmp b c \<longrightarrow> 0 < cmp a c"
  using assms unfolding consistent_comparator_def list_all_iff by blast+

text \<open>The result of the sort always has the elements of the array, and for a consistent
  comparison function it is the stable arrangement.\<close>

lemma mset_js_sort: "mset (js_sort engine cmp xs) = mset xs"
  by (simp add: js_sort_def mset_insertion_sort Let_def)

lemma js_sort_consistent:
  "consistent_comparator cmp xs \<Longrightarrow> js_sort engine cmp xs = insertion_sort cmp xs"
  by (simp add: js_sort_def)


lemma all_equal_consistent:
  assumes "\<And>x y. x \<in> set xs \<Longrightarrow> y \<in> set xs \<Longrightarrow> cmp x y = 0"
  shows "consistent_comparator cmp xs"
proof (rule consistent_comparatorI)
  fix a assume "a \<in> set xs"
  then show "cmp a a = 0" using assms by simp
next
  fix a b assume "a \<in> set xs" "b \<in> set xs"
  then show "cmp b a = 0" using assms by simp
next
  fix a b c assume "a \<in> set xs" "c \<in> set xs"
  then show "cmp a c = 0" using assms by simp
next
  fix a b c assume "a \<in> set xs" "b \<in> set xs" "cmp a b < 0"
  then show "cmp a c < 0" using assms [of a b] by simp
next
  fix a b c assume "a \<in> set xs" "b \<in> set xs" "0 < cmp a b"
  then show "0 < cmp a c" using assms [of a b] by simp
qed

subsection \<open>The comparator of the policy view on homogeneous keys\<close>

lemma num_lt_trans: "num_lt x y \<Longrightarrow> num_lt y z \<Longrightarrow> num_lt x z"
  by (cases x; cases y; cases z) simp_all

lemma js_lt_trans_str:
  "is_string_val x \<Longrightarrow> is_string_val y \<Longrightarrow> is_string_val z \<Longrightarrow>
   js_lt x y \<Longrightarrow> js_lt y z \<Longrightarrow> js_lt x z"
  by (cases x; cases y; cases z) auto

lemma js_lt_trans_num:
  "is_proper_number x \<Longrightarrow> is_proper_number y \<Longrightarrow> is_proper_number z \<Longrightarrow>
   js_lt x y \<Longrightarrow> js_lt y z \<Longrightarrow> js_lt x z"
  by (cases x; cases y; cases z) (auto dest: num_lt_trans)

lemma homogeneous_lt_trans:
  assumes "list_all is_string_val vs \<or> list_all is_proper_number vs"
    and "x \<in> set vs" "y \<in> set vs" "z \<in> set vs"
    and "js_lt x y" "js_lt y z"
  shows "js_lt x z"
proof -
  from assms(1) show ?thesis
  proof
    assume "list_all is_string_val vs"
    then have "is_string_val x" "is_string_val y" "is_string_val z"
      using assms(2-4) by (simp_all add: list_all_iff)
    then show ?thesis using assms(5,6) by (rule js_lt_trans_str)
  next
    assume "list_all is_proper_number vs"
    then have "is_proper_number x" "is_proper_number y" "is_proper_number z"
      using assms(2-4) by (simp_all add: list_all_iff)
    then show ?thesis using assms(5,6) by (rule js_lt_trans_num)
  qed
qed

lemma compare_lt0:
  "(compare_policies env col dir a b < 0) =
     (if dir = ''asc'' then js_lt (sort_value env col a) (sort_value env col b)
      else js_lt (sort_value env col b) (sort_value env col a))"
  using js_lt_asym [of "sort_value env col a" "sort_value env col b"]
  by (auto simp: compare_policies_def Let_def)

lemma compare_gt0:
  "(0 < compare_policies env col dir a b) =
     (if dir = ''asc'' then js_lt (sort_value env col b) (sort_value env col a)
      else js_lt (sort_value env col a) (sort_value env col b))"
  using js_lt_asym [of "sort_value env col a" "sort_value env col b"]
  by (auto simp: compare_policies_def Let_def)

text \<open>On keys that are all strings, or all numbers other than NaN, the comparator of the
  policy view is a consistent comparison function, in both directions.\<close>

lemma homogeneous_consistent:
  assumes hom: "list_all is_string_val (map (sort_value env col) xs)
                \<or> list_all is_proper_number (map (sort_value env col) xs)"
  shows "consistent_comparator (compare_policies env col dir) xs"
proof (rule consistent_comparatorI)
  fix a
  show "compare_policies env col dir a a = 0" by (simp add: compare_eq0 js_lt_irrefl)
next
  fix a b assume "compare_policies env col dir a b = 0"
  then show "compare_policies env col dir b a = 0" by (simp add: compare_eq0)
next
  fix a b c assume a: "a \<in> set xs" and b: "b \<in> set xs" and c: "c \<in> set xs"
    and ab: "compare_policies env col dir a b = 0" and bc: "compare_policies env col dir b c = 0"
  have "sort_value env col a = sort_value env col b"
    using homogeneous_antisym [OF hom, of "sort_value env col a" "sort_value env col b"] a b ab
    by (simp add: compare_eq0)
  moreover have "sort_value env col b = sort_value env col c"
    using homogeneous_antisym [OF hom, of "sort_value env col b" "sort_value env col c"] b c bc
    by (simp add: compare_eq0)
  ultimately show "compare_policies env col dir a c = 0"
    by (simp add: compare_eq0 js_lt_irrefl)
next
  fix a b c assume a: "a \<in> set xs" and b: "b \<in> set xs" and c: "c \<in> set xs"
    and ab: "compare_policies env col dir a b < 0" and bc: "compare_policies env col dir b c < 0"
  show "compare_policies env col dir a c < 0"
  proof (cases "dir = ''asc''")
    case True
    then show ?thesis
      using homogeneous_lt_trans [OF hom, of "sort_value env col a" "sort_value env col b"
          "sort_value env col c"] a b c ab bc
      by (simp add: compare_lt0)
  next
    case False
    then show ?thesis
      using homogeneous_lt_trans [OF hom, of "sort_value env col c" "sort_value env col b"
          "sort_value env col a"] a b c ab bc
      by (simp add: compare_lt0)
  qed
next
  fix a b c assume a: "a \<in> set xs" and b: "b \<in> set xs" and c: "c \<in> set xs"
    and ab: "0 < compare_policies env col dir a b" and bc: "0 < compare_policies env col dir b c"
  show "0 < compare_policies env col dir a c"
  proof (cases "dir = ''asc''")
    case True
    then show ?thesis
      using homogeneous_lt_trans [OF hom, of "sort_value env col c" "sort_value env col b"
          "sort_value env col a"] a b c ab bc
      by (simp add: compare_gt0)
  next
    case False
    then show ?thesis
      using homogeneous_lt_trans [OF hom, of "sort_value env col a" "sort_value env col b"
          "sort_value env col c"] a b c ab bc
      by (simp add: compare_gt0)
  qed
qed

text \<open>For a consistent comparison function the insertion sort returns a sorted
  arrangement: the model of the consistent case is a sort.\<close>

lemma consistent_sorted:
  assumes cons: "consistent_comparator cmp xs"
  shows "sorted_wrt (\<lambda>a b. cmp a b \<le> 0) (insertion_sort cmp xs)"
proof (rule sorted_insertion_sort)
  note D = consistent_comparatorD [OF cons]
  fix x y assume x: "x \<in> set xs" and y: "y \<in> set xs"
  show "cmp x y \<le> 0 \<or> cmp y x \<le> 0"
  proof (rule ccontr)
    assume "\<not> (cmp x y \<le> 0 \<or> cmp y x \<le> 0)"
    then have "0 < cmp x y" and "0 < cmp y x" by simp_all
    then have "0 < cmp x x" using D(5) x y by blast
    moreover have "cmp x x = 0" using D(1) x by blast
    ultimately show False by simp
  qed
next
  note D = consistent_comparatorD [OF cons]
  fix x y z assume x: "x \<in> set xs" and y: "y \<in> set xs" and z: "z \<in> set xs"
    and xy: "cmp x y \<le> 0" and yz: "cmp y z \<le> 0"
  show "cmp x z \<le> 0"
  proof (rule ccontr)
    assume "\<not> cmp x z \<le> 0"
    then have xz: "0 < cmp x z" by simp
    have zx: "cmp z x < 0"
    proof (rule ccontr)
      assume "\<not> cmp z x < 0"
      then have "cmp z x = 0 \<or> 0 < cmp z x" by linarith
      then show False
      proof
        assume "cmp z x = 0"
        then have "cmp x z = 0" using D(2) x z by blast
        then show False using xz by simp
      next
        assume "0 < cmp z x"
        then have "0 < cmp x x" using D(5) x z xz by blast
        moreover have "cmp x x = 0" using D(1) x by blast
        ultimately show False by simp
      qed
    qed
    have "cmp x y < 0 \<or> cmp x y = 0" using xy by linarith
    then show False
    proof
      assume lt: "cmp x y < 0"
      then have zy: "cmp z y < 0" using D(4) x y z zx by blast
      have "cmp y z < 0 \<or> cmp y z = 0" using yz by linarith
      then show False
      proof
        assume "cmp y z < 0"
        then have "cmp z z < 0" using D(4) y z zy by blast
        moreover have "cmp z z = 0" using D(1) z by blast
        ultimately show False by simp
      next
        assume "cmp y z = 0"
        then have "cmp z y = 0" using D(2) y z by blast
        then show False using zy by simp
      qed
    next
      assume eq: "cmp x y = 0"
      then have yx: "cmp y x = 0" using D(2) x y by blast
      have "cmp y z < 0 \<or> cmp y z = 0" using yz by linarith
      then show False
      proof
        assume "cmp y z < 0"
        then have "cmp y x < 0" using D(4) x y z zx by blast
        then show False using yx by simp
      next
        assume "cmp y z = 0"
        then have "cmp x z = 0" using D(3) x y z eq by blast
        then show False using xz by simp
      qed
    qed
  qed
qed

text \<open>
  For a consistent comparison function there is only one arrangement of the elements
  that is sorted and keeps the elements that compare equal in their order, so every
  stable sort returns the list that the insertion sort returns.
\<close>

lemma consistent_both_le:
  assumes cons: "consistent_comparator cmp xs" and x: "x \<in> set xs" and y: "y \<in> set xs"
    and xy: "cmp x y \<le> 0" and yx: "cmp y x \<le> 0"
  shows "cmp x y = 0"
proof (rule ccontr)
  note D = consistent_comparatorD [OF cons]
  assume "cmp x y \<noteq> 0"
  then have lt: "cmp x y < 0" using xy by simp
  have "cmp y x < 0 \<or> cmp y x = 0" using yx by linarith
  then show False
  proof
    assume "cmp y x < 0"
    then have "cmp x x < 0" using D(4) x y lt by blast
    moreover have "cmp x x = 0" using D(1) x by blast
    ultimately show False by simp
  next
    assume "cmp y x = 0"
    then have "cmp x y = 0" using D(2) x y by blast
    then show False using lt by simp
  qed
qed

lemma stable_arrangement_unique:
  assumes cons: "consistent_comparator cmp xs"
    and "set ys \<subseteq> set xs"
    and "mset ys = mset zs"
    and "sorted_wrt (\<lambda>a b. cmp a b \<le> 0) ys"
    and "sorted_wrt (\<lambda>a b. cmp a b \<le> 0) zs"
    and "\<And>a. a \<in> set xs \<Longrightarrow> filter (\<lambda>b. cmp a b = 0) ys = filter (\<lambda>b. cmp a b = 0) zs"
  shows "ys = zs"
  using assms(2-)
proof (induction ys arbitrary: zs)
  case Nil
  then show ?case by simp
next
  case (Cons y ys)
  note D = consistent_comparatorD [OF cons]
  have "zs \<noteq> []" using Cons.prems(2) by auto
  then obtain z zs' where zs: "zs = z # zs'" by (cases zs) auto
  have yin: "y \<in> set xs" using Cons.prems(1) by simp
  have "set_mset (mset (y # ys)) = set_mset (mset zs)" using Cons.prems(2) by simp
  then have sets: "insert y (set ys) = set zs" by simp
  then have zin: "z \<in> set xs" using Cons.prems(1) zs by auto
  have yy: "cmp y y = 0" using D(1) yin by blast
  have yz: "cmp y z \<le> 0"
  proof (cases "z = y")
    case True
    then show ?thesis using yy by simp
  next
    case False
    then have "z \<in> set ys" using sets zs by auto
    then show ?thesis using Cons.prems(3) by simp
  qed
  have zy: "cmp z y \<le> 0"
  proof (cases "y = z")
    case True
    then show ?thesis using yy by simp
  next
    case False
    then have "y \<in> set zs'" using sets zs by auto
    then show ?thesis using Cons.prems(4) zs by simp
  qed
  have eq: "cmp y z = 0" using cons yin zin yz zy by (rule consistent_both_le)
  have "filter (\<lambda>b. cmp y b = 0) (y # ys) = filter (\<lambda>b. cmp y b = 0) zs"
    using Cons.prems(5) [OF yin] .
  then have head: "y = z" using yy eq zs by simp
  have tails: "ys = zs'"
  proof (rule Cons.IH)
    show "set ys \<subseteq> set xs" using Cons.prems(1) by simp
    show "mset ys = mset zs'" using Cons.prems(2) zs head by simp
    show "sorted_wrt (\<lambda>a b. cmp a b \<le> 0) ys" using Cons.prems(3) by simp
    show "sorted_wrt (\<lambda>a b. cmp a b \<le> 0) zs'" using Cons.prems(4) zs by simp
    fix a assume a: "a \<in> set xs"
    have "filter (\<lambda>b. cmp a b = 0) (y # ys) = filter (\<lambda>b. cmp a b = 0) (y # zs')"
      using Cons.prems(5) [OF a] zs head by simp
    then show "filter (\<lambda>b. cmp a b = 0) ys = filter (\<lambda>b. cmp a b = 0) zs'"
      by (cases "cmp a y = 0") simp_all
  qed
  show ?case using head tails zs by simp
qed

lemma stable_sort_is_insertion_sort:
  assumes cons: "consistent_comparator cmp xs"
    and perm: "mset ys = mset xs"
    and sorted: "sorted_wrt (\<lambda>a b. cmp a b \<le> 0) ys"
    and stable: "\<And>a. a \<in> set xs \<Longrightarrow>
                   filter (\<lambda>b. cmp a b = 0) ys = filter (\<lambda>b. cmp a b = 0) xs"
  shows "ys = insertion_sort cmp xs"
proof (rule stable_arrangement_unique [OF cons])
  note D = consistent_comparatorD [OF cons]
  show "set ys \<subseteq> set xs" using mset_eq_setD [OF perm] by simp
  show "mset ys = mset (insertion_sort cmp xs)" using perm by (simp add: mset_insertion_sort)
  show "sorted_wrt (\<lambda>a b. cmp a b \<le> 0) ys" by (rule sorted)
  show "sorted_wrt (\<lambda>a b. cmp a b \<le> 0) (insertion_sort cmp xs)"
    using cons by (rule consistent_sorted)
  fix a assume a: "a \<in> set xs"
  have "filter (\<lambda>b. cmp a b = 0) (insertion_sort cmp xs) = filter (\<lambda>b. cmp a b = 0) xs"
  proof (rule insertion_sort_stable)
    fix x y assume x: "x \<in> set xs" and y: "y \<in> set xs" and ax: "cmp a x = 0" and ay: "cmp a y = 0"
    have "cmp x a = 0" using D(2) a x ax by blast
    then have "cmp x y = 0" using D(3) a x y ay by blast
    then show "cmp x y \<le> 0" by simp
  qed
  then show "filter (\<lambda>b. cmp a b = 0) ys = filter (\<lambda>b. cmp a b = 0) (insertion_sort cmp xs)"
    using stable [OF a] by simp
qed

lemmas sort_eval =
  filteredPolicies_def insertion_sort_def compare_policies_def
  sort_value_def date_sort_value_def policy_field_def policy_matches_def
  matchesValidUntilDate_def toLowerCase_def lower_char_def new_Date_def Let_def
  less_char_def

lemmas example_defs =
  example_env_def example_policy_def no_filters_def iso_day_def days_in_month_def
  no_other_date_def days_from_civil_def
  no_date_of_timestamp_def is_digit_def digits_val_def ms_per_day_def

text \<open>On homogeneous keys the sorted list is the stable arrangement of the filtered
  list.\<close>

lemma sorted_homogeneous:
  assumes xs: "filteredPolicies env f ps = xs"
    and hom: "list_all is_string_val (map (sort_value env col) xs)
              \<or> list_all is_proper_number (map (sort_value env col) xs)"
  shows "filteredAndSortedPolicies engine env f col dir ps
           = insertion_sort (compare_policies env col dir) xs"
  using xs homogeneous_consistent [OF hom, of dir]
  by (simp add: filteredAndSortedPolicies_def filteredPolicies_def js_sort_consistent)

lemma text_date_column_is_date_column: "is_text_date_column col \<Longrightarrow> is_date_column col"
  by (auto simp: is_text_date_column_def is_date_column_def)

lemma date_sort_value_absent:
  "is_date_column col \<Longrightarrow> date_field_absent col a \<Longrightarrow> date_sort_value env col a = Fin 0"
  by (auto simp: date_sort_value_def date_field_absent_def is_date_column_def Let_def)

lemma date_sort_value_present:
  assumes col: "is_text_date_column col" and present: "\<not> date_field_absent col a"
  shows "date_sort_value env col a = time_value (key_time env col a)"
proof -
  have False: "col \<noteq> ''createdAt''" using col by (auto simp: is_text_date_column_def)
  let ?v = "if col = ''policyDate'' then policyDate a else validUntil a"
  have truthy: "str_truthy ?v" using present False by (simp add: date_field_absent_def)
  then obtain s where s: "?v = Some s" by (cases ?v) simp_all
  have "date_sort_value env col a = time_value (new_Date env (the ?v))"
    using False truthy by (simp only: date_sort_value_def Let_def if_False if_True)
  also have "\<dots> = time_value (new_Date env s)" by (simp only: s option.sel)
  also have "\<dots> = time_value (key_time env col a)"
    using False s by (simp only: key_time_def if_False option.case)
  finally show ?thesis .
qed

lemma sort_value_date:
  "is_date_column col \<Longrightarrow> sort_value env col a = JNum (date_sort_value env col a)"
  by (auto simp: sort_value_def is_date_column_def)

lemma date_keys_proper:
  assumes col: "is_text_date_column col" and ok: "all_dates_valid env col xs"
  shows "list_all is_proper_number (map (sort_value env col) xs)"
proof -
  note dcol = text_date_column_is_date_column [OF col]
  have "\<And>a. a \<in> set xs \<Longrightarrow> is_proper_number (sort_value env col a)"
  proof -
    fix a assume "a \<in> set xs"
    then have a: "if date_field_absent col a then True else key_time env col a \<noteq> None"
      using ok by (simp add: all_dates_valid_def list_all_iff)
    show "is_proper_number (sort_value env col a)"
    proof (cases "date_field_absent col a")
      case True
      then show ?thesis using dcol by (simp add: sort_value_date date_sort_value_absent)
    next
      case False
      with a obtain t where "key_time env col a = Some t" by auto
      then show ?thesis using dcol col False
        by (simp add: sort_value_date date_sort_value_present)
    qed
  qed
  then show ?thesis by (simp add: list_all_iff)
qed

lemma absent_below_positive:
  assumes col: "is_text_date_column col"
    and pos: "has_positive_time env col x" and abs: "date_field_absent col y"
  shows "js_lt (sort_value env col y) (sort_value env col x)"
proof -
  note dcol = text_date_column_is_date_column [OF col]
  from pos have present: "\<not> date_field_absent col x"
    by (auto simp: has_positive_time_def split: if_splits)
  with pos obtain t where t: "key_time env col x = Some t" "0 < t"
    by (auto simp: has_positive_time_def split: option.splits)
  have "sort_value env col x = JNum (Fin (real_of_int t))"
    using dcol col present t by (simp add: sort_value_date date_sort_value_present)
  moreover have "sort_value env col y = JNum (Fin 0)"
    using dcol abs by (simp add: sort_value_date date_sort_value_absent)
  ultimately show ?thesis using t(2) by simp
qed

section \<open>Sort direction toggling\<close>

lemma toggle_is_reverse:
  assumes ord: "keys_totally_ordered (map (sort_value env col) xs)"
  shows "js_sort engine (compare_policies env col (toggled dir)) xs
           = rev (js_sort engine (compare_policies env col dir) xs)"
proof -
  have hom: "list_all is_string_val (map (sort_value env col) xs)
             \<or> list_all is_proper_number (map (sort_value env col) xs)"
    using ord by (simp add: keys_totally_ordered_def)
  have js: "js_sort engine (compare_policies env col d) xs
              = insertion_sort (compare_policies env col d) xs" for d
    using homogeneous_consistent [OF hom] by (rule js_sort_consistent)
  show ?thesis
  proof (cases "dir = ''asc''")
    case True
    have "insertion_sort (compare_policies env col ''desc'') xs
            = rev (insertion_sort (compare_policies env col ''asc'') xs)"
      using ord by (rule descending_is_reverse) simp
    then show ?thesis using True by (simp add: toggled_def js)
  next
    case False
    have "insertion_sort (compare_policies env col dir) xs
            = rev (insertion_sort (compare_policies env col ''asc'') xs)"
      using ord False by (rule descending_is_reverse)
    then show ?thesis using False by (simp add: toggled_def js)
  qed
qed

text \<open>
  Claim C8, as amended. Selecting the column that is already the sort column flips the
  direction, and the sorted list then has the same elements as before; selecting another
  column makes it the sort column with ascending direction. When the sort values of the
  listed policies are totally ordered (all strings, or all numbers other than NaN) and
  no two of them are equal, the list after the flip is exactly the reverse of the list
  before it. (With tied values the claim as stated fails: see the counterexample.)
\<close>

theorem handleSort_toggle_reverse:
  "handleSort \<lparr>sortColumn = col, sortDirection = dir\<rparr> col
     = \<lparr>sortColumn = col, sortDirection = toggled dir\<rparr>
   \<and> mset (filteredAndSortedPolicies engine env f col (toggled dir) ps)
       = mset (filteredAndSortedPolicies engine env f col dir ps)
   \<and> (K \<noteq> col \<longrightarrow>
        handleSort \<lparr>sortColumn = col, sortDirection = dir\<rparr> K
          = \<lparr>sortColumn = K, sortDirection = ''asc''\<rparr>)
   \<and> (keys_totally_ordered (map (sort_value env col) (filteredPolicies env f ps)) \<longrightarrow>
        filteredAndSortedPolicies engine env f col (toggled dir) ps
          = rev (filteredAndSortedPolicies engine env f col dir ps))"
proof -
  have flip: "handleSort \<lparr>sortColumn = col, sortDirection = dir\<rparr> col
                = \<lparr>sortColumn = col, sortDirection = toggled dir\<rparr>"
    by (simp add: handleSort_def toggled_def)
  have same: "mset (filteredAndSortedPolicies engine env f col (toggled dir) ps)
                = mset (filteredAndSortedPolicies engine env f col dir ps)"
    by (simp add: filteredAndSortedPolicies_def mset_js_sort)
  have other: "K \<noteq> col \<longrightarrow>
        handleSort \<lparr>sortColumn = col, sortDirection = dir\<rparr> K
          = \<lparr>sortColumn = K, sortDirection = ''asc''\<rparr>"
    by (simp add: handleSort_def)
  have reversed: "keys_totally_ordered (map (sort_value env col) (filteredPolicies env f ps)) \<longrightarrow>
        filteredAndSortedPolicies engine env f col (toggled dir) ps
          = rev (filteredAndSortedPolicies engine env f col dir ps)"
    using toggle_is_reverse [of env col "filter (policy_matches env f) ps" engine dir]
    by (simp add: filteredAndSortedPolicies_def filteredPolicies_def)
  show ?thesis using flip same other reversed by (intro conjI)
qed

theorem handleSort_toggle_reverse_witness:
  "keys_totally_ordered (map (sort_value example_env ''policyType'')
      (filteredPolicies example_env no_filters
         [example_policy ''1'' ''Toll'' None, example_policy ''2'' ''Assessment'' None]))
   \<and> handleSort \<lparr>sortColumn = ''policyType'', sortDirection = ''asc''\<rparr> ''policyType''
       = \<lparr>sortColumn = ''policyType'', sortDirection = ''desc''\<rparr>
   \<and> handleSort \<lparr>sortColumn = ''policyType'', sortDirection = ''asc''\<rparr> ''customer''
       = \<lparr>sortColumn = ''customer'', sortDirection = ''asc''\<rparr>
   \<and> filteredAndSortedPolicies example_engine example_env no_filters ''policyType'' ''asc''
        [example_policy ''1'' ''Toll'' None, example_policy ''2'' ''Assessment'' None]
       = [example_policy ''2'' ''Assessment'' None, example_policy ''1'' ''Toll'' None]
   \<and> filteredAndSortedPolicies example_engine example_env no_filters ''policyType'' ''desc''
        [example_policy ''1'' ''Toll'' None, example_policy ''2'' ''Assessment'' None]
       = rev (filteredAndSortedPolicies example_engine example_env no_filters ''policyType'' ''asc''
               [example_policy ''1'' ''Toll'' None, example_policy ''2'' ''Assessment'' None])"
proof -
  let ?ps = "[example_policy ''1'' ''Toll'' None, example_policy ''2'' ''Assessment'' None]"
  have x: "filteredPolicies example_env no_filters ?ps = ?ps"
    by (simp add: sort_eval example_defs)
  have hom: "list_all is_string_val (map (sort_value example_env ''policyType'') ?ps)
             \<or> list_all is_proper_number (map (sort_value example_env ''policyType'') ?ps)"
    by (simp add: sort_value_def policy_field_def example_policy_def)
  have h: "keys_totally_ordered (map (sort_value example_env ''policyType'')
             (filteredPolicies example_env no_filters ?ps))"
    by (simp add: x) (simp add: keys_totally_ordered_def sort_eval example_defs)
  have "insertion_sort (compare_policies example_env ''policyType'' ''asc'') ?ps
          = [example_policy ''2'' ''Assessment'' None, example_policy ''1'' ''Toll'' None]"
    by (simp add: sort_eval example_defs)
  then have s: "filteredAndSortedPolicies example_engine example_env no_filters ''policyType'' ''asc'' ?ps
             = [example_policy ''2'' ''Assessment'' None, example_policy ''1'' ''Toll'' None]"
    by (simp add: sorted_homogeneous [OF x hom])
  have k: "''customer'' \<noteq> ''policyType''" by simp
  show ?thesis
    using handleSort_toggle_reverse [of "''policyType''" "''asc''" example_engine example_env
        no_filters ?ps "''customer''"] h s k
    by (simp add: toggled_def)
qed

theorem handleSort_toggle_ties_counterexample:
  "handleSort \<lparr>sortColumn = ''policyType'', sortDirection = ''asc''\<rparr> ''policyType''
     = \<lparr>sortColumn = ''policyType'', sortDirection = ''desc''\<rparr>
   \<and> filteredAndSortedPolicies example_engine example_env no_filters ''policyType'' ''asc''
        [example_policy ''1'' ''Toll'' None, example_policy ''2'' ''Toll'' None]
       = [example_policy ''1'' ''Toll'' None, example_policy ''2'' ''Toll'' None]
   \<and> filteredAndSortedPolicies example_engine example_env no_filters ''policyType'' ''desc''
        [example_policy ''1'' ''Toll'' None, example_policy ''2'' ''Toll'' None]
       = [example_policy ''1'' ''Toll'' None, example_policy ''2'' ''Toll'' None]
   \<and> filteredAndSortedPolicies example_engine example_env no_filters ''policyType'' ''desc''
        [example_policy ''1'' ''Toll'' None, example_policy ''2'' ''Toll'' None]
       \<noteq> rev (filteredAndSortedPolicies example_engine example_env no_filters ''policyType'' ''asc''
               [example_policy ''1'' ''Toll'' None, example_policy ''2'' ''Toll'' None])"
proof -
  let ?ps = "[example_policy ''1'' ''Toll'' None, example_policy ''2'' ''Toll'' None]"
  have x: "filteredPolicies example_env no_filters ?ps = ?ps"
    by (simp add: sort_eval example_defs)
  have hom: "list_all is_string_val (map (sort_value example_env ''policyType'') ?ps)
             \<or> list_all is_proper_number (map (sort_value example_env ''policyType'') ?ps)"
    by (simp add: sort_value_def policy_field_def example_policy_def)
  have "insertion_sort (compare_policies example_env ''policyType'' d) ?ps = ?ps" for d
    by (simp add: sort_eval example_defs)
  then have s: "filteredAndSortedPolicies example_engine example_env no_filters ''policyType'' d ?ps
                  = ?ps" for d
    by (simp add: sorted_homogeneous [OF x hom])
  have ne: "example_policy ''1'' ''Toll'' None \<noteq> example_policy ''2'' ''Toll'' None"
    by (simp add: example_policy_def)
  show ?thesis
    using ne by (simp add: s handleSort_def)
qed

section \<open>Sort stability\<close>

text \<open>
  The comparator is consistent on the policies that the two forms write, for every column
  that can be selected: policy number, customer and policy type give strings, the total
  amount is a number other than NaN, and the two dates are dates. It is also consistent
  for createdAt, the column of the initial state, when \<^verbatim>\<open>new Date\<close> makes no date of a
  store timestamp, because it then calls all policies equal.
\<close>

lemma selected_column_consistent:
  assumes amounts: "list_all (\<lambda>p. is_proper_number (totalAmount p)) xs"
    and dates: "all_dates_valid env ''policyDate'' xs" "all_dates_valid env ''validUntil'' xs"
    and col: "col \<in> set sortable_columns"
  shows "consistent_comparator (compare_policies env col dir) xs"
proof -
  have "list_all is_string_val (map (sort_value env col) xs)
        \<or> list_all is_proper_number (map (sort_value env col) xs)"
  proof -
    from col have "col = ''policyNumber'' \<or> col = ''customer'' \<or> col = ''policyType''
        \<or> col = ''totalAmount'' \<or> col = ''policyDate'' \<or> col = ''validUntil''"
      by (simp add: sortable_columns_def)
    then show ?thesis
    proof (elim disjE)
      assume "col = ''policyNumber''"
      then show ?thesis by (simp add: sort_value_def policy_field_def list_all_iff)
    next
      assume "col = ''customer''"
      then show ?thesis by (simp add: sort_value_def list_all_iff)
    next
      assume "col = ''policyType''"
      then show ?thesis by (simp add: sort_value_def policy_field_def list_all_iff)
    next
      assume c: "col = ''totalAmount''"
      have "is_proper_number (sort_value env ''totalAmount'' p)" if "p \<in> set xs" for p
      proof -
        have "is_proper_number (totalAmount p)"
          using amounts that by (simp add: list_all_iff)
        then show ?thesis
          by (cases "totalAmount p") (simp_all add: sort_value_def policy_field_def)
      qed
      then show ?thesis using c by (simp add: list_all_iff)
    next
      assume "col = ''policyDate''"
      then show ?thesis
        using date_keys_proper [of "''policyDate''" env xs] dates(1)
        by (simp add: is_text_date_column_def)
    next
      assume "col = ''validUntil''"
      then show ?thesis
        using date_keys_proper [of "''validUntil''" env xs] dates(2)
        by (simp add: is_text_date_column_def)
    qed
  qed
  then show ?thesis by (rule homogeneous_consistent)
qed

lemma createdAt_compare_zero:
  assumes "\<And>ts. date_of_timestamp env ts = None"
  shows "compare_policies env ''createdAt'' dir a b = 0"
proof -
  have v: "sort_value env ''createdAt'' p = JNum NaN \<or> sort_value env ''createdAt'' p = JNum (Fin 0)"
    for p
    using assms by (cases "createdAt p") (simp_all add: sort_value_def date_sort_value_def)
  show ?thesis
    using v [of a] v [of b] by (auto simp: compare_eq0)
qed

lemma createdAt_consistent:
  assumes "\<And>ts. date_of_timestamp env ts = None"
  shows "consistent_comparator (compare_policies env ''createdAt'' dir) xs"
  by (rule all_equal_consistent) (rule createdAt_compare_zero [OF assms])

text \<open>
  Claim C9. For every list of policies, every sort column and every direction for which
  the comparator is a consistent comparison function on the listed policies, which is
  what the built-in sort asks of it: two policies that compare equal under the selected
  column (the comparator returns 0 on their normalised sort values) appear in the sorted
  list in the relative order they had in the list that was sorted. In particular the
  policies that share one normalised sort value appear in their previous order. The
  comparator is consistent on all policies written by the two forms and for all columns
  of the table (lemmas \<open>selected_column_consistent\<close> and \<open>createdAt_consistent\<close>).
\<close>

theorem sort_is_stable:
  assumes cons: "consistent_comparator (compare_policies env col dir) (filteredPolicies env f ps)"
    and tie: "compare_policies env col dir a b = 0"
  shows "filter (\<lambda>p. p = a \<or> p = b) (filteredAndSortedPolicies engine env f col dir ps)
           = filter (\<lambda>p. p = a \<or> p = b) (filteredPolicies env f ps)
       \<and> filter (\<lambda>p. sort_value env col p = v) (filteredAndSortedPolicies engine env f col dir ps)
           = filter (\<lambda>p. sort_value env col p = v) (filteredPolicies env f ps)"
proof -
  let ?cmp = "compare_policies env col dir"
  let ?xs = "filter (policy_matches env f) ps"
  have js: "js_sort engine ?cmp ?xs = insertion_sort ?cmp ?xs"
    using cons by (simp add: js_sort_consistent filteredPolicies_def)
  have ba: "?cmp b a = 0" using tie by (auto simp: compare_eq0)
  have refl: "\<And>x. ?cmp x x = 0" by (simp add: compare_eq0 js_lt_irrefl)
  have pair: "filter (\<lambda>p. p = a \<or> p = b) (insertion_sort ?cmp ?xs)
          = filter (\<lambda>p. p = a \<or> p = b) ?xs"
  proof (rule insertion_sort_stable)
    fix x y assume "x = a \<or> x = b" and "y = a \<or> y = b"
    then show "?cmp x y \<le> 0" using tie ba refl by auto
  qed
  have same: "filter (\<lambda>p. sort_value env col p = v) (insertion_sort ?cmp ?xs)
          = filter (\<lambda>p. sort_value env col p = v) ?xs"
  proof (rule insertion_sort_stable)
    fix x y assume "sort_value env col x = v" and "sort_value env col y = v"
    then have "?cmp x y = 0" by (simp add: compare_eq0 js_lt_irrefl)
    then show "?cmp x y \<le> 0" by simp
  qed
  show ?thesis
    using pair same js by (simp add: filteredAndSortedPolicies_def filteredPolicies_def)
qed

theorem sort_is_stable_witness:
  "consistent_comparator (compare_policies example_env ''policyType'' ''asc'')
      (filteredPolicies example_env no_filters
         [example_policy ''1'' ''Toll'' None, example_policy ''2'' ''TOLL'' None,
          example_policy ''3'' ''Assessment'' None])
   \<and> compare_policies example_env ''policyType'' ''asc''
      (example_policy ''1'' ''Toll'' None) (example_policy ''2'' ''TOLL'' None) = 0
   \<and> filteredAndSortedPolicies example_engine example_env no_filters ''policyType'' ''asc''
        [example_policy ''1'' ''Toll'' None, example_policy ''2'' ''TOLL'' None,
         example_policy ''3'' ''Assessment'' None]
       = [example_policy ''3'' ''Assessment'' None, example_policy ''1'' ''Toll'' None,
          example_policy ''2'' ''TOLL'' None]
   \<and> filter (\<lambda>p. p = example_policy ''1'' ''Toll'' None \<or> p = example_policy ''2'' ''TOLL'' None)
        (filteredAndSortedPolicies example_engine example_env no_filters ''policyType'' ''asc''
           [example_policy ''1'' ''Toll'' None, example_policy ''2'' ''TOLL'' None,
            example_policy ''3'' ''Assessment'' None])
       = filter (\<lambda>p. p = example_policy ''1'' ''Toll'' None \<or> p = example_policy ''2'' ''TOLL'' None)
           (filteredPolicies example_env no_filters
              [example_policy ''1'' ''Toll'' None, example_policy ''2'' ''TOLL'' None,
               example_policy ''3'' ''Assessment'' None])"
proof -
  let ?ps = "[example_policy ''1'' ''Toll'' None, example_policy ''2'' ''TOLL'' None,
              example_policy ''3'' ''Assessment'' None]"
  have x: "filteredPolicies example_env no_filters ?ps = ?ps"
    by (simp add: sort_eval example_defs)
  have hom: "list_all is_string_val (map (sort_value example_env ''policyType'') ?ps)
             \<or> list_all is_proper_number (map (sort_value example_env ''policyType'') ?ps)"
    by (simp add: sort_value_def policy_field_def example_policy_def)
  have c: "consistent_comparator (compare_policies example_env ''policyType'' ''asc'')
             (filteredPolicies example_env no_filters ?ps)"
    using homogeneous_consistent [OF hom] by (simp add: x)
  have h: "compare_policies example_env ''policyType'' ''asc''
      (example_policy ''1'' ''Toll'' None) (example_policy ''2'' ''TOLL'' None) = 0"
    by (simp add: sort_eval example_defs)
  have "insertion_sort (compare_policies example_env ''policyType'' ''asc'') ?ps
          = [example_policy ''3'' ''Assessment'' None, example_policy ''1'' ''Toll'' None,
             example_policy ''2'' ''TOLL'' None]"
    by (simp add: sort_eval example_defs)
  then have s: "filteredAndSortedPolicies example_engine example_env no_filters ''policyType'' ''asc'' ?ps
       = [example_policy ''3'' ''Assessment'' None, example_policy ''1'' ''Toll'' None,
          example_policy ''2'' ''TOLL'' None]"
    by (simp add: sorted_homogeneous [OF x hom])
  show ?thesis
    using sort_is_stable [OF c h, where engine = example_engine and v = "JStr ''toll''"] c h s
    by simp
qed

section \<open>Policies without a date\<close>

text \<open>
  For the two date columns that hold a date text (policyDate and validUntil): a policy
  that lacks the key gets the time value 0, and if every key that is present in the list
  is a date, then in ascending direction no policy whose key holds a positive time comes
  before a policy that lacks the key, and in descending direction no policy that lacks
  the key comes before such a policy.
\<close>

theorem absent_text_dates_sort_first:
  assumes col: "is_text_date_column col"
    and ok: "all_dates_valid env col (filteredPolicies env f ps)"
    and desc: "dir \<noteq> ''asc''"
  shows "(if date_field_absent col a then date_sort_value env col a = Fin 0 else True)
       \<and> sorted_wrt (\<lambda>x y. \<not> (has_positive_time env col x \<and> date_field_absent col y))
           (filteredAndSortedPolicies engine env f col ''asc'' ps)
       \<and> sorted_wrt (\<lambda>x y. \<not> (date_field_absent col x \<and> has_positive_time env col y))
           (filteredAndSortedPolicies engine env f col dir ps)"
proof -
  let ?xs = "filter (policy_matches env f) ps"
  note dcol = text_date_column_is_date_column [OF col]
  have ok': "all_dates_valid env col ?xs" using ok by (simp add: filteredPolicies_def)
  have hom: "list_all is_string_val (map (sort_value env col) ?xs)
             \<or> list_all is_proper_number (map (sort_value env col) ?xs)"
    using date_keys_proper [OF col ok'] by simp
  have js: "js_sort engine (compare_policies env col d) ?xs
              = insertion_sort (compare_policies env col d) ?xs" for d
    using homogeneous_consistent [OF hom] by (rule js_sort_consistent)
  have asc: "sorted_wrt (\<lambda>a b. \<not> js_lt (sort_value env col b) (sort_value env col a))
               (insertion_sort (compare_policies env col ''asc'') ?xs)"
    using hom by (rule sorted_ascending)
  have dsc: "sorted_wrt (\<lambda>a b. \<not> js_lt (sort_value env col a) (sort_value env col b))
               (insertion_sort (compare_policies env col dir) ?xs)"
    using hom desc by (rule sorted_descending)
  have first: "sorted_wrt (\<lambda>x y. \<not> (has_positive_time env col x \<and> date_field_absent col y))
                 (insertion_sort (compare_policies env col ''asc'') ?xs)"
    using asc
  proof (rule sorted_wrt_mono_rel [rotated])
    fix x y assume "\<not> js_lt (sort_value env col y) (sort_value env col x)"
    then show "\<not> (has_positive_time env col x \<and> date_field_absent col y)"
      using absent_below_positive [OF col, of env x y] by blast
  qed
  have last: "sorted_wrt (\<lambda>x y. \<not> (date_field_absent col x \<and> has_positive_time env col y))
                (insertion_sort (compare_policies env col dir) ?xs)"
    using dsc
  proof (rule sorted_wrt_mono_rel [rotated])
    fix x y assume "\<not> js_lt (sort_value env col x) (sort_value env col y)"
    then show "\<not> (date_field_absent col x \<and> has_positive_time env col y)"
      using absent_below_positive [OF col, of env y x] by blast
  qed
  show ?thesis
    using first last dcol
    by (simp add: filteredAndSortedPolicies_def date_sort_value_absent js)
qed



section \<open>Stored amounts\<close>

lemmas gateway_eval =
  handleAddPolicy_def handleUpdatePolicy_def handleDeletePolicy_def add_payload_def
  update_payload_def signed_in_def signed_out_def reliable_store_def failing_store_def
  example_form_def required_field_empty_def session_ready_def

lemmas parse_eval =
  parseFloat_str_def str_decimal_def str_unsigned_def exponent_part_def scale10_def
  is_ws_def is_digit_def digits_val_def or_zero_def numeric_or_zero_def has_numeric_prefix_def
  Let_def

lemma numeric_or_zero_not_NaN: "numeric_or_zero v \<noteq> NaN"
  by (cases "parseFloat v") (simp_all add: numeric_or_zero_def)

lemma str_unsigned_not_NaN: "str_unsigned t = Some (n, r) \<Longrightarrow> n \<noteq> NaN"
  by (auto simp: str_unsigned_def Let_def split: if_splits)

lemma nneg_NaN: "(nneg n = NaN) = (n = NaN)"
  by (cases n) simp_all

lemma str_decimal_not_NaN: "str_decimal t = Some (n, r) \<Longrightarrow> n \<noteq> NaN"
  by (auto simp: str_decimal_def nneg_NaN split: list.splits if_splits
      dest: str_unsigned_not_NaN)

lemma parseFloat_str_NaN: "(parseFloat_str t = NaN) = (\<not> has_numeric_prefix t)"
  by (auto simp: parseFloat_str_def has_numeric_prefix_def split: option.splits
      dest: str_decimal_not_NaN)

subsection \<open>The text of a number input parses to a number\<close>

text \<open>A text that starts with a digit or a point and has a digit before or after the
  point is read as a number.\<close>

lemma mantissa_head:
  assumes "float_mantissa_ok body"
  shows "body \<noteq> [] \<and> (is_digit (hd body) \<or> hd body = CHR ''.'')"
proof (cases body)
  case Nil
  then show ?thesis using assms by (simp add: float_mantissa_ok_def)
next
  case (Cons c r)
  then show ?thesis
    using assms by (cases "is_digit c") (simp_all add: float_mantissa_ok_def split: if_splits)
qed

lemma str_unsigned_finite:
  assumes "float_mantissa_ok body"
  shows "\<exists>m r. str_unsigned body = Some (Fin m, r)"
proof -
  from mantissa_head [OF assms] obtain c rest where body: "body = c # rest"
    and c: "is_digit c \<or> c = CHR ''.''"
    by (cases body) auto
  have "c \<noteq> CHR ''I''" using c by (auto simp: is_digit_def)
  then have no_inf: "take 8 body \<noteq> ''Infinity''" using body by auto
  have some: "\<not> (takeWhile is_digit body = []
                  \<and> (if dropWhile is_digit body \<noteq> [] \<and> hd (dropWhile is_digit body) = CHR ''.''
                      then takeWhile is_digit (tl (dropWhile is_digit body)) else []) = [])"
    using assms unfolding float_mantissa_ok_def by (cases "dropWhile is_digit body \<noteq> [] \<and> hd (dropWhile is_digit body) = CHR ''.''") simp_all
  show ?thesis
    using no_inf some unfolding str_unsigned_def Let_def by (simp only: if_False) blast
qed

lemma valid_float_text_parses:
  assumes "valid_float_text s"
  shows "parseFloat_str s \<noteq> NaN"
proof -
  let ?body = "if s \<noteq> [] \<and> hd s = CHR ''-'' then tl s else s"
  have m: "float_mantissa_ok ?body"
    using assms by (simp add: valid_float_text_def Let_def)
  from str_unsigned_finite [OF m] obtain x r where u: "str_unsigned ?body = Some (Fin x, r)"
    by blast
  from mantissa_head [OF m] have b: "?body \<noteq> []"
    and h: "is_digit (hd ?body) \<or> hd ?body = CHR ''.''" by simp_all
  from b obtain c rest where s: "s = c # rest" by (cases s) (auto split: if_splits)
  show ?thesis
  proof (cases "c = CHR ''-''")
    case True
    then have "dropWhile is_ws s = s" using s by (simp add: is_ws_def)
    moreover have "str_decimal s = Some (Fin (- x), r)"
      using True s u by (simp add: str_decimal_def)
    ultimately show ?thesis by (simp add: parseFloat_str_def)
  next
    case False
    then have body: "?body = s" using s by simp
    have c: "is_digit c \<or> c = CHR ''.''" using h body s by simp
    then have "\<not> is_ws c" and "c \<noteq> CHR ''+''"
      by (auto simp: is_digit_def is_ws_def)
    then have "dropWhile is_ws s = s" and "str_decimal s = Some (Fin x, r)"
      using False s u body by (simp_all add: str_decimal_def)
    then show ?thesis by (simp add: parseFloat_str_def)
  qed
qed

lemma edit_form_amount_parses: "edit_form_amount v \<Longrightarrow> parseFloat v \<noteq> NaN"
  by (cases v) (simp_all add: valid_float_text_parses)

text \<open>
  Claim C5. In every create request issued by addPolicy and every update request issued
  by updatePolicy, the total amount is the input parsed as a float and the commission is
  the input parsed as a float, with 0 for an absent or non-numeric input; the stored
  commission is never NaN. The total amount arrives from an input of type number. With
  the value of such an input (for addPolicy), and with the stored Number or the value of
  such an input (for updatePolicy), the stored total amount is a number and not NaN: no
  policy is stored with a non-numeric total amount or commission.
\<close>

theorem stored_amounts:
  "(AddPolicyDoc pl \<in> set (requests (handleAddPolicy s store f)) \<longrightarrow>
       pl_totalAmount pl = parseFloat (JStr (form_totalAmount f))
     \<and> pl_commission pl = numeric_or_zero (JStr (form_commission f))
     \<and> pl_commission pl \<noteq> NaN
     \<and> (number_input_value (form_totalAmount f) \<longrightarrow> pl_totalAmount pl \<noteq> NaN))
   \<and> (UpdatePolicyDoc i pl' \<in> set (requests (handleUpdatePolicy s store u)) \<longrightarrow>
       pl_totalAmount pl' = parseFloat (totalAmount u)
     \<and> pl_commission pl' = numeric_or_zero (commission u)
     \<and> pl_commission pl' \<noteq> NaN
     \<and> (edit_form_amount (totalAmount u) \<longrightarrow> pl_totalAmount pl' \<noteq> NaN))"
proof -
  have add: "AddPolicyDoc pl \<in> set (requests (handleAddPolicy s store f)) \<Longrightarrow>
      pl = add_payload f \<and> form_totalAmount f \<noteq> []"
    by (auto simp: handleAddPolicy_def split: if_splits option.splits)
  have upd: "UpdatePolicyDoc i pl' \<in> set (requests (handleUpdatePolicy s store u)) \<Longrightarrow>
      \<exists>c. pl' = update_payload u c"
    by (auto simp: handleUpdatePolicy_def split: if_splits option.splits)
  have a: "pl_totalAmount (add_payload f) = parseFloat (JStr (form_totalAmount f))
      \<and> pl_commission (add_payload f) = numeric_or_zero (JStr (form_commission f))
      \<and> pl_commission (add_payload f) \<noteq> NaN"
    using or_zero_numeric [of "JStr (form_commission f)"]
      numeric_or_zero_not_NaN [of "JStr (form_commission f)"]
    by (simp add: add_payload_def)
  have a_fin: "form_totalAmount f \<noteq> [] \<Longrightarrow> number_input_value (form_totalAmount f) \<Longrightarrow>
      pl_totalAmount (add_payload f) \<noteq> NaN"
    by (simp add: add_payload_def number_input_value_def valid_float_text_parses)
  have b: "\<And>c. pl_totalAmount (update_payload u c) = parseFloat (totalAmount u)
      \<and> pl_commission (update_payload u c) = numeric_or_zero (commission u)
      \<and> pl_commission (update_payload u c) \<noteq> NaN"
    using or_zero_numeric [of "commission u"] numeric_or_zero_not_NaN [of "commission u"]
    by (simp add: update_payload_def)
  have b_fin: "\<And>c. edit_form_amount (totalAmount u) \<Longrightarrow>
      pl_totalAmount (update_payload u c) \<noteq> NaN"
    by (simp add: update_payload_def edit_form_amount_parses)
  have first: "AddPolicyDoc pl \<in> set (requests (handleAddPolicy s store f)) \<longrightarrow>
       pl_totalAmount pl = parseFloat (JStr (form_totalAmount f))
     \<and> pl_commission pl = numeric_or_zero (JStr (form_commission f))
     \<and> pl_commission pl \<noteq> NaN
     \<and> (number_input_value (form_totalAmount f) \<longrightarrow> pl_totalAmount pl \<noteq> NaN)"
    using add a a_fin by blast
  have second: "UpdatePolicyDoc i pl' \<in> set (requests (handleUpdatePolicy s store u)) \<longrightarrow>
       pl_totalAmount pl' = parseFloat (totalAmount u)
     \<and> pl_commission pl' = numeric_or_zero (commission u)
     \<and> pl_commission pl' \<noteq> NaN
     \<and> (edit_form_amount (totalAmount u) \<longrightarrow> pl_totalAmount pl' \<noteq> NaN)"
    using upd b b_fin by blast
  show ?thesis using first second by (rule conjI)
qed

theorem stored_amounts_witness:
  "AddPolicyDoc (add_payload (example_form ''PN-7'' ''120.50'' []))
     \<in> set (requests (handleAddPolicy signed_in reliable_store (example_form ''PN-7'' ''120.50'' [])))
   \<and> number_input_value (form_totalAmount (example_form ''PN-7'' ''120.50'' []))
   \<and> pl_totalAmount (add_payload (example_form ''PN-7'' ''120.50'' [])) \<noteq> NaN
   \<and> pl_totalAmount (add_payload (example_form ''PN-7'' ''120.50'' [])) = Fin 120.5
   \<and> pl_commission (add_payload (example_form ''PN-7'' ''120.50'' [])) = Fin 0
   \<and> UpdatePolicyDoc ''1'' (update_payload edited_policy (example_customer ''A1''))
     \<in> set (requests (handleUpdatePolicy signed_in reliable_store edited_policy))
   \<and> edit_form_amount (totalAmount edited_policy)
   \<and> pl_totalAmount (update_payload edited_policy (example_customer ''A1'')) \<noteq> NaN
   \<and> pl_totalAmount (update_payload edited_policy (example_customer ''A1'')) = Fin 99
   \<and> pl_commission (update_payload edited_policy (example_customer ''A1'')) = Fin 0"
proof -
  have a: "AddPolicyDoc (add_payload (example_form ''PN-7'' ''120.50'' []))
     \<in> set (requests (handleAddPolicy signed_in reliable_store (example_form ''PN-7'' ''120.50'' [])))"
    by (simp add: handleAddPolicy_def signed_in_def reliable_store_def example_form_def)
  have u: "UpdatePolicyDoc ''1'' (update_payload edited_policy (example_customer ''A1''))
     \<in> set (requests (handleUpdatePolicy signed_in reliable_store edited_policy))"
    by (simp add: handleUpdatePolicy_def signed_in_def reliable_store_def edited_policy_def
        example_policy_def)
  have n: "number_input_value (form_totalAmount (example_form ''PN-7'' ''120.50'' []))"
    by (simp add: example_form_def number_input_value_def valid_float_text_def float_mantissa_ok_def
        float_exponent_ok_def after_mantissa_def is_digit_def Let_def)
  have n': "edit_form_amount (totalAmount edited_policy)"
    by (simp add: edited_policy_def example_policy_def valid_float_text_def
        float_mantissa_ok_def float_exponent_ok_def after_mantissa_def is_digit_def Let_def)
  have t: "parseFloat (JStr (form_totalAmount (example_form ''PN-7'' ''120.50'' []))) = Fin 120.5"
    by (simp add: example_form_def parse_eval)
  have c: "numeric_or_zero (JStr (form_commission (example_form ''PN-7'' ''120.50'' []))) = Fin 0"
    by (simp add: example_form_def parse_eval)
  have t': "parseFloat (totalAmount edited_policy) = Fin 99"
    by (simp add: edited_policy_def example_policy_def parse_eval)
  have c': "numeric_or_zero (commission edited_policy) = Fin 0"
    by (simp add: edited_policy_def example_policy_def numeric_or_zero_def)
  show ?thesis
    using stored_amounts [of "add_payload (example_form ''PN-7'' ''120.50'' [])" signed_in
        reliable_store "example_form ''PN-7'' ''120.50'' []" "''1''"
        "update_payload edited_policy (example_customer ''A1'')" edited_policy]
      a u n n' t c t' c'
    by simp
qed

text \<open>The handlers themselves do not look at the text: a total amount that is no number
  would be stored as NaN. The number input is what keeps such a text away from them.\<close>

lemma stored_amounts_rest_on_the_input:
  "requests (handleAddPolicy signed_in reliable_store (example_form ''PN-7'' ''abc'' ''10''))
     = [AddPolicyDoc (add_payload (example_form ''PN-7'' ''abc'' ''10''))]
   \<and> \<not> number_input_value ''abc''
   \<and> pl_totalAmount (add_payload (example_form ''PN-7'' ''abc'' ''10'')) = NaN"
  by (simp add: gateway_eval parse_eval number_input_value_def valid_float_text_def
      float_mantissa_ok_def)

section \<open>Adding a policy\<close>

text \<open>
  Claim C7. The form is drawn for a signed-in user only, so the handler runs in a session
  in which the guard at its head passes. In such a session: for every form in which one
  of policy number, total amount, policy date, valid until, first name or last name is
  empty, the operation reports the validation message and issues no request to the
  store; for every form in which all six are non-empty, it issues exactly one create
  request, whose total amount is the input parsed as a float, whose commission is the
  input parsed as a float with 0 as default, and which asks the store for the creation
  timestamp. A form with an empty required field issues no request in any session.
\<close>

theorem addPolicy_validation:
  assumes ready: "session_ready s"
  shows "(required_field_empty f \<longrightarrow>
            handleAddPolicy s store f
              = \<lparr> requests = [], modalMessage = Some msg_required_fields \<rparr>
            \<and> requests (handleAddPolicy s' store f) = [])
       \<and> (\<not> required_field_empty f \<longrightarrow>
            requests (handleAddPolicy s store f) = [AddPolicyDoc (add_payload f)]
            \<and> pl_totalAmount (add_payload f) = parseFloat (JStr (form_totalAmount f))
            \<and> pl_commission (add_payload f) = numeric_or_zero (JStr (form_commission f))
            \<and> pl_createdAt (add_payload f) = True)"
proof -
  have r: "db s" "str_truthy (userId s)" using ready by (simp_all add: session_ready_def)
  have empty: "required_field_empty f \<Longrightarrow>
      handleAddPolicy s store f = \<lparr> requests = [], modalMessage = Some msg_required_fields \<rparr>"
    using r by (simp add: handleAddPolicy_def required_field_empty_def)
  have filled: "\<not> required_field_empty f \<Longrightarrow>
      requests (handleAddPolicy s store f) = [AddPolicyDoc (add_payload f)]"
    using r by (simp add: handleAddPolicy_def required_field_empty_def split: option.splits)
  have payload: "pl_totalAmount (add_payload f) = parseFloat (JStr (form_totalAmount f))
      \<and> pl_commission (add_payload f) = numeric_or_zero (JStr (form_commission f))
      \<and> pl_createdAt (add_payload f) = True"
    using or_zero_numeric [of "JStr (form_commission f)"] by (simp add: add_payload_def)
  have any: "required_field_empty f \<Longrightarrow> requests (handleAddPolicy s' store f) = []"
    by (simp add: handleAddPolicy_def required_field_empty_def)
  show ?thesis using empty filled payload any by simp
qed

theorem addPolicy_validation_witness:
  "session_ready signed_in
   \<and> required_field_empty (example_form [] ''100'' ''10'')
   \<and> handleAddPolicy signed_in reliable_store (example_form [] ''100'' ''10'')
       = \<lparr> requests = [], modalMessage = Some msg_required_fields \<rparr>
   \<and> \<not> required_field_empty (example_form ''PN-7'' ''120.50'' [])
   \<and> requests (handleAddPolicy signed_in reliable_store (example_form ''PN-7'' ''120.50'' []))
       = [AddPolicyDoc (add_payload (example_form ''PN-7'' ''120.50'' []))]
   \<and> pl_totalAmount (add_payload (example_form ''PN-7'' ''120.50'' [])) = Fin 120.5
   \<and> pl_commission (add_payload (example_form ''PN-7'' ''120.50'' [])) = Fin 0
   \<and> pl_createdAt (add_payload (example_form ''PN-7'' ''120.50'' [])) = True"
proof -
  have h: "session_ready signed_in" by (simp add: session_ready_def signed_in_def)
  have e: "required_field_empty (example_form [] ''100'' ''10'')"
    by (simp add: required_field_empty_def example_form_def)
  have n: "\<not> required_field_empty (example_form ''PN-7'' ''120.50'' [])"
    by (simp add: required_field_empty_def example_form_def)
  have t: "parseFloat (JStr (form_totalAmount (example_form ''PN-7'' ''120.50'' []))) = Fin 120.5"
    by (simp add: example_form_def parse_eval)
  have c: "numeric_or_zero (JStr (form_commission (example_form ''PN-7'' ''120.50'' []))) = Fin 0"
    by (simp add: example_form_def parse_eval)
  show ?thesis
    using addPolicy_validation [OF h, of "example_form [] ''100'' ''10''" reliable_store signed_in]
      addPolicy_validation [OF h, of "example_form ''PN-7'' ''120.50'' []" reliable_store signed_in]
      h e n t c
    by simp
qed

text \<open>Outside such a session the guard answers first, whatever the form holds.\<close>

lemma addPolicy_not_ready:
  "\<not> session_ready s \<Longrightarrow>
   handleAddPolicy s store f = \<lparr> requests = [], modalMessage = Some msg_not_authenticated \<rparr>"
  by (auto simp: handleAddPolicy_def session_ready_def)

section \<open>Cascade delete\<close>

lemma policies_try_delete:
  "stored_policies (foldl (try_delete_entry store) d ids) = stored_policies d"
  by (induction ids arbitrary: d)
    (simp_all add: try_delete_entry_def delete_entry_doc_def split: option.splits)

lemma entries_try_delete:
  "stored_entries (foldl (try_delete_entry store) d ids)
     = filter (\<lambda>e. \<not> (entry_id e \<in> set ids \<and> store (DeleteEntryDoc (entry_id e)) = None))
         (stored_entries d)"
proof (induction ids arbitrary: d)
  case Nil
  show ?case by simp
next
  case (Cons i ids)
  show ?case
  proof (cases "store (DeleteEntryDoc i)")
    case None
    have "stored_entries (try_delete_entry store d i)
            = filter (\<lambda>e. entry_id e \<noteq> i) (stored_entries d)"
      using None by (simp add: try_delete_entry_def delete_entry_doc_def)
    then show ?thesis using None by (auto simp: Cons.IH intro: filter_cong)
  next
    case (Some err)
    have "try_delete_entry store d i = d" using Some by (simp add: try_delete_entry_def)
    then show ?thesis using Some by (auto simp: Cons.IH intro: filter_cong)
  qed
qed

text \<open>With a snapshot that agrees with the store, the identifiers taken from the
  snapshot's entries of a policy belong, in the store, to entries of that policy.\<close>

lemma related_ids_linked:
  assumes agrees: "snapshot_agrees snapshot d" and e: "e \<in> set (stored_entries d)"
    and i: "entry_id e \<in> set (map entry_id (filter (\<lambda>item. policyId item = Some pid) snapshot))"
  shows "policyId e = Some pid"
proof -
  from i obtain x where x: "x \<in> set snapshot" "policyId x = Some pid" "entry_id x = entry_id e"
    by auto
  have "policyId x = policyId e"
    using agrees e x(1,3) by (simp add: snapshot_agrees_def list_all_iff)
  then show ?thesis using x(2) by simp
qed

lemma related_ids_cover:
  assumes agrees: "snapshot_agrees snapshot d" and covers: "snapshot_covers snapshot d pid"
    and e: "e \<in> set (stored_entries d)" and l: "policyId e = Some pid"
  shows "entry_id e \<in> set (map entry_id (filter (\<lambda>item. policyId item = Some pid) snapshot))"
proof -
  have "entry_id e \<in> set (map entry_id snapshot)"
    using covers e l by (simp add: snapshot_covers_def list_all_iff)
  then obtain x where x: "x \<in> set snapshot" "entry_id x = entry_id e" by auto
  have "policyId x = policyId e"
    using agrees e x by (simp add: snapshot_agrees_def list_all_iff)
  then have "x \<in> set (filter (\<lambda>item. policyId item = Some pid) snapshot)"
    using x(1) l by simp
  then show ?thesis using x(2) by (metis image_eqI set_map)
qed

lemmas data_eval =
  example_data_def example_policy_def example_entry_def delete_policy_doc_def
  delete_entry_doc_def try_delete_entry_def all_accepted_def List.map_filter_def
  entry_rejecting_store_def

text \<open>
  Claim C6, as amended. Let every ledger entry of the application's snapshot that is
  still in the store have the same policyId there. Without confirmation no delete is
  issued and the store is unchanged. In every case every policy with another identifier
  and every ledger entry whose policyId is different or null is unchanged. When the
  deletion is confirmed in a session with a signed-in user, the store carries out every
  delete the operation issues, and the snapshot contains every stored ledger entry linked
  to the policy, the resulting store contains neither the policy nor any ledger entry
  linked to it. (A delete that the store rejects leaves its document in place without
  rollback, and a linked entry that the snapshot does not show yet is not deleted; see
  the counterexample.)
\<close>

theorem deletePolicy_cascade:
  assumes agrees: "snapshot_agrees paymentsExpenses d"
  shows "(\<not> confirmed \<longrightarrow>
            d_requests (handleDeletePolicy s store confirmed paymentsExpenses d pid) = []
            \<and> d_data (handleDeletePolicy s store confirmed paymentsExpenses d pid) = d)
       \<and> filter (\<lambda>p. policy_id p \<noteq> pid)
             (stored_policies (d_data (handleDeletePolicy s store confirmed paymentsExpenses d pid)))
           = filter (\<lambda>p. policy_id p \<noteq> pid) (stored_policies d)
       \<and> filter (\<lambda>e. policyId e \<noteq> Some pid)
             (stored_entries (d_data (handleDeletePolicy s store confirmed paymentsExpenses d pid)))
           = filter (\<lambda>e. policyId e \<noteq> Some pid) (stored_entries d)
       \<and> (session_ready s \<and> confirmed
            \<and> all_accepted store
                (d_requests (handleDeletePolicy s store confirmed paymentsExpenses d pid))
            \<and> snapshot_covers paymentsExpenses d pid
          \<longrightarrow> stored_policies (d_data (handleDeletePolicy s store confirmed paymentsExpenses d pid))
                 = filter (\<lambda>p. policy_id p \<noteq> pid) (stored_policies d)
              \<and> stored_entries (d_data (handleDeletePolicy s store confirmed paymentsExpenses d pid))
                 = filter (\<lambda>e. policyId e \<noteq> Some pid) (stored_entries d))"
proof -
  let ?out = "handleDeletePolicy s store confirmed paymentsExpenses d pid"
  let ?ids = "map entry_id (filter (\<lambda>item. policyId item = Some pid) paymentsExpenses)"
  let ?done = "foldl (try_delete_entry store) (delete_policy_doc pid d) ?ids"
  have pol: "stored_policies ?done = filter (\<lambda>p. policy_id p \<noteq> pid) (stored_policies d)"
    by (simp add: policies_try_delete delete_policy_doc_def)
  have ent: "stored_entries ?done
      = filter (\<lambda>e. \<not> (entry_id e \<in> set ?ids \<and> store (DeleteEntryDoc (entry_id e)) = None))
          (stored_entries d)"
    by (simp add: entries_try_delete delete_policy_doc_def)
  have cases: "d_data ?out = d \<or> d_data ?out = ?done"
    by (simp add: handleDeletePolicy_def Let_def split: option.splits)
  have no_confirm: "\<not> confirmed \<longrightarrow> d_requests ?out = [] \<and> d_data ?out = d"
    by (simp add: handleDeletePolicy_def)
  have frame_p: "filter (\<lambda>p. policy_id p \<noteq> pid) (stored_policies (d_data ?out))
      = filter (\<lambda>p. policy_id p \<noteq> pid) (stored_policies d)"
    using cases pol by auto
  have frame_done: "filter (\<lambda>e. policyId e \<noteq> Some pid) (stored_entries ?done)
        = filter (\<lambda>e. policyId e \<noteq> Some pid) (stored_entries d)"
  proof -
    have "filter (\<lambda>e. policyId e \<noteq> Some pid)
            (filter (\<lambda>e. \<not> (entry_id e \<in> set ?ids \<and> store (DeleteEntryDoc (entry_id e)) = None))
               (stored_entries d))
          = filter (\<lambda>e. policyId e \<noteq> Some pid) (stored_entries d)"
      unfolding filter_filter
    proof (rule filter_cong)
      fix e assume e: "e \<in> set (stored_entries d)"
      show "(\<not> (entry_id e \<in> set ?ids \<and> store (DeleteEntryDoc (entry_id e)) = None)
               \<and> policyId e \<noteq> Some pid) = (policyId e \<noteq> Some pid)"
        using related_ids_linked [OF agrees e, of pid] by blast
    qed simp
    then show ?thesis by (simp only: ent)
  qed
  have frame_e: "filter (\<lambda>e. policyId e \<noteq> Some pid) (stored_entries (d_data ?out))
      = filter (\<lambda>e. policyId e \<noteq> Some pid) (stored_entries d)"
    using cases frame_done by auto
  have removal: "session_ready s \<and> confirmed \<and> all_accepted store (d_requests ?out)
        \<and> snapshot_covers paymentsExpenses d pid \<longrightarrow>
      stored_policies (d_data ?out) = filter (\<lambda>p. policy_id p \<noteq> pid) (stored_policies d)
      \<and> stored_entries (d_data ?out) = filter (\<lambda>e. policyId e \<noteq> Some pid) (stored_entries d)"
  proof (intro impI, elim conjE)
    assume r: "session_ready s" and c: "confirmed" and ok: "all_accepted store (d_requests ?out)"
      and covers: "snapshot_covers paymentsExpenses d pid"
    have rs: "db s" "str_truthy (userId s)" using r by (simp_all add: session_ready_def)
    have p_ok: "store (DeletePolicyDoc pid) = None"
      using ok rs c
      by (cases "store (DeletePolicyDoc pid)")
        (simp_all add: handleDeletePolicy_def all_accepted_def Let_def)
    then have out: "d_data ?out = ?done"
      and reqs: "d_requests ?out = DeletePolicyDoc pid # map DeleteEntryDoc ?ids"
      using rs c by (simp_all add: handleDeletePolicy_def Let_def)
    have all: "\<forall>i\<in>set ?ids. store (DeleteEntryDoc i) = None"
      using ok reqs by (simp add: all_accepted_def list_all_iff)
    have "filter (\<lambda>e. \<not> (entry_id e \<in> set ?ids \<and> store (DeleteEntryDoc (entry_id e)) = None))
            (stored_entries d)
          = filter (\<lambda>e. policyId e \<noteq> Some pid) (stored_entries d)"
    proof (rule filter_cong)
      fix e assume e: "e \<in> set (stored_entries d)"
      show "(\<not> (entry_id e \<in> set ?ids \<and> store (DeleteEntryDoc (entry_id e)) = None))
              = (policyId e \<noteq> Some pid)"
        using related_ids_linked [OF agrees e, of pid]
          related_ids_cover [OF agrees covers e] all
        by blast
    qed simp
    then show "stored_policies (d_data ?out) = filter (\<lambda>p. policy_id p \<noteq> pid) (stored_policies d)
      \<and> stored_entries (d_data ?out) = filter (\<lambda>e. policyId e \<noteq> Some pid) (stored_entries d)"
      using out pol ent by simp
  qed
  show ?thesis using no_confirm frame_p frame_e removal by (intro conjI)
qed

theorem deletePolicy_cascade_witness:
  "snapshot_agrees (stored_entries example_data) example_data
   \<and> session_ready signed_in
   \<and> all_accepted reliable_store
       (d_requests (handleDeletePolicy signed_in reliable_store True
          (stored_entries example_data) example_data ''1''))
   \<and> snapshot_covers (stored_entries example_data) example_data ''1''
   \<and> d_requests (handleDeletePolicy signed_in reliable_store True
        (stored_entries example_data) example_data ''1'')
       = [DeletePolicyDoc ''1'', DeleteEntryDoc ''e1'']
   \<and> stored_policies (d_data (handleDeletePolicy signed_in reliable_store True
        (stored_entries example_data) example_data ''1''))
       = [example_policy ''2'' ''Sticker'' None]
   \<and> stored_entries (d_data (handleDeletePolicy signed_in reliable_store True
        (stored_entries example_data) example_data ''1''))
       = [example_entry ''e2'' ''Expense'' 40 ''2024-03-11'' None,
          example_entry ''e3'' ''Payment'' 25 ''2024-03-12'' (Some ''2'')]
   \<and> d_requests (handleDeletePolicy signed_in reliable_store False
        (stored_entries example_data) example_data ''1'') = []
   \<and> d_data (handleDeletePolicy signed_in reliable_store False
        (stored_entries example_data) example_data ''1'') = example_data"
proof -
  have g: "snapshot_agrees (stored_entries example_data) example_data"
    by (simp add: snapshot_agrees_def data_eval)
  have v: "snapshot_covers (stored_entries example_data) example_data ''1''"
    by (simp add: snapshot_covers_def data_eval)
  have r: "session_ready signed_in" by (simp add: session_ready_def signed_in_def)
  have q: "d_requests (handleDeletePolicy signed_in reliable_store True
             (stored_entries example_data) example_data ''1'')
       = [DeletePolicyDoc ''1'', DeleteEntryDoc ''e1'']"
    by (simp add: gateway_eval data_eval)
  have a: "all_accepted reliable_store
       (d_requests (handleDeletePolicy signed_in reliable_store True
          (stored_entries example_data) example_data ''1''))"
    by (simp add: q) (simp add: all_accepted_def reliable_store_def)
  have p: "filter (\<lambda>p. policy_id p \<noteq> ''1'') (stored_policies example_data)
       = [example_policy ''2'' ''Sticker'' None]"
    by (simp add: data_eval)
  have e: "filter (\<lambda>e. policyId e \<noteq> Some ''1'') (stored_entries example_data)
       = [example_entry ''e2'' ''Expense'' 40 ''2024-03-11'' None,
          example_entry ''e3'' ''Payment'' 25 ''2024-03-12'' (Some ''2'')]"
    by (simp add: data_eval)
  show ?thesis
    using deletePolicy_cascade [OF g, of True signed_in reliable_store "''1''"]
      deletePolicy_cascade [OF g, of False signed_in reliable_store "''1''"]
      g v r q a p e
    by simp
qed

theorem deletePolicy_rejected_counterexample:
  "stored_policies (d_data (handleDeletePolicy signed_in failing_store True
       (stored_entries example_data) example_data ''1''))
     = [example_policy ''1'' ''Toll'' None, example_policy ''2'' ''Sticker'' None]
   \<and> d_requests (handleDeletePolicy signed_in failing_store True
       (stored_entries example_data) example_data ''1'')
     = [DeletePolicyDoc ''1'']
   \<and> d_requests (handleDeletePolicy signed_in entry_rejecting_store True
       (stored_entries example_data) example_data ''1'')
     = [DeletePolicyDoc ''1'', DeleteEntryDoc ''e1'']
   \<and> stored_policies (d_data (handleDeletePolicy signed_in entry_rejecting_store True
       (stored_entries example_data) example_data ''1''))
     = [example_policy ''2'' ''Sticker'' None]
   \<and> stored_entries (d_data (handleDeletePolicy signed_in entry_rejecting_store True
       (stored_entries example_data) example_data ''1''))
     = [example_entry ''e1'' ''Payment'' 60 ''2024-03-10'' (Some ''1''),
        example_entry ''e2'' ''Expense'' 40 ''2024-03-11'' None,
        example_entry ''e3'' ''Payment'' 25 ''2024-03-12'' (Some ''2'')]
   \<and> d_requests (handleDeletePolicy signed_in reliable_store True
       [example_entry ''e2'' ''Expense'' 40 ''2024-03-11'' None] example_data ''1'')
     = [DeletePolicyDoc ''1'']
   \<and> stored_entries (d_data (handleDeletePolicy signed_in reliable_store True
       [example_entry ''e2'' ''Expense'' 40 ''2024-03-11'' None] example_data ''1''))
     = [example_entry ''e1'' ''Payment'' 60 ''2024-03-10'' (Some ''1''),
        example_entry ''e2'' ''Expense'' 40 ''2024-03-11'' None,
        example_entry ''e3'' ''Payment'' 25 ''2024-03-12'' (Some ''2'')]"
  by (simp add: gateway_eval data_eval)

section \<open>Customer deriver\<close>

subsection \<open>The fold builds the rows of the specification\<close>

lemma first_occurrences_snoc:
  "first_occurrences (xs @ [x])
     = (if x \<in> set xs then first_occurrences xs else first_occurrences xs @ [x])"
  by (simp add: first_occurrences_def)

lemma set_first_occurrences: "set (first_occurrences xs) = set xs"
  by (simp add: first_occurrences_def)

lemma distinct_first_occurrences: "distinct (first_occurrences xs)"
  by (simp add: first_occurrences_def)

lemma set_map_filter: "set (List.map_filter f xs) = {k. \<exists>x\<in>set xs. f x = Some k}"
  by (induction xs) (auto simp: map_filter_simps split: option.splits)

lemma set_customer_ids: "set (customer_ids Q) = {k. \<exists>p\<in>set Q. customer_id p = Some k}"
  by (simp add: customer_ids_def set_first_occurrences set_map_filter)

lemma customer_ids_snoc_none:
  "customer_id p = None \<Longrightarrow> customer_ids (Q @ [p]) = customer_ids Q"
  by (simp add: customer_ids_def List.map_filter_def)

lemma customer_ids_snoc_some:
  "customer_id p = Some k \<Longrightarrow>
   customer_ids (Q @ [p]) = (if k \<in> set (customer_ids Q) then customer_ids Q else customer_ids Q @ [k])"
  by (simp add: customer_ids_def List.map_filter_def first_occurrences_snoc
      set_first_occurrences)

lemma policies_of_snoc:
  "policies_of k (Q @ [p]) = (if customer_id p = Some k then policies_of k Q @ [p] else policies_of k Q)"
  by (simp add: policies_of_def)

lemma in_customer_ids: "(k \<in> set (customer_ids Q)) = (policies_of k Q \<noteq> [])"
  by (auto simp: set_customer_ids policies_of_def filter_empty_conv)

lemma spec_row_snoc_other:
  "customer_id p \<noteq> Some k \<Longrightarrow> spec_row k (Q @ [p]) = spec_row k Q"
  by (simp add: spec_row_def policies_of_snoc)

lemma spec_row_snoc_same:
  assumes "customer_id p = Some k" and "policies_of k Q \<noteq> []"
  shows "spec_row k (Q @ [p]) = add_policy_to_row p (spec_row k Q)"
  using assms
  by (simp add: spec_row_def policies_of_snoc add_policy_to_row_def Let_def nsum_snoc
      or_zero_numeric)

lemma spec_row_new:
  assumes "customer_id p = Some k" and "policies_of k Q = []" and "customer p = Some c"
  shows "spec_row k (Q @ [p]) = add_policy_to_row p (new_customer_row c)"
  using assms
  by (simp add: spec_row_def policies_of_snoc add_policy_to_row_def new_customer_row_def
      Let_def nsum_def or_zero_numeric)

lemma map_of_spec_object:
  "map_of (spec_object Q) k = (if k \<in> set (customer_ids Q) then Some (spec_row k Q) else None)"
  by (simp add: spec_object_def map_of_map_restrict restrict_map_def)

lemma keys_spec_object: "map fst (spec_object Q) = customer_ids Q"
  by (simp add: spec_object_def comp_def)

lemma customer_id_some:
  "customer_id p = Some k \<Longrightarrow>
   \<exists>c. customer p = Some c \<and> str_truthy (idNumber c) \<and> idNumber c = Some k"
  by (auto simp: customer_id_def split: option.splits if_splits)

lemma customer_id_none:
  "customer_id p = None \<Longrightarrow>
   customer p = None \<or> (\<exists>c. customer p = Some c \<and> \<not> str_truthy (idNumber c))"
  by (auto simp: customer_id_def split: option.splits if_splits)

lemma reducer_skip:
  assumes "customer_id p = None"
  shows "customer_reducer acc p = Inr acc"
  using customer_id_none [OF assms] by (auto simp: customer_reducer_def)

lemma reducer_existing:
  assumes id: "customer_id p = Some k" and own: "k \<in> set (customer_ids Q)"
  shows "customer_reducer (spec_object Q) p = Inr (spec_object (Q @ [p]))"
proof -
  from customer_id_some [OF id] obtain c where c: "customer p = Some c"
    "str_truthy (idNumber c)" "idNumber c = Some k" by blast
  have get: "get_property (spec_object Q) k = OwnProperty (spec_row k Q)"
    using own by (simp add: get_property_def map_of_spec_object)
  have step: "customer_reducer (spec_object Q) p
      = Inr (set_property (spec_object Q) k (add_policy_to_row p (spec_row k Q)))"
    using c get by (simp add: customer_reducer_def)
  have nonempty: "policies_of k Q \<noteq> []" using own by (simp add: in_customer_ids)
  have "set_property (spec_object Q) k (add_policy_to_row p (spec_row k Q))
      = map (\<lambda>k'. (k', if k' = k then add_policy_to_row p (spec_row k Q) else spec_row k' Q))
          (customer_ids Q)"
    using own by (simp add: set_property_def keys_spec_object) (simp add: spec_object_def)
  also have "\<dots> = map (\<lambda>k'. (k', spec_row k' (Q @ [p]))) (customer_ids Q)"
  proof (rule map_cong [OF refl])
    fix k' assume "k' \<in> set (customer_ids Q)"
    show "(k', if k' = k then add_policy_to_row p (spec_row k Q) else spec_row k' Q)
            = (k', spec_row k' (Q @ [p]))"
    proof (cases "k' = k")
      case True
      then show ?thesis using spec_row_snoc_same [OF id nonempty] by simp
    next
      case False
      then have "customer_id p \<noteq> Some k'" using id by simp
      then show ?thesis using False by (simp add: spec_row_snoc_other)
    qed
  qed
  also have "\<dots> = spec_object (Q @ [p])"
    using own by (simp add: spec_object_def customer_ids_snoc_some [OF id])
  finally show ?thesis using step by simp
qed

lemma reducer_new:
  assumes id: "customer_id p = Some k" and fresh: "k \<notin> set (customer_ids Q)"
    and safe: "k \<notin> set object_prototype_keys"
  shows "customer_reducer (spec_object Q) p = Inr (spec_object (Q @ [p]))"
proof -
  from customer_id_some [OF id] obtain c where c: "customer p = Some c"
    "str_truthy (idNumber c)" "idNumber c = Some k" by blast
  let ?acc1 = "spec_object Q @ [(k, new_customer_row c)]"
  have get: "get_property (spec_object Q) k = NoProperty"
    using fresh safe by (simp add: get_property_def map_of_spec_object)
  have init: "set_property (spec_object Q) k (new_customer_row c) = ?acc1"
    using fresh by (simp add: set_property_def keys_spec_object)
  have get1: "get_property ?acc1 k = OwnProperty (new_customer_row c)"
    using fresh by (simp add: get_property_def map_of_spec_object map_add_def)
  have step: "customer_reducer (spec_object Q) p
      = Inr (set_property ?acc1 k (add_policy_to_row p (new_customer_row c)))"
    using c get init get1 by (simp add: customer_reducer_def)
  have unchanged: "map (\<lambda>kv. if fst kv = k then (k, add_policy_to_row p (new_customer_row c)) else kv)
                     (spec_object Q) = spec_object Q"
  proof (rule map_idI)
    fix kv assume "kv \<in> set (spec_object Q)"
    then have "fst kv \<in> set (customer_ids Q)" by (auto simp: spec_object_def)
    then have "fst kv \<noteq> k" using fresh by auto
    then show "(if fst kv = k then (k, add_policy_to_row p (new_customer_row c)) else kv) = kv"
      by simp
  qed
  have "set_property ?acc1 k (add_policy_to_row p (new_customer_row c))
      = spec_object Q @ [(k, add_policy_to_row p (new_customer_row c))]"
    by (simp add: set_property_def unchanged)
  also have "\<dots> = map (\<lambda>k'. (k', spec_row k' (Q @ [p]))) (customer_ids Q)
                  @ [(k, spec_row k (Q @ [p]))]"
  proof -
    have empty: "policies_of k Q = []" using fresh by (simp add: in_customer_ids)
    have new: "spec_row k (Q @ [p]) = add_policy_to_row p (new_customer_row c)"
      using spec_row_new [OF id empty c(1)] .
    have old: "map (\<lambda>k'. (k', spec_row k' (Q @ [p]))) (customer_ids Q) = spec_object Q"
      unfolding spec_object_def
    proof (rule map_cong [OF refl])
      fix k' assume "k' \<in> set (customer_ids Q)"
      then have "k' \<noteq> k" using fresh by auto
      then have "customer_id p \<noteq> Some k'" using id by simp
      then show "(k', spec_row k' (Q @ [p])) = (k', spec_row k' Q)"
        by (simp add: spec_row_snoc_other)
    qed
    show ?thesis by (simp add: new old)
  qed
  also have "\<dots> = spec_object (Q @ [p])"
    using fresh by (simp add: spec_object_def customer_ids_snoc_some [OF id])
  finally show ?thesis using step by simp
qed

lemma reducer_spec:
  assumes "case customer_id p of None \<Rightarrow> True | Some k \<Rightarrow> k \<notin> set object_prototype_keys"
  shows "customer_reducer (spec_object Q) p = Inr (spec_object (Q @ [p]))"
proof (cases "customer_id p")
  case None
  have "spec_object (Q @ [p]) = spec_object Q"
    unfolding spec_object_def customer_ids_snoc_none [OF None]
  proof (rule map_cong [OF refl])
    fix k' show "(k', spec_row k' (Q @ [p])) = (k', spec_row k' Q)"
      using None by (simp add: spec_row_snoc_other)
  qed
  then show ?thesis using reducer_skip [OF None] by simp
next
  case (Some k)
  then have safe: "k \<notin> set object_prototype_keys" using assms by simp
  show ?thesis
  proof (cases "k \<in> set (customer_ids Q)")
    case True
    then show ?thesis using reducer_existing [OF Some] by simp
  next
    case False
    then show ?thesis using reducer_new [OF Some _ safe] by simp
  qed
qed

lemma reduce_policies_spec:
  "no_prototype_ids P \<Longrightarrow> reduce_policies (spec_object Q) P = Inr (spec_object (Q @ P))"
proof (induction P arbitrary: Q)
  case Nil
  show ?case by simp
next
  case (Cons p P)
  have p: "case customer_id p of None \<Rightarrow> True | Some k \<Rightarrow> k \<notin> set object_prototype_keys"
    and rest: "no_prototype_ids P"
    using Cons.prems by (simp_all add: no_prototype_ids_def)
  have "reduce_policies (spec_object Q) (p # P) = reduce_policies (spec_object (Q @ [p])) P"
    using reducer_spec [OF p, of Q] by simp
  also have "\<dots> = Inr (spec_object ((Q @ [p]) @ P))" using rest by (rule Cons.IH)
  finally show ?case by simp
qed

lemma uniqueCustomers_spec:
  "no_prototype_ids P \<Longrightarrow> uniqueCustomers P = Inr (spec_object P)"
proof -
  assume safe: "no_prototype_ids P"
  have "spec_object [] = []"
    by (simp add: spec_object_def customer_ids_def first_occurrences_def List.map_filter_def)
  then show ?thesis
    using reduce_policies_spec [OF safe, of "[]"] by (simp add: uniqueCustomers_def)
qed

lemma mset_Object_values: "mset (Object_values acc) = mset (map snd acc)"
proof -
  have "mset (filter (\<lambda>kv. is_array_index (fst kv)) acc)
          + mset (filter (\<lambda>kv. \<not> is_array_index (fst kv)) acc) = mset acc"
    by (simp only: mset_filter multiset_partition [symmetric])
  then have "image_mset snd (mset (filter (\<lambda>kv. is_array_index (fst kv)) acc))
          + image_mset snd (mset (filter (\<lambda>kv. \<not> is_array_index (fst kv)) acc))
          = image_mset snd (mset acc)"
    by (metis image_mset_union)
  then show ?thesis by (simp add: Object_values_def)
qed

lemma idNumber_spec_row:
  assumes "k \<in> set (customer_ids P)"
  shows "idNumber (spec_row k P) = Some k"
proof -
  have ne: "policies_of k P \<noteq> []" using assms by (simp add: in_customer_ids)
  then have "hd (policies_of k P) \<in> set (policies_of k P)" by simp
  then have "customer_id (hd (policies_of k P)) = Some k" by (simp add: policies_of_def)
  from customer_id_some [OF this] show ?thesis by (auto simp: spec_row_def Let_def)
qed

text \<open>
  What the fold does on every list in which no ID number is the name of a property of
  \<^verbatim>\<open>Object.prototype\<close>: it returns one row per distinct non-empty ID number, and the
  row of an ID number is the one the specification describes (the identity of the first
  policy with that number, the count of its policies, the sum of their amounts).
\<close>

theorem customer_deriver_rows:
  assumes safe: "no_prototype_ids P"
  shows "\<exists>rows. customersList P = Inr rows
       \<and> distinct (map idNumber rows)
       \<and> set (map idNumber rows) = Some ` {k. \<exists>p\<in>set P. customer_id p = Some k}
       \<and> length rows = card {k. \<exists>p\<in>set P. customer_id p = Some k}
       \<and> (\<forall>r\<in>set rows. \<forall>k. idNumber r = Some k \<longrightarrow>
             r = spec_row k P
           \<and> policiesCount r = length (policies_of k P)
           \<and> rowTotalPolicyValue r
               = nsum (map (\<lambda>p. numeric_or_zero (totalAmount p)) (policies_of k P)))"
proof -
  let ?ids = "customer_ids P"
  let ?rows = "Object_values (spec_object P)"
  have res: "customersList P = Inr ?rows"
    using uniqueCustomers_spec [OF safe] by (simp add: customersList_def)
  have rows: "mset ?rows = mset (map (\<lambda>k. spec_row k P) ?ids)"
    by (simp add: mset_Object_values spec_object_def comp_def)
  have "map (\<lambda>k. idNumber (spec_row k P)) ?ids = map Some ?ids"
    by (rule map_cong [OF refl]) (simp add: idNumber_spec_row)
  then have "mset (map (\<lambda>k. idNumber (spec_row k P)) ?ids) = mset (map Some ?ids)"
    by (simp only:)
  moreover have "mset (map idNumber ?rows) = image_mset idNumber (mset ?rows)"
    by simp
  moreover have "image_mset idNumber (mset (map (\<lambda>k. spec_row k P) ?ids))
      = mset (map (\<lambda>k. idNumber (spec_row k P)) ?ids)"
    by (simp add: multiset.map_comp comp_def)
  ultimately have ids: "mset (map idNumber ?rows) = mset (map Some ?ids)"
    by (simp only: rows)
  have dist_ids: "distinct ?ids" by (simp add: customer_ids_def distinct_first_occurrences)
  then have "distinct (map Some ?ids)" by (simp add: distinct_map)
  then have d: "distinct (map idNumber ?rows)"
    using mset_eq_imp_distinct_iff [OF ids] by simp
  have "set (map idNumber ?rows) = set (map Some ?ids)"
    using ids by (rule mset_eq_setD)
  then have s: "set (map idNumber ?rows) = Some ` {k. \<exists>p\<in>set P. customer_id p = Some k}"
    by (simp add: set_customer_ids)
  have "length ?rows = length (map (\<lambda>k. spec_row k P) ?ids)"
    using rows by (rule mset_eq_length)
  then have "length ?rows = length ?ids" by simp
  also have "\<dots> = card (set ?ids)" using dist_ids by (simp add: distinct_card)
  finally have l: "length ?rows = card {k. \<exists>p\<in>set P. customer_id p = Some k}"
    by (simp add: set_customer_ids)
  have each: "\<forall>r\<in>set ?rows. \<forall>k. idNumber r = Some k \<longrightarrow>
             r = spec_row k P
           \<and> policiesCount r = length (policies_of k P)
           \<and> rowTotalPolicyValue r
               = nsum (map (\<lambda>p. numeric_or_zero (totalAmount p)) (policies_of k P))"
  proof (intro ballI allI impI)
    fix r k assume r: "r \<in> set ?rows" and k: "idNumber r = Some k"
    have "set ?rows = set (map (\<lambda>k. spec_row k P) ?ids)"
      using rows by (rule mset_eq_setD)
    then obtain k' where k': "k' \<in> set ?ids" "r = spec_row k' P" using r by auto
    then have "k' = k" using k idNumber_spec_row [of k' P] by simp
    then have eq: "r = spec_row k P" using k' by simp
    then show "r = spec_row k P
           \<and> policiesCount r = length (policies_of k P)
           \<and> rowTotalPolicyValue r
               = nsum (map (\<lambda>p. numeric_or_zero (totalAmount p)) (policies_of k P))"
      by (simp add: spec_row_def Let_def)
  qed
  show ?thesis
  proof (intro exI conjI)
    show "customersList P = Inr ?rows" by (rule res)
    show "distinct (map idNumber ?rows)" by (rule d)
    show "set (map idNumber ?rows) = Some ` {k. \<exists>p\<in>set P. customer_id p = Some k}"
      by (rule s)
    show "length ?rows = card {k. \<exists>p\<in>set P. customer_id p = Some k}" by (rule l)
    show "\<forall>r\<in>set ?rows. \<forall>k. idNumber r = Some k \<longrightarrow>
             r = spec_row k P
           \<and> policiesCount r = length (policies_of k P)
           \<and> rowTotalPolicyValue r
               = nsum (map (\<lambda>p. numeric_or_zero (totalAmount p)) (policies_of k P))"
      by (rule each)
  qed
qed

subsection \<open>Inherited property names\<close>

lemmas deriver_eval =
  customersList_def uniqueCustomers_def customer_reducer_def get_property_def
  set_property_def new_customer_row_def add_policy_to_row_def policy_ref_of_def
  Object_values_def is_array_index_def object_prototype_keys_def customer_policy_def
  example_policy_def example_customer_def or_zero_def is_digit_def Let_def

text \<open>
  Claim C2 says that for every list of policies the customer deriver produces exactly one
  row per distinct non-empty ID number. The code misses a case: the accumulator is a
  plain object, so an ID number that is the name of a property inherited from
  \<^verbatim>\<open>Object.prototype\<close> is found in it before any row was stored, the row is never
  created, and the fold raises a TypeError instead of producing a row. For one policy
  whose customer has the ID number \<^verbatim>\<open>constructor\<close> the claim promises one row with one
  policy; the code produces no list at all.
\<close>

theorem customer_deriver_prototype_key:
  "customersList [customer_policy ''1'' ''constructor'' 100] = Inl TypeError"
  by (simp add: deriver_eval)

text \<open>The scenario of the specification: two policies of customer A1 (100 and 50) and one
  of customer B2 (30) give the row of A1 with two policies and the value 150, and the
  row of B2 with one policy and the value 30.\<close>

lemma customer_deriver_scenario:
  "customersList
     [customer_policy ''1'' ''A1'' 100, customer_policy ''2'' ''A1'' 50,
      customer_policy ''3'' ''B2'' 30]
   = Inr [
      \<lparr> firstName = Some ''Ana'', lastName = Some ''Ivanova'', phoneNumber = Some [],
        idNumber = Some ''A1'', address = Some [], city = Some [], postalCode = Some [],
        policiesCount = 2, rowTotalPolicyValue = Fin 150,
        associatedPolicies =
          [policy_ref_of (customer_policy ''1'' ''A1'' 100),
           policy_ref_of (customer_policy ''2'' ''A1'' 50)] \<rparr>,
      \<lparr> firstName = Some ''Ana'', lastName = Some ''Ivanova'', phoneNumber = Some [],
        idNumber = Some ''B2'', address = Some [], city = Some [], postalCode = Some [],
        policiesCount = 1, rowTotalPolicyValue = Fin 30,
        associatedPolicies = [policy_ref_of (customer_policy ''3'' ''B2'' 30)] \<rparr>]"
  by (simp add: deriver_eval)

section \<open>Worked examples\<close>

text \<open>The filter at work: the name filter ignores case and looks at both names, a policy
  without a valid-until date passes the range, a date outside the range or a missing
  customer does not.\<close>

lemma policy_filter_example:
  "filteredPolicies example_env
     (no_filters\<lparr> filterCustomerName := ''IVA'', filterValidUntilStartDate := ''2024-01-01'',
                  filterValidUntilEndDate := ''2024-12-31'' \<rparr>)
     [(customer_policy ''1'' ''A1'' 100)\<lparr> validUntil := Some ''2024-06-30'' \<rparr>,
      customer_policy ''2'' ''A1'' 50,
      (customer_policy ''3'' ''B2'' 30)\<lparr> validUntil := Some ''2025-02-01'' \<rparr>,
      example_policy ''4'' ''Toll'' (Some ''2024-06-30'')]
   = [(customer_policy ''1'' ''A1'' 100)\<lparr> validUntil := Some ''2024-06-30'' \<rparr>,
      customer_policy ''2'' ''A1'' 50]"
  by (simp add: filteredPolicies_def policy_matches_def matchesValidUntilDate_def
      chain_includes_def toLowerCase_def lower_char_def new_Date_def setHours_start_def
      setHours_end_def no_filters_def customer_policy_def example_policy_def
      example_customer_def example_env_def iso_day_def days_in_month_def no_other_date_def days_from_civil_def
      is_digit_def digits_val_def ms_per_day_def Let_def)

text \<open>The dashboard at work, on 15 June 2024: a total amount that does not parse counts as
  0, a commission given as text is parsed, and only the policy valid until the day before
  is overdue.\<close>

lemma dashboard_example:
  "Dashboard example_env
     [(customer_policy ''1'' ''A1'' 100)\<lparr> validUntil := Some ''2024-06-14'', paidByCustomer := True \<rparr>,
      (customer_policy ''2'' ''A1'' 50)\<lparr> validUntil := Some ''2024-06-15'', totalAmount := JStr ''abc'' \<rparr>,
      (customer_policy ''3'' ''B2'' 30)\<lparr> commission := JStr ''2.5'' \<rparr>]
   = \<lparr> totalPolicies = 3, totalPolicyValue = Fin 130, totalCommission = Fin 22.5,
       policiesPaidByCustomer = 1, policiesPaidToInsurer = 0, overduePolicies = 1 \<rparr>"
  by (simp add: Dashboard_def is_overdue_def new_Date_def setHours_start_def
      customer_policy_def example_policy_def example_customer_def example_env_def
      iso_day_def days_in_month_def no_other_date_def days_from_civil_def is_digit_def digits_val_def ms_per_day_def
      parseFloat_str_def str_decimal_def str_unsigned_def exponent_part_def scale10_def
      is_ws_def or_zero_def Let_def)

end
